(* ===== verification/Prelude.thy ===== *)
theory Prelude
  imports Main "HOL-Library.Word"
begin

text \<open>
  Shared vocabulary of the development: the fixed-width integer types of the
  source, the little-endian readings of wire bytes, C strings, and the generic
  list and word lemmas the component theories rely on.  The collections
  \<open>wire_simps\<close> (byte-level facts) and \<open>guard_simps\<close> (definitions that are
  unfolded when a protocol decision is analysed) are filled by the components.
\<close>

unbundle bit_operations_syntax

named_theorems wire_simps
named_theorems guard_simps

section \<open>Machine integers and byte strings\<close>

type_synonym byte = "8 word"
type_synonym uint8 = "8 word"
type_synonym uint16 = "16 word"
type_synonym uint32 = "32 word"
type_synonym uint64 = "64 word"
type_synonym bytes = "byte list"

text \<open>
  \<open>static_cast<uint16>(lo) | (static_cast<uint16>(hi) << 8)\<close>, the reading of a
  two-byte little-endian length.
\<close>

definition le16 :: "byte \<Rightarrow> byte \<Rightarrow> uint16" where
  "le16 lo hi = ucast lo OR push_bit 8 (ucast hi)"

lemma unat_byte_less [simp]: "unat (b :: byte) < 256"
  using unsigned_less [of b] by simp

lemma unat_le16 [wire_simps]: "unat (le16 lo hi) = unat lo + 256 * unat hi"
proof -
  have disj: "(ucast lo :: uint16) AND push_bit 8 (ucast hi) = 0"
    by (rule bit_word_eqI)
      (auto simp: bit_and_iff bit_push_bit_iff bit_ucast_iff dest: bit_imp_le_length)
  have hi: "unat (push_bit 8 (ucast hi) :: uint16) = 256 * unat hi"
  proof -
    have "unat hi * 256 < 65536" using unat_byte_less [of hi] by linarith
    then show ?thesis
      by (simp add: push_bit_eq_mult unat_word_ariths unsigned_ucast_eq take_bit_eq_mod
          less_imp_le_nat order_le_less_trans [of "unat hi" "unat hi * 256"])
  qed
  have lo: "unat (ucast lo :: uint16) = unat lo"
    by (simp add: unsigned_ucast_eq take_bit_eq_mod order_less_trans [OF unat_byte_less])
  have "unat lo + 256 * unat hi < 65536"
    using unat_byte_less [of lo] unat_byte_less [of hi] by linarith
  then have "unat ((ucast lo :: uint16) + push_bit 8 (ucast hi)) = unat lo + 256 * unat hi"
    by (simp add: unat_word_ariths hi lo)
  moreover have "le16 lo hi = ucast lo + push_bit 8 (ucast hi)"
    using disj by (simp add: le16_def disjunctive_add_eq_or)
  ultimately show ?thesis by simp
qed

text \<open>The bytes of a little-endian integer of \<open>w\<close> bytes, and the value of such bytes.\<close>

fun le_bytes :: "nat \<Rightarrow> nat \<Rightarrow> bytes" where
  "le_bytes 0 x = []"
| "le_bytes (Suc w) x = word_of_nat x # le_bytes w (x div 256)"

lemma le_bytes_2: "le_bytes 2 x = [word_of_nat x, word_of_nat (x div 256)]"
  by (simp add: numeral_2_eq_2)

fun le_val :: "bytes \<Rightarrow> nat" where
  "le_val [] = 0"
| "le_val (x # xs) = unat x + 256 * le_val xs"

lemma length_le_bytes [simp, wire_simps]: "length (le_bytes w x) = w"
  by (induction w arbitrary: x) auto

lemma unat_word_of_nat_byte: "unat (word_of_nat x :: byte) = x mod 256"
  by (simp add: unat_of_nat)

lemma le_val_replicate_0 [simp]: "le_val (replicate n 0) = 0"
  by (induction n) simp_all

lemma le_val_le_bytes [wire_simps]: "le_val (le_bytes w x) = x mod 256 ^ w"
proof (induction w arbitrary: x)
  case 0
  then show ?case by simp
next
  case (Suc w)
  then show ?case
    by (simp add: unat_word_of_nat_byte mod_mult2_eq)
qed

lemma le_bytes_le_val [wire_simps]: "length xs = w \<Longrightarrow> le_bytes w (le_val xs) = xs"
proof (induction xs arbitrary: w)
  case Nil
  then show ?case by simp
next
  case (Cons x xs)
  have x: "unat x < 256" by simp
  then have "(unat x + 256 * le_val xs) div 256 = le_val xs" by simp
  moreover have "word_of_nat (unat x + 256 * le_val xs) = x"
    using x by (simp add: word_unat_eq_iff unat_word_of_nat_byte
        del: of_nat_add of_nat_mult)
  ultimately show ?case using Cons by auto
qed

lemma le_val_less: "le_val xs < 256 ^ length xs"
proof (induction xs)
  case Nil
  then show ?case by simp
next
  case (Cons x xs)
  have "unat x < 256" by simp
  then have "unat x + 256 * le_val xs < 256 * Suc (le_val xs)" by simp
  also have "\<dots> \<le> 256 * 256 ^ length xs" using Cons by (intro mult_le_mono2) simp
  finally show ?case by simp
qed

lemma le_bytes_inject:
  "x < 256 ^ w \<Longrightarrow> y < 256 ^ w \<Longrightarrow> le_bytes w x = le_bytes w y \<Longrightarrow> x = y"
  by (metis le_val_le_bytes mod_less)

lemma le_bytes_le16: "le_bytes 2 (unat (le16 lo hi)) = [lo, hi]"
  using le_bytes_le_val [of "[lo, hi]" 2] by (simp add: unat_le16)

section \<open>Strings\<close>

text \<open>
  A \<open>std::string\<close> is a byte string; the model writes it as \<open>string\<close> so that the
  literals of the source can be written as they are.  The two casts between wire
  bytes and characters are inverse to each other.
\<close>

definition chr :: "byte \<Rightarrow> char" where
  "chr b = char_of (unat b)"

definition ord :: "char \<Rightarrow> byte" where
  "ord c = word_of_nat (of_char c)"

lemma chr_ord [simp]: "chr (ord c) = c"
proof -
  have "(of_char c :: nat) < 256" by (rule nat_of_char_less_256)
  then show ?thesis by (simp add: chr_def ord_def unat_of_nat)
qed

lemma ord_chr [simp]: "ord (chr b) = b"
proof -
  have "unat b < 256" by simp
  then show ?thesis by (simp add: chr_def ord_def of_char_of)
qed

lemma chr_inject [simp]: "chr a = chr b \<longleftrightarrow> a = b"
  by (metis ord_chr)

lemma chr_eq_NUL [simp]: "chr b = CHR 0x00 \<longleftrightarrow> b = 0"
proof -
  have "chr 0 = CHR 0x00" by (simp add: chr_def char_of_def)
  then show ?thesis by (metis chr_inject)
qed

definition to_string :: "bytes \<Rightarrow> string" where
  "to_string = map chr"

definition of_string :: "string \<Rightarrow> bytes" where
  "of_string = map ord"

lemma length_to_string [simp]: "length (to_string bs) = length bs"
  by (simp add: to_string_def)

lemma length_of_string [simp]: "length (of_string s) = length s"
  by (simp add: of_string_def)

lemma of_to_string [simp]: "of_string (to_string bs) = bs"
  by (simp add: of_string_def to_string_def comp_def)

lemma to_of_string [simp]: "to_string (of_string s) = s"
  by (simp add: of_string_def to_string_def comp_def)

text \<open>
  The string a \<open>char const*\<close> denotes: the bytes before the first NUL.  The caller
  must know that a NUL is there.
\<close>

definition c_str :: "bytes \<Rightarrow> string" where
  "c_str bs = to_string (takeWhile (\<lambda>x. x \<noteq> 0) bs)"

text \<open>
  Reading a C string from an offset: every byte up to the terminator is read, so a buffer
  without one behind the offset is left (\<open>None\<close>).
\<close>

definition c_str_at :: "nat \<Rightarrow> bytes \<Rightarrow> string option" where
  "c_str_at off bs = (if 0 \<in> set (drop off bs) then Some (c_str (drop off bs)) else None)"

lemma c_str_at_terminated [simp]: "off \<le> length bs \<Longrightarrow> c_str_at off (bs @ [0]) = Some (c_str (drop off (bs @ [0])))"
  by (simp add: c_str_at_def)

lemma length_c_str_le: "length (c_str bs) \<le> length bs"
  by (simp add: c_str_def length_takeWhile_le)

section \<open>Buffers\<close>

text \<open>\<open>subbytes off n bs\<close>: the \<open>n\<close> bytes at offset \<open>off\<close>.\<close>

definition subbytes :: "nat \<Rightarrow> nat \<Rightarrow> 'a list \<Rightarrow> 'a list" where
  "subbytes off n xs = take n (drop off xs)"

lemma length_subbytes [wire_simps]: "off + n \<le> length xs \<Longrightarrow> length (subbytes off n xs) = n"
  by (simp add: subbytes_def)

lemma nth_subbytes [wire_simps]:
  "off + n \<le> length xs \<Longrightarrow> i < n \<Longrightarrow> subbytes off n xs ! i = xs ! (off + i)"
  by (simp add: subbytes_def)

lemma take_add_subbytes: "take (a + b) xs = take a xs @ subbytes a b xs"
  by (simp add: subbytes_def take_add)

lemma set_subbytes_iff:
  "off + n \<le> length xs \<Longrightarrow> x \<in> set (subbytes off n xs) \<longleftrightarrow> (\<exists>i < n. xs ! (off + i) = x)"
  by (auto simp: in_set_conv_nth length_subbytes nth_subbytes)

lemma take_Suc_nth:
  "n < length xs \<Longrightarrow> take (Suc n) xs = take n xs @ [xs ! n]"
  by (simp add: take_Suc_conv_app_nth)

lemma take4: "4 \<le> length xs \<Longrightarrow> take 4 xs = [xs ! 0, xs ! 1, xs ! 2, xs ! 3]"
  by (auto simp: numeral_eq_Suc Suc_le_length_iff)

lemma take_Suc_subbytes:
  "Suc m \<le> length d \<Longrightarrow> take (Suc m) d = d ! 0 # subbytes 1 m d"
  by (cases d) (auto simp: subbytes_def)

lemma subbytes_snoc:
  "off + n < length d \<Longrightarrow> subbytes off (Suc n) d = subbytes off n d @ [d ! (off + n)]"
  by (simp add: subbytes_def take_Suc_nth)

lemma subbytes_append1 [wire_simps]:
  "off + n \<le> length xs \<Longrightarrow> subbytes off n (xs @ ys) = subbytes off n xs"
  by (simp add: subbytes_def)

text \<open>Cutting a list into pieces of at most \<open>n\<close>, as a reader with an \<open>n\<close>-byte buffer does.\<close>

function chunks :: "nat \<Rightarrow> 'a list \<Rightarrow> 'a list list" where
  "chunks n xs = (if n = 0 \<or> xs = [] then [] else take n xs # chunks n (drop n xs))"
  by pat_completeness auto
termination
  by (relation "measure (\<lambda>(n, xs). length xs)") auto

declare chunks.simps [simp del]

lemma chunks_Nil [simp]: "chunks n [] = []"
  by (simp add: chunks.simps [of n "[]"])

lemma chunks_step: "0 < n \<Longrightarrow> xs \<noteq> [] \<Longrightarrow> chunks n xs = take n xs # chunks n (drop n xs)"
  by (simp add: chunks.simps [of n xs])

lemma concat_chunks [simp]: "0 < n \<Longrightarrow> concat (chunks n xs) = xs"
proof (induction n xs rule: chunks.induct)
  case (1 n xs)
  then show ?case by (cases "xs = []") (simp_all add: chunks_step)
qed

lemma chunks_sizes: "c \<in> set (chunks n xs) \<Longrightarrow> c \<noteq> [] \<and> length c \<le> n"
proof (induction n xs rule: chunks.induct)
  case (1 n xs)
  show ?case
  proof (cases "n = 0 \<or> xs = []")
    case True
    with "1.prems" show ?thesis by (simp add: chunks.simps [of n xs])
  next
    case False
    with 1 show ?thesis by (auto simp: chunks_step)
  qed
qed

end
