(* ===== verification/ProtocolGuard.thy ===== *)
theory ProtocolGuard
  imports AuthCodes
begin

text \<open>
  \<open>src/Auth/AuthProtocolGuard.{h,cpp}\<close>: the frame inspector that runs before any
  handler may consume bytes, the limit on pending input, and the authentication
  deadline.  The inspector is shown to be total and decisive (its verdict is stable
  when more bytes arrive, an Incomplete verdict names how many bytes are missing,
  and no byte at or beyond \<open>size\<close> influences it), which is what the receive loop of
  the session relies on through the locale \<open>frame_guard\<close>.
\<close>

section \<open>Data\<close>

datatype StreamState =
  Challenge | LogonProof | ReconnectProof | Patch | Authenticated | Closed

datatype FrameStatus = Incomplete | Complete | Reject

datatype RejectReason =
  NoReason | UnknownCommand | UnauthorizedCommand | MalformedLength | UnsupportedKeyProof

record FrameDecision =
  fd_status :: FrameStatus
  fd_reason :: RejectReason
  frameSize :: nat

abbreviation AuthChallengeHeaderSize :: nat where "AuthChallengeHeaderSize \<equiv> 4"
abbreviation AuthChallengeMinimumBodySize :: nat where "AuthChallengeMinimumBodySize \<equiv> 31"
abbreviation AuthLogonProofSize :: nat where "AuthLogonProofSize \<equiv> 75"
abbreviation AuthReconnectProofSize :: nat where "AuthReconnectProofSize \<equiv> 58"
abbreviation AuthRealmListSize :: nat where "AuthRealmListSize \<equiv> 5"
abbreviation AuthXferAcceptSize :: nat where "AuthXferAcceptSize \<equiv> 1"
abbreviation AuthXferResumeSize :: nat where "AuthXferResumeSize \<equiv> 9"
abbreviation AuthXferCancelSize :: nat where "AuthXferCancelSize \<equiv> 1"

abbreviation ChallengeAccountPrefixBodySize :: nat where
  "ChallengeAccountPrefixBodySize \<equiv> 30"
abbreviation ChallengeAccountLengthOffset :: nat where
  "ChallengeAccountLengthOffset \<equiv> 33"
abbreviation ChallengeAccountDataOffset :: nat where
  "ChallengeAccountDataOffset \<equiv> 34"
abbreviation LogonProofKeyCountOffset :: nat where "LogonProofKeyCountOffset \<equiv> 73"
abbreviation ReconnectProofKeyCountOffset :: nat where "ReconnectProofKeyCountOffset \<equiv> 57"

text \<open>\<open>AuthChallengeHeaderSize + std::numeric_limits<std::uint16_t>::max()\<close>\<close>

definition MaxPendingInput :: uint64 where
  "MaxPendingInput = 65539"

section \<open>The frame inspector\<close>

definition RejectWith :: "RejectReason \<Rightarrow> FrameDecision" where
  "RejectWith r = \<lparr>fd_status = Reject, fd_reason = r, frameSize = 0\<rparr>"

definition IncompleteFrame :: "nat \<Rightarrow> FrameDecision" where
  "IncompleteFrame n = \<lparr>fd_status = Incomplete, fd_reason = NoReason, frameSize = n\<rparr>"

definition CompleteFrame :: "nat \<Rightarrow> FrameDecision" where
  "CompleteFrame n = \<lparr>fd_status = Complete, fd_reason = NoReason, frameSize = n\<rparr>"

definition IsState :: "StreamState \<Rightarrow> StreamState \<Rightarrow> bool" where
  "IsState actual expected = (actual = expected)"

text \<open>The two challenge commands share one case of the switch.\<close>

definition InspectChallenge :: "StreamState \<Rightarrow> bytes \<Rightarrow> nat \<Rightarrow> FrameDecision" where
  "InspectChallenge state data sz =
     (if \<not> IsState state Challenge then RejectWith UnauthorizedCommand
      else if sz < AuthChallengeHeaderSize then IncompleteFrame AuthChallengeHeaderSize
      else
        let body = unat (le16 (data ! 2) (data ! 3));
            required = AuthChallengeHeaderSize + body
        in
          if body < AuthChallengeMinimumBodySize then RejectWith MalformedLength
          else if sz < required then IncompleteFrame required
          else
            let accountLength = unat (data ! ChallengeAccountLengthOffset) in
              if body \<noteq> ChallengeAccountPrefixBodySize + accountLength
              then RejectWith MalformedLength
              else if list_ex (\<lambda>i. data ! (ChallengeAccountDataOffset + i) = 0) [0..<accountLength]
              then RejectWith MalformedLength
              else CompleteFrame required)"

text \<open>The two proof commands: the key count is looked at as soon as it is there.\<close>

definition InspectProof ::
  "StreamState \<Rightarrow> StreamState \<Rightarrow> nat \<Rightarrow> nat \<Rightarrow> bytes \<Rightarrow> nat \<Rightarrow> FrameDecision" where
  "InspectProof expected state keyCountOffset required data sz =
     (if \<not> IsState state expected then RejectWith UnauthorizedCommand
      else if sz \<le> keyCountOffset then IncompleteFrame (keyCountOffset + 1)
      else if data ! keyCountOffset \<noteq> 0 then RejectWith UnsupportedKeyProof
      else if sz < required then IncompleteFrame required
      else CompleteFrame required)"

text \<open>The commands of fixed size.\<close>

definition InspectFixed ::
  "StreamState \<Rightarrow> StreamState \<Rightarrow> nat \<Rightarrow> nat \<Rightarrow> FrameDecision" where
  "InspectFixed expected state required sz =
     (if \<not> IsState state expected then RejectWith UnauthorizedCommand
      else if sz < required then IncompleteFrame required
      else CompleteFrame required)"

text \<open>\<open>data\<close> is a pointer: \<open>None\<close> is the null pointer.\<close>

definition InspectFrame :: "StreamState \<Rightarrow> bytes option \<Rightarrow> nat \<Rightarrow> FrameDecision" where
  "InspectFrame state ptr sz =
     (if sz = 0 then IncompleteFrame 0
      else case ptr of
        None \<Rightarrow> RejectWith MalformedLength
      | Some data \<Rightarrow>
          let c = data ! 0 in
          if c = cmd_code CMD_AUTH_LOGON_CHALLENGE \<or> c = cmd_code CMD_AUTH_RECONNECT_CHALLENGE
          then InspectChallenge state data sz
          else if c = cmd_code CMD_AUTH_LOGON_PROOF
          then InspectProof LogonProof state LogonProofKeyCountOffset AuthLogonProofSize data sz
          else if c = cmd_code CMD_AUTH_RECONNECT_PROOF
          then InspectProof ReconnectProof state ReconnectProofKeyCountOffset
                 AuthReconnectProofSize data sz
          else if c = cmd_code CMD_REALM_LIST
          then InspectFixed Authenticated state AuthRealmListSize sz
          else if c = cmd_code CMD_XFER_ACCEPT
          then InspectFixed Patch state AuthXferAcceptSize sz
          else if c = cmd_code CMD_XFER_RESUME
          then InspectFixed Patch state AuthXferResumeSize sz
          else if c = cmd_code CMD_XFER_CANCEL
          then InspectFixed Patch state AuthXferCancelSize sz
          else RejectWith UnknownCommand)"

section \<open>The pending-input limit\<close>

definition CanAppendPending :: "uint64 \<Rightarrow> uint64 \<Rightarrow> bool" where
  "CanAppendPending pending incoming =
     (pending \<le> MaxPendingInput \<and> incoming \<le> MaxPendingInput - pending)"

section \<open>The authentication deadline\<close>

text \<open>Time points of the steady clock are integers in the clock's own unit (nanoseconds).\<close>

record Deadline =
  m_deadline :: int
  m_active :: bool

definition ns_per_second :: int where
  "ns_per_second = 1000000000"

definition mk_Deadline :: "int \<Rightarrow> int \<Rightarrow> Deadline" where
  "mk_Deadline start timeout =
     \<lparr>m_deadline = start + timeout * ns_per_second, m_active = (timeout > 0)\<rparr>"

definition expired :: "Deadline \<Rightarrow> int \<Rightarrow> bool" where
  "expired d now = (m_active d \<and> now \<ge> m_deadline d)"

definition deactivate :: "Deadline \<Rightarrow> Deadline" where
  "deactivate d = d\<lparr>m_active := False\<rparr>"

definition active :: "Deadline \<Rightarrow> bool" where
  "active d = m_active d"

section \<open>The contract of a frame guard\<close>

text \<open>
  What the receive loop relies on.  \<open>inspect st d n\<close> looks at the first \<open>n\<close> bytes
  behind \<open>d\<close>.  A verdict that is not Incomplete is final: more bytes do not change
  it; a Complete frame is not empty and lies inside the bytes that were inspected.
\<close>

locale frame_guard =
  fixes inspect :: "StreamState \<Rightarrow> bytes option \<Rightarrow> nat \<Rightarrow> FrameDecision"
  assumes inspect_empty: "fd_status (inspect st p 0) = Incomplete"
    and inspect_local:
      "n \<le> length xs \<Longrightarrow> inspect st (Some (xs @ ys)) n = inspect st (Some xs) n"
    and inspect_final:
      "n \<le> m \<Longrightarrow> fd_status (inspect st (Some xs) n) \<noteq> Incomplete \<Longrightarrow>
       inspect st (Some xs) m = inspect st (Some xs) n"
    and complete_size:
      "fd_status (inspect st p n) = Complete \<Longrightarrow>
       0 < frameSize (inspect st p n) \<and> frameSize (inspect st p n) \<le> n"
    and closed_never_complete: "fd_status (inspect Closed p n) \<noteq> Complete"
begin

text \<open>The verdict on a whole buffer is not changed by bytes that arrive behind it.\<close>

lemma decided_append:
  assumes "fd_status (inspect st (Some xs) (length xs)) \<noteq> Incomplete"
  shows "inspect st (Some (xs @ ys)) (length (xs @ ys)) = inspect st (Some xs) (length xs)"
proof -
  have "inspect st (Some (xs @ ys)) (length xs) = inspect st (Some xs) (length xs)"
    by (rule inspect_local) simp
  then show ?thesis
    using inspect_final [of "length xs" "length (xs @ ys)" st "xs @ ys"] assms by simp
qed

text \<open>A complete frame leaves strictly fewer bytes in the buffer.\<close>

lemma complete_shrinks:
  assumes "fd_status (inspect st (Some xs) (length xs)) = Complete"
  shows "length (drop (frameSize (inspect st (Some xs) (length xs))) xs) < length xs"
  using complete_size [OF assms] by (simp only: length_drop) linarith

lemma complete_drop_append:
  assumes "fd_status (inspect st (Some xs) (length xs)) = Complete"
  shows "drop (frameSize (inspect st (Some xs) (length xs))) (xs @ ys) =
         drop (frameSize (inspect st (Some xs) (length xs))) xs @ ys"
  using complete_size [OF assms] by simp

end

lemmas decision_defs [guard_simps] =
  RejectWith_def IncompleteFrame_def CompleteFrame_def IsState_def

lemmas inspect_parts = InspectChallenge_def InspectProof_def InspectFixed_def

lemma InspectFrame_0 [simp]: "InspectFrame st p 0 = IncompleteFrame 0"
  by (simp add: InspectFrame_def)

text \<open>Each part of the switch keeps the contract; the switch only selects a part.\<close>

lemma InspectChallenge_local:
  "n \<le> length xs \<Longrightarrow> InspectChallenge st (xs @ ys) n = InspectChallenge st xs n"
  by (auto simp: InspectChallenge_def Let_def list_ex_iff nth_append)

lemma InspectProof_local:
  "n \<le> length xs \<Longrightarrow> InspectProof e st k r (xs @ ys) n = InspectProof e st k r xs n"
  by (auto simp: InspectProof_def nth_append)

lemma InspectChallenge_final:
  "n \<le> m \<Longrightarrow> fd_status (InspectChallenge st xs n) \<noteq> Incomplete \<Longrightarrow>
   InspectChallenge st xs m = InspectChallenge st xs n"
  by (auto simp: InspectChallenge_def Let_def guard_simps split: if_splits)

lemma InspectProof_final:
  "n \<le> m \<Longrightarrow> fd_status (InspectProof e st k r xs n) \<noteq> Incomplete \<Longrightarrow>
   InspectProof e st k r xs m = InspectProof e st k r xs n"
  by (auto simp: InspectProof_def guard_simps split: if_splits)

lemma InspectFixed_final:
  "n \<le> m \<Longrightarrow> fd_status (InspectFixed e st r n) \<noteq> Incomplete \<Longrightarrow>
   InspectFixed e st r m = InspectFixed e st r n"
  by (auto simp: InspectFixed_def guard_simps split: if_splits)

text \<open>
  The switch as a rule: a property of the verdict follows from the property of the
  part that the first byte selects.
\<close>

lemma InspectFrame_by_command:
  assumes "0 < n"
    and "P (InspectChallenge st d n)"
    and "P (InspectProof LogonProof st LogonProofKeyCountOffset AuthLogonProofSize d n)"
    and "P (InspectProof ReconnectProof st ReconnectProofKeyCountOffset AuthReconnectProofSize d n)"
    and "P (InspectFixed Authenticated st AuthRealmListSize n)"
    and "P (InspectFixed Patch st AuthXferAcceptSize n)"
    and "P (InspectFixed Patch st AuthXferResumeSize n)"
    and "P (RejectWith UnknownCommand)"
  shows "P (InspectFrame st (Some d) n)"
  using assms unfolding InspectFrame_def by (simp add: Let_def)

lemma InspectFrame_local:
  assumes "n \<le> length xs"
  shows "InspectFrame st (Some (xs @ ys)) n = InspectFrame st (Some xs) n"
proof (cases "n = 0")
  case False
  with assms have "(xs @ ys) ! 0 = xs ! 0" by (cases xs) auto
  with assms show ?thesis
    unfolding InspectFrame_def
    by (simp only: InspectChallenge_local InspectProof_local option.case)
qed (simp add: InspectFrame_def)

lemma InspectFrame_final:
  assumes "n \<le> m" and "fd_status (InspectFrame st (Some xs) n) \<noteq> Incomplete"
  shows "InspectFrame st (Some xs) m = InspectFrame st (Some xs) n"
proof -
  have "n \<noteq> 0"
  proof
    assume "n = 0"
    with assms(2) show False by (simp add: guard_simps)
  qed
  with assms show ?thesis
    by (auto simp: InspectFrame_def Let_def InspectChallenge_final InspectProof_final
        InspectFixed_final split: if_splits)
qed

lemma InspectFrame_complete_size:
  assumes "fd_status (InspectFrame st p n) = Complete"
  shows "0 < frameSize (InspectFrame st p n) \<and> frameSize (InspectFrame st p n) \<le> n"
proof -
  obtain d where d: "p = Some d" and n: "0 < n"
    using assms by (cases p) (auto simp: InspectFrame_def guard_simps split: if_splits)
  have "fd_status r = Complete \<longrightarrow> 0 < frameSize r \<and> frameSize r \<le> n"
    if "r = InspectFrame st (Some d) n" for r
    unfolding that using n
    by (rule InspectFrame_by_command) (auto simp: inspect_parts Let_def guard_simps)
  then show ?thesis using assms d by blast
qed

lemma InspectFrame_closed: "fd_status (InspectFrame Closed p n) \<noteq> Complete"
proof (cases "p = None \<or> n = 0")
  case False
  then obtain d where "p = Some d" and "0 < n" by auto
  then show ?thesis
    by (simp only:) (rule InspectFrame_by_command, auto simp: inspect_parts guard_simps)
qed (auto simp: InspectFrame_def guard_simps)

interpretation guard: frame_guard InspectFrame
proof unfold_locales
  show "fd_status (InspectFrame st p 0) = Incomplete" for st p
    by (simp add: guard_simps)
qed (simp_all add: InspectFrame_local InspectFrame_final InspectFrame_complete_size
      InspectFrame_closed)

section \<open>The language of frames\<close>

text \<open>
  The abstract view of the client side of the protocol: a frame is one of eight
  commands with its payload, \<open>encode\<close> is its wire form, \<open>frame_ok\<close> the payload
  widths, and \<open>frame_state\<close> the only stream state in which it may arrive.  The
  inspector accepts exactly the encodings of such frames.
\<close>

datatype ClientFrame =
    ChallengeFrame (is_reconnect: bool) (error_byte: byte) (middle: bytes) (account: bytes)
  | LogonProofFrame (proof_data: bytes) (security: byte)
  | ReconnectProofFrame (recon_data: bytes)
  | RealmListFrame (realm_pad: bytes)
  | XferAcceptFrame
  | XferResumeFrame (offset_data: bytes)
  | XferCancelFrame

fun frame_ok :: "ClientFrame \<Rightarrow> bool" where
  "frame_ok (ChallengeFrame r e mid acc) =
     (length mid = 29 \<and> acc \<noteq> [] \<and> length acc \<le> 255 \<and> 0 \<notin> set acc)"
| "frame_ok (LogonProofFrame d s) = (length d = 72)"
| "frame_ok (ReconnectProofFrame d) = (length d = 56)"
| "frame_ok (RealmListFrame d) = (length d = 4)"
| "frame_ok XferAcceptFrame = True"
| "frame_ok (XferResumeFrame d) = (length d = 8)"
| "frame_ok XferCancelFrame = True"

fun frame_cmd :: "ClientFrame \<Rightarrow> eAuthCmd" where
  "frame_cmd (ChallengeFrame r e mid acc) =
     (if r then CMD_AUTH_RECONNECT_CHALLENGE else CMD_AUTH_LOGON_CHALLENGE)"
| "frame_cmd (LogonProofFrame d s) = CMD_AUTH_LOGON_PROOF"
| "frame_cmd (ReconnectProofFrame d) = CMD_AUTH_RECONNECT_PROOF"
| "frame_cmd (RealmListFrame d) = CMD_REALM_LIST"
| "frame_cmd XferAcceptFrame = CMD_XFER_ACCEPT"
| "frame_cmd (XferResumeFrame d) = CMD_XFER_RESUME"
| "frame_cmd XferCancelFrame = CMD_XFER_CANCEL"

fun frame_state :: "ClientFrame \<Rightarrow> StreamState" where
  "frame_state (ChallengeFrame r e mid acc) = Challenge"
| "frame_state (LogonProofFrame d s) = LogonProof"
| "frame_state (ReconnectProofFrame d) = ReconnectProof"
| "frame_state (RealmListFrame d) = Authenticated"
| "frame_state XferAcceptFrame = Patch"
| "frame_state (XferResumeFrame d) = Patch"
| "frame_state XferCancelFrame = Patch"

fun frame_body :: "ClientFrame \<Rightarrow> bytes" where
  "frame_body (ChallengeFrame r e mid acc) =
     e # le_bytes 2 (30 + length acc) @ mid @ [word_of_nat (length acc)] @ acc"
| "frame_body (LogonProofFrame d s) = d @ [0, s]"
| "frame_body (ReconnectProofFrame d) = d @ [0]"
| "frame_body (RealmListFrame d) = d"
| "frame_body XferAcceptFrame = []"
| "frame_body (XferResumeFrame d) = d"
| "frame_body XferCancelFrame = []"

definition encode :: "ClientFrame \<Rightarrow> bytes" where
  "encode f = cmd_code (frame_cmd f) # frame_body f"

lemma encode_Challenge_eq:
  "encode (ChallengeFrame r e mid acc) =
     [cmd_code (frame_cmd (ChallengeFrame r e mid acc)), e,
      word_of_nat (30 + length acc), word_of_nat ((30 + length acc) div 256)]
     @ mid @ word_of_nat (length acc) # acc"
  by (simp add: encode_def le_bytes_2)

lemma encode_Challenge_layout:
  assumes "frame_ok (ChallengeFrame r e mid acc)"
  shows "length (encode (ChallengeFrame r e mid acc)) = 34 + length acc"
    and "unat (le16 (encode (ChallengeFrame r e mid acc) ! 2)
                    (encode (ChallengeFrame r e mid acc) ! 3)) = 30 + length acc"
    and "unat (encode (ChallengeFrame r e mid acc) ! 33) = length acc"
    and "i < length acc \<Longrightarrow> encode (ChallengeFrame r e mid acc) ! (34 + i) = acc ! i"
proof -
  from assms have len: "length mid = 29" "length acc \<le> 255" by auto
  show "length (encode (ChallengeFrame r e mid acc)) = 34 + length acc"
    using len by (simp add: encode_Challenge_eq)
  have "(30 + length acc) mod 256 + 256 * ((30 + length acc) div 256 mod 256) = 30 + length acc"
    using len by (simp add: div_mod_decomp_int mod_less mult.commute)
  then show "unat (le16 (encode (ChallengeFrame r e mid acc) ! 2)
                    (encode (ChallengeFrame r e mid acc) ! 3)) = 30 + length acc"
    by (simp add: encode_Challenge_eq unat_le16 unat_word_of_nat_byte del: of_nat_add)
  show "unat (encode (ChallengeFrame r e mid acc) ! 33) = length acc"
    using len by (simp add: encode_Challenge_eq nth_append nth_Cons' unat_word_of_nat_byte)
  show "encode (ChallengeFrame r e mid acc) ! (34 + i) = acc ! i" if "i < length acc"
    using len that by (simp add: encode_Challenge_eq nth_append nth_Cons')
qed

lemma encode_0 [simp]: "encode f ! 0 = cmd_code (frame_cmd f)"
  by (simp add: encode_def)

lemma encode_nonempty [simp]: "encode f \<noteq> []"
  by (simp add: encode_def)

lemma InspectFrame_encode:
  assumes "frame_ok f"
  shows "InspectFrame (frame_state f) (Some (encode f)) (length (encode f)) =
         CompleteFrame (length (encode f))"
proof (cases f)
  case (ChallengeFrame r e mid acc)
  with assms have ok: "frame_ok (ChallengeFrame r e mid acc)" by simp
  have nz: "\<not> list_ex (\<lambda>i. encode (ChallengeFrame r e mid acc) ! (34 + i) = 0) [0..<length acc]"
    using ok encode_Challenge_layout(4) [OF ok] by (auto simp: list_ex_iff) (metis nth_mem)
  show ?thesis
    using ok encode_Challenge_layout(1-3) [OF ok] nz unfolding ChallengeFrame
    by (simp add: InspectFrame_def InspectChallenge_def Let_def IsState_def)
next
  case (LogonProofFrame d s)
  with assms show ?thesis
    by (simp add: InspectFrame_def InspectProof_def IsState_def)
       (simp add: encode_def nth_append)
next
  case (ReconnectProofFrame d)
  with assms show ?thesis
    by (simp add: InspectFrame_def InspectProof_def IsState_def)
       (simp add: encode_def nth_append)
qed (use assms in \<open>simp_all add: InspectFrame_def InspectFixed_def IsState_def encode_def\<close>)


lemma InspectChallenge_decode:
  assumes c: "fd_status (InspectChallenge st d n) = Complete" and n: "n \<le> length d"
    and cmd: "d ! 0 = cmd_code CMD_AUTH_LOGON_CHALLENGE \<or> d ! 0 = cmd_code CMD_AUTH_RECONNECT_CHALLENGE"
  defines "k \<equiv> frameSize (InspectChallenge st d n)"
  shows "\<exists>f. frame_ok f \<and> frame_state f = st \<and> encode f = take k d"
proof -
  define len where "len = unat (d ! 33)"
  define f where "f = ChallengeFrame (d ! 0 = cmd_code CMD_AUTH_RECONNECT_CHALLENGE) (d ! 1)
    (subbytes 4 29 d) (subbytes 34 len d)"
  from c have st: "st = Challenge"
    and body: "unat (le16 (d ! 2) (d ! 3)) = 30 + len"
    and pos: "1 \<le> len" and kn: "34 + len \<le> n"
    and nz: "\<not> list_ex (\<lambda>i. d ! (34 + i) = 0) [0..<len]"
    and k: "k = 34 + len"
    by (auto simp: k_def InspectChallenge_def Let_def guard_simps len_def split: if_splits)
  have len255: "len \<le> 255" unfolding len_def using unat_byte_less [of "d ! 33"] by linarith
  have ok: "frame_ok f"
    using pos kn n nz len255
    by (auto simp: f_def length_subbytes set_subbytes_iff list_ex_iff)
       (use length_subbytes [of 34 len d] in fastforce)
  have le: "le_bytes 2 (30 + len) = [d ! 2, d ! 3]"
    using le_bytes_le16 [of "d ! 2" "d ! 3"] body by simp
  have "encode f = [d ! 0, d ! 1, d ! 2, d ! 3] @ subbytes 4 29 d @ [d ! 33] @ subbytes 34 len d"
    using cmd kn n le by (auto simp: encode_def f_def length_subbytes len_def)
  also have "\<dots> = take k d"
  proof -
    have "take 4 d = [d ! 0, d ! 1, d ! 2, d ! 3]"
      using kn n by (intro take4) simp
    moreover have "take 33 d = take 4 d @ subbytes 4 29 d"
      using take_add_subbytes [of 4 29 d] by simp
    moreover have "take 34 d = take 33 d @ [d ! 33]"
      using kn n take_Suc_nth [of 33 d] by simp
    moreover have "take k d = take 34 d @ subbytes 34 len d"
      using take_add_subbytes [of 34 len d] by (simp add: k)
    ultimately show ?thesis by simp
  qed
  finally show ?thesis using ok st by (intro exI [of _ f]) (simp add: f_def)
qed

lemma InspectFrame_completeE [consumes 1, case_names challenge logon reconnect realms accept resume cancel]:
  assumes "fd_status (InspectFrame st (Some d) n) = Complete"
  obtains
    "d ! 0 = cmd_code CMD_AUTH_LOGON_CHALLENGE \<or> d ! 0 = cmd_code CMD_AUTH_RECONNECT_CHALLENGE"
    "InspectFrame st (Some d) n = InspectChallenge st d n" "st = Challenge"
  | "d ! 0 = cmd_code CMD_AUTH_LOGON_PROOF" "st = LogonProof" "d ! 73 = 0" "75 \<le> n"
    "InspectFrame st (Some d) n = CompleteFrame 75"
  | "d ! 0 = cmd_code CMD_AUTH_RECONNECT_PROOF" "st = ReconnectProof" "d ! 57 = 0" "58 \<le> n"
    "InspectFrame st (Some d) n = CompleteFrame 58"
  | "d ! 0 = cmd_code CMD_REALM_LIST" "st = Authenticated" "5 \<le> n"
    "InspectFrame st (Some d) n = CompleteFrame 5"
  | "d ! 0 = cmd_code CMD_XFER_ACCEPT" "st = Patch" "1 \<le> n"
    "InspectFrame st (Some d) n = CompleteFrame 1"
  | "d ! 0 = cmd_code CMD_XFER_RESUME" "st = Patch" "9 \<le> n"
    "InspectFrame st (Some d) n = CompleteFrame 9"
  | "d ! 0 = cmd_code CMD_XFER_CANCEL" "st = Patch" "1 \<le> n"
    "InspectFrame st (Some d) n = CompleteFrame 1"
proof -
  have n: "n \<noteq> 0" using assms by (cases "n = 0") (simp_all add: guard_simps)
  define r where "r = InspectFrame st (Some d) n"
  have r: "fd_status r = Complete" using assms by (simp add: r_def)
  note F = r_def [unfolded InspectFrame_def, simplified n if_False option.case Let_def]
  show ?thesis
  proof (cases "d ! 0 = cmd_code CMD_AUTH_LOGON_CHALLENGE \<or> d ! 0 = cmd_code CMD_AUTH_RECONNECT_CHALLENGE")
    case True
    then have "InspectFrame st (Some d) n = InspectChallenge st d n"
      using n by (auto simp: InspectFrame_def)
    moreover from this have "st = Challenge"
      using assms by (auto simp: InspectChallenge_def guard_simps split: if_splits)
    ultimately show ?thesis using True that(1) by blast
  next
    case False
    then show ?thesis using F r n that(2-7) unfolding r_def
      by (auto simp: InspectProof_def InspectFixed_def guard_simps split: if_splits)
  qed
qed

lemma InspectFrame_decode:
  assumes c: "fd_status (InspectFrame st (Some d) n) = Complete" and n: "n \<le> length d"
  shows "\<exists>f. frame_ok f \<and> frame_state f = st \<and>
           encode f = take (frameSize (InspectFrame st (Some d) n)) d"
  using c
proof (cases rule: InspectFrame_completeE)
  case challenge
  then show ?thesis using InspectChallenge_decode [of st d n] c n by simp
next
  case logon
  then show ?thesis using n take_Suc_subbytes [of 74 d]
      subbytes_snoc [of 1 72 d] subbytes_snoc [of 1 73 d]
    by (intro exI [of _ "LogonProofFrame (subbytes 1 72 d) (d ! 74)"])
       (simp add: encode_def CompleteFrame_def length_subbytes)
next
  case reconnect
  then show ?thesis using n take_Suc_subbytes [of 57 d] subbytes_snoc [of 1 56 d]
    by (intro exI [of _ "ReconnectProofFrame (subbytes 1 56 d)"])
       (simp add: encode_def CompleteFrame_def length_subbytes)
next
  case realms
  then show ?thesis using n take_Suc_subbytes [of 4 d]
    by (intro exI [of _ "RealmListFrame (subbytes 1 4 d)"])
       (simp add: encode_def CompleteFrame_def length_subbytes)
next
  case accept
  then show ?thesis using n take_Suc_subbytes [of 0 d]
    by (intro exI [of _ XferAcceptFrame]) (simp add: encode_def CompleteFrame_def subbytes_def)
next
  case resume
  then show ?thesis using n take_Suc_subbytes [of 8 d]
    by (intro exI [of _ "XferResumeFrame (subbytes 1 8 d)"])
       (simp add: encode_def CompleteFrame_def length_subbytes)
next
  case cancel
  then show ?thesis using n take_Suc_subbytes [of 0 d]
    by (intro exI [of _ XferCancelFrame]) (simp add: encode_def CompleteFrame_def subbytes_def)
qed

lemma InspectFrame_encode_prefix:
  assumes "frame_ok f" and "encode f = take k d" and "k \<le> n" and "n \<le> length d"
  shows "InspectFrame (frame_state f) (Some d) n = CompleteFrame k"
proof -
  have len: "length (encode f) = k" using assms by simp
  have "InspectFrame (frame_state f) (Some d) k = InspectFrame (frame_state f) (Some (encode f)) k"
    using InspectFrame_local [of k "encode f" "frame_state f" "drop k d"] assms(2) len by simp
  also have "\<dots> = CompleteFrame k" using InspectFrame_encode [OF assms(1)] len by simp
  finally show ?thesis
    using InspectFrame_final [of k n "frame_state f" d] assms(3) by (simp add: CompleteFrame_def)
qed

text \<open>The size in an Incomplete verdict is a lower bound on what has to arrive.\<close>

lemma Inspect_incomplete_parts:
  "fd_status (InspectChallenge st d n) = Incomplete \<Longrightarrow>
     n < frameSize (InspectChallenge st d n) \<and>
     (\<forall>m. n \<le> m \<longrightarrow> m < frameSize (InspectChallenge st d n) \<longrightarrow> fd_status (InspectChallenge st d m) = Incomplete)"
  "fd_status (InspectProof e st k r d n) = Incomplete \<Longrightarrow> 
     n < frameSize (InspectProof e st k r d n) \<and>
     (\<forall>m. n \<le> m \<longrightarrow> m < frameSize (InspectProof e st k r d n) \<longrightarrow> fd_status (InspectProof e st k r d m) = Incomplete)"
  "fd_status (InspectFixed e st r n) = Incomplete \<Longrightarrow>
     n < frameSize (InspectFixed e st r n) \<and>
     (\<forall>m. n \<le> m \<longrightarrow> m < frameSize (InspectFixed e st r n) \<longrightarrow> fd_status (InspectFixed e st r m) = Incomplete)"
  by (auto simp: InspectChallenge_def Let_def InspectProof_def InspectFixed_def guard_simps split: if_splits)

lemma CanAppendPending_iff:
  "CanAppendPending pending incoming \<longleftrightarrow> unat pending + unat incoming \<le> 65539"
proof (cases "pending \<le> MaxPendingInput")
  case True
  then have "unat (MaxPendingInput - pending) = 65539 - unat pending"
    by (simp add: unat_sub MaxPendingInput_def)
  moreover from True have "unat pending \<le> 65539"
    by (simp add: word_le_nat_alt MaxPendingInput_def)
  ultimately show ?thesis
    using True by (auto simp: CanAppendPending_def word_le_nat_alt)
next
  case False
  then have "65539 < unat pending"
    by (simp add: word_le_nat_alt MaxPendingInput_def)
  with False show ?thesis by (simp add: CanAppendPending_def)
qed

section \<open>Properties\<close>

text \<open>
  C17: the inspector accepts exactly the frames of the protocol.  On the first \<open>n\<close>
  bytes behind a pointer it answers Complete with size \<open>k\<close> if and only if the first
  \<open>k\<close> of them are the wire form of a well-formed client frame that the current stream
  state admits: no other byte string is ever handed to a handler, and every such
  frame is.
\<close>
theorem InspectFrame_accepts_exactly:
  assumes "n \<le> length d"
  shows "fd_status (InspectFrame st (Some d) n) = Complete \<and>
           frameSize (InspectFrame st (Some d) n) = k
     \<longleftrightarrow> k \<le> n \<and> (\<exists>f. frame_ok f \<and> frame_state f = st \<and> encode f = take k d)"
proof
  assume "fd_status (InspectFrame st (Some d) n) = Complete \<and>
            frameSize (InspectFrame st (Some d) n) = k"
  then show "k \<le> n \<and> (\<exists>f. frame_ok f \<and> frame_state f = st \<and> encode f = take k d)"
    using InspectFrame_decode [of st d n] InspectFrame_complete_size [of st "Some d" n] assms by blast
next
  assume "k \<le> n \<and> (\<exists>f. frame_ok f \<and> frame_state f = st \<and> encode f = take k d)"
  then show "fd_status (InspectFrame st (Some d) n) = Complete \<and>
            frameSize (InspectFrame st (Some d) n) = k"
    using InspectFrame_encode_prefix assms by (auto simp: CompleteFrame_def)
qed

theorem InspectFrame_accepts_exactly_witness:
  "fd_status (InspectFrame Patch (Some [0x33, 1, 2, 3, 4, 5, 6, 7, 8, 0x34]) 10) = Complete \<and>
   frameSize (InspectFrame Patch (Some [0x33, 1, 2, 3, 4, 5, 6, 7, 8, 0x34]) 10) = 9"
proof -
  let ?d = "[0x33, 1, 2, 3, 4, 5, 6, 7, 8, 0x34] :: bytes"
  have n: "10 \<le> length ?d" by simp
  have "encode (XferResumeFrame [1, 2, 3, 4, 5, 6, 7, 8]) = take 9 ?d"
    by (simp add: encode_def)
  then have "\<exists>f. frame_ok f \<and> frame_state f = Patch \<and> encode f = take 9 ?d"
    by (intro exI [of _ "XferResumeFrame [1, 2, 3, 4, 5, 6, 7, 8]"]) simp
  then show ?thesis
    using InspectFrame_accepts_exactly [OF n, of Patch 9] by simp
qed

text \<open>
  An Incomplete verdict is a promise.  When some but not enough bytes are there,
  the size it carries is larger than what was inspected, and until that many bytes
  have arrived the verdict stays Incomplete: the stream is neither rejected early nor
  handed over early.
\<close>
lemma InspectFrame_incomplete_hint:
  assumes "0 < n" and "fd_status (InspectFrame st (Some d) n) = Incomplete"
  shows "n < frameSize (InspectFrame st (Some d) n) \<and>
     (\<forall>m. n \<le> m \<longrightarrow> m < frameSize (InspectFrame st (Some d) n) \<longrightarrow>
        fd_status (InspectFrame st (Some d) m) = Incomplete)"
proof -
  have m0: "m \<noteq> 0" if "n \<le> m" for m using that assms(1) by simp
  show ?thesis using assms m0 Inspect_incomplete_parts
    by (auto simp: InspectFrame_def Let_def RejectWith_def split: if_splits)
qed

text \<open>
  A verdict depends only on the bytes inside the inspected range, and a final one
  (Complete or Reject) never changes when more bytes arrive behind it.
\<close>
lemma InspectFrame_stable:
  assumes "n \<le> length xs" and "fd_status (InspectFrame st (Some xs) n) \<noteq> Incomplete"
    and "n \<le> m"
  shows "InspectFrame st (Some (xs @ ys)) m = InspectFrame st (Some xs) n"
proof -
  have "InspectFrame st (Some (xs @ ys)) n = InspectFrame st (Some xs) n"
    using assms(1) by (rule guard.inspect_local)
  with guard.inspect_final [OF assms(3), of st "xs @ ys"] assms(2) show ?thesis by simp
qed

text \<open>
  The pending-input test is exact at 64 bits.  Although both operands are unsigned
  machine words, the test never wraps around: it holds if and only if the two sizes,
  as numbers, add up to at most 65539 bytes (a header and the largest body).
\<close>
lemma CanAppendPending_exact:
  "CanAppendPending pending incoming \<longleftrightarrow> unat pending + unat incoming \<le> 65539"
  by (rule CanAppendPending_iff)

end
