(* ===== verification/Decimal_Text.thy ===== *)
theory Decimal_Text
  imports Prelude
begin

text \<open>
  What the source uses of the C++ library on text: white-space separated tokens of a
  string stream, decimal numerals (\<open>std::to_string\<close>, \<open>%u\<close>), and \<open>strtoul\<close>.
\<close>

section \<open>Tokens of an input stream\<close>

definition isspace :: "char \<Rightarrow> bool" where
  "isspace c = ((of_char c :: nat) \<in> {9, 10, 11, 12, 13, 32})"

lemma length_dropWhile_less: "length (dropWhile P xs) < Suc (length xs)"
  by (simp add: le_imp_less_Suc length_dropWhile_le)

function tokens :: "string \<Rightarrow> string list" where
  "tokens s =
     (let t = dropWhile isspace s in
      if t = [] then []
      else takeWhile (\<lambda>c. \<not> isspace c) t # tokens (dropWhile (\<lambda>c. \<not> isspace c) t))"
  by pat_completeness auto
termination
proof (relation "measure length", simp)
  fix s t assume t: "t = dropWhile isspace s" and ne: "t \<noteq> []"
  have "\<not> isspace (hd t)" using t ne hd_dropWhile by blast
  then have "length (dropWhile (\<lambda>c. \<not> isspace c) t) < length t"
    using ne by (cases t) (simp_all add: length_dropWhile_less)
  also have "\<dots> \<le> length s" by (simp add: t length_dropWhile_le)
  finally show "(dropWhile (\<lambda>c. \<not> isspace c) t, s) \<in> measure length" by simp
qed

declare tokens.simps [simp del]

section \<open>Decimal numerals\<close>

definition isdigit :: "char \<Rightarrow> bool" where
  "isdigit c = ((48 :: nat) \<le> of_char c \<and> (of_char c :: nat) \<le> 57)"

definition digit_value :: "char \<Rightarrow> nat" where
  "digit_value c = of_char c - 48"

definition decimal :: "string \<Rightarrow> nat" where
  "decimal ds = foldl (\<lambda>acc c. 10 * acc + digit_value c) 0 ds"

text \<open>\<open>std::to_string\<close> of an unsigned number.\<close>

definition digit_char :: "nat \<Rightarrow> char" where
  "digit_char d = char_of (48 + d)"

fun to_decimal :: "nat \<Rightarrow> string" where
  "to_decimal n =
     (if n < 10 then [digit_char n] else to_decimal (n div 10) @ [digit_char (n mod 10)])"

declare to_decimal.simps [simp del]

text \<open>
  \<open>strtoul(s, NULL, 10)\<close>: leading white space, an optional sign, then digits; no digits
  give 0, a value beyond \<open>ULONG_MAX\<close> gives \<open>ULONG_MAX\<close>, and a minus sign negates the
  result modulo \<open>2 ^ 64\<close>.
\<close>

definition strtoul_digits :: "string \<Rightarrow> uint64" where
  "strtoul_digits s = word_of_nat (min (decimal (takeWhile isdigit s)) (2 ^ 64 - 1))"

definition strtoul :: "string \<Rightarrow> uint64" where
  "strtoul s =
     (case dropWhile isspace s of
        [] \<Rightarrow> 0
      | c # rest \<Rightarrow>
          if c = CHR ''-'' then
            (if decimal (takeWhile isdigit rest) < 2 ^ 64 then - strtoul_digits rest
             else strtoul_digits rest)
          else if c = CHR ''+'' then strtoul_digits rest
          else strtoul_digits (c # rest))"

section \<open>Lemmas\<close>

lemma digit_char_props [simp]:
  assumes "d < 10"
  shows "isdigit (digit_char d)" and "digit_value (digit_char d) = d"
    and "\<not> isspace (digit_char d)"
  using assms by (simp_all add: digit_char_def isdigit_def digit_value_def isspace_def of_char_of)

lemma isdigit_not_isspace: "isdigit c \<Longrightarrow> \<not> isspace c"
  by (auto simp: isdigit_def isspace_def)

lemma decimal_snoc: "decimal (ds @ [c]) = 10 * decimal ds + digit_value c"
  by (simp add: decimal_def)

lemma to_decimal_digits: "\<forall>c \<in> set (to_decimal n). isdigit c"
proof (induction n rule: to_decimal.induct)
  case (1 n)
  then show ?case by (subst to_decimal.simps) auto
qed

lemma to_decimal_nonempty [simp]: "to_decimal n \<noteq> []"
  by (subst to_decimal.simps) simp

lemma decimal_to_decimal [simp]: "decimal (to_decimal n) = n"
proof (induction n rule: to_decimal.induct)
  case (1 n)
  show ?case
  proof (cases "n < 10")
    case True
    then show ?thesis by (subst to_decimal.simps) (simp add: decimal_def)
  next
    case False
    with 1 show ?thesis by (subst to_decimal.simps) (simp add: decimal_snoc)
  qed
qed

lemma takeWhile_digits [simp]: "takeWhile isdigit (to_decimal n) = to_decimal n"
  using to_decimal_digits by (simp add: takeWhile_eq_all_conv)

lemma tokens_Nil [simp]: "tokens [] = []"
  by (subst tokens.simps) simp

lemma tokens_space [simp]: "isspace c \<Longrightarrow> tokens (c # s) = tokens s"
  by (simp add: tokens.simps [of "c # s"] tokens.simps [of s])

lemma tokens_word:
  assumes "w \<noteq> []" and "\<forall>c \<in> set w. \<not> isspace c" and "s = [] \<or> isspace (hd s)"
  shows "tokens (w @ s) = w # tokens s"
proof -
  from assms obtain x w' where w: "w = x # w'" "\<not> isspace x" by (cases w) auto
  then have drop: "dropWhile isspace (w @ s) = w @ s" by simp
  have "takeWhile (\<lambda>c. \<not> isspace c) (w @ s) = w" and
    "dropWhile (\<lambda>c. \<not> isspace c) (w @ s) = s"
    using assms(2,3) by (cases s; simp)+
  with drop w show ?thesis by (subst tokens.simps) (simp add: Let_def)
qed

lemma length_to_decimal: "n < 10 ^ Suc k \<Longrightarrow> length (to_decimal n) \<le> Suc k"
proof (induction k arbitrary: n)
  case 0
  then show ?case by (simp add: to_decimal.simps)
next
  case (Suc k)
  then have "n div 10 < 10 ^ Suc k" by (simp add: div_less_iff_less_mult)
  with Suc.IH [of "n div 10"] show ?case by (simp add: to_decimal.simps [of n])
qed

end
