(* ===== verification/PatchPolicy.thy ===== *)
theory PatchPolicy
  imports Decimal_Text
begin

text \<open>
  \<open>src/Auth/PatchPolicy.{h,cpp}\<close>: which client builds are offered a patch.  The
  configuration string is split the way \<open>operator>>\<close> of a string stream splits it
  (runs of the six white-space characters of the classic locale), and a token is
  read the way \<open>std::from_chars\<close> reads an unsigned 32-bit number in base ten.
\<close>

section \<open>Data\<close>

record PatchPolicy =
  m_enabled :: bool
  m_forcedBuilds :: "uint16 set"

definition default_PatchPolicy :: PatchPolicy where
  "default_PatchPolicy = \<lparr>m_enabled = True, m_forcedBuilds = {}\<rparr>"

section \<open>std::from\_chars\<close>

datatype errc = ErrcOk | InvalidArgument | ResultOutOfRange

text \<open>
  The result of \<open>from_chars(first, last, value)\<close>: the error code, how many characters
  were matched, and the value left in \<open>value\<close> (unchanged, here 0, on an error).
\<close>

definition from_chars_uint32 :: "string \<Rightarrow> errc \<times> nat \<times> uint32" where
  "from_chars_uint32 s =
     (let ds = takeWhile isdigit s in
      if ds = [] then (InvalidArgument, 0, 0)
      else if decimal ds < 2 ^ 32 then (ErrcOk, length ds, word_of_nat (decimal ds))
      else (ResultOutOfRange, length ds, 0))"

section \<open>The policy\<close>

fun parse_tokens :: "PatchPolicy \<Rightarrow> string list \<Rightarrow> PatchPolicy option" where
  "parse_tokens policy [] = Some policy"
| "parse_tokens policy (token # rest) =
     (let (ec, ptr, b) = from_chars_uint32 token in
      if ec \<noteq> ErrcOk \<or> ptr \<noteq> length token \<or> b = 0 \<or> b > 65535 then None
      else parse_tokens
             (policy\<lparr>m_forcedBuilds := insert (ucast b) (m_forcedBuilds policy)\<rparr>) rest)"

definition Parse :: "bool \<Rightarrow> string \<Rightarrow> PatchPolicy option" where
  "Parse enabled forcedBuilds =
     parse_tokens (default_PatchPolicy\<lparr>m_enabled := enabled\<rparr>) (tokens forcedBuilds)"

definition ShouldPatch :: "PatchPolicy \<Rightarrow> uint16 \<Rightarrow> bool \<Rightarrow> bool" where
  "ShouldPatch policy b supported =
     (m_enabled policy \<and> (\<not> supported \<or> b \<in> m_forcedBuilds policy))"

section \<open>Lemmas\<close>

text \<open>A token the parser accepts, and the build it stands for.\<close>

definition valid_build_token :: "string \<Rightarrow> bool" where
  "valid_build_token t =
     (t \<noteq> [] \<and> list_all isdigit t \<and> 0 < decimal t \<and> decimal t < 65536)"

lemma takeWhile_full_iff: "length (takeWhile P xs) = length xs \<longleftrightarrow> list_all P xs"
  by (metis list_all_iff set_takeWhileD takeWhile_eq_all_conv takeWhile_eq_take take_all_iff order_refl)

lemma from_chars_accepts_iff:
  "(case from_chars_uint32 t of (ec, ptr, b) \<Rightarrow>
      \<not> (ec \<noteq> ErrcOk \<or> ptr \<noteq> length t \<or> b = 0 \<or> b > 65535)) \<longleftrightarrow> valid_build_token t"
proof (cases "list_all isdigit t \<and> t \<noteq> [] \<and> decimal t < 2 ^ 32")
  case True
  then have ds: "takeWhile isdigit t = t" by (simp add: list_all_iff takeWhile_eq_all_conv)
  have "unat (word_of_nat (decimal t) :: uint32) = decimal t"
    using True by (simp add: unat_of_nat)
  then show ?thesis
    using True unfolding from_chars_uint32_def ds
    by (auto simp: Let_def valid_build_token_def word_less_nat_alt word_unat_eq_iff)
next
  case False
  moreover have "decimal (takeWhile isdigit t) = decimal t" if "list_all isdigit t"
    using that by (simp add: list_all_iff takeWhile_eq_all_conv [THEN iffD2])
  ultimately show ?thesis
    by (auto simp: from_chars_uint32_def Let_def valid_build_token_def takeWhile_full_iff
        split: if_splits)
qed

lemma from_chars_value:
  "valid_build_token t \<Longrightarrow> from_chars_uint32 t = (ErrcOk, length t, word_of_nat (decimal t))"
  by (simp add: from_chars_uint32_def Let_def valid_build_token_def list_all_iff
      takeWhile_eq_all_conv [THEN iffD2])

definition token_build :: "string \<Rightarrow> uint16" where
  "token_build t = word_of_nat (decimal t)"

lemma parse_tokens_step:
  "parse_tokens policy (t # ts) =
     (if valid_build_token t
      then parse_tokens
             (policy\<lparr>m_forcedBuilds := insert (token_build t) (m_forcedBuilds policy)\<rparr>) ts
      else None)"
proof (cases "valid_build_token t")
  case True
  have "ucast (word_of_nat (decimal t) :: uint32) = token_build t"
    using True
    by (simp add: token_build_def valid_build_token_def word_unat_eq_iff unsigned_ucast_eq
        unat_of_nat take_bit_eq_mod)
  with True show ?thesis
    using from_chars_accepts_iff [of t] by (simp add: from_chars_value)
next
  case False
  then show ?thesis
    using from_chars_accepts_iff [of t] by (auto simp: Let_def split: prod.splits)
qed

lemma parse_tokens_eq:
  "parse_tokens policy ts =
     (if list_all valid_build_token ts
      then Some (policy\<lparr>m_forcedBuilds := token_build ` set ts \<union> m_forcedBuilds policy\<rparr>)
      else None)"
  by (induction ts arbitrary: policy) (simp_all only: parse_tokens.simps(1) parse_tokens_step, auto)

text \<open>The configuration line an administrator writes: numbers separated by single blanks.\<close>

fun unwords :: "string list \<Rightarrow> string" where
  "unwords [] = []"
| "unwords [w] = w"
| "unwords (w # v # ws) = w @ CHR '' '' # unwords (v # ws)"

lemma tokens_unwords:
  assumes "\<forall>w \<in> set ws. w \<noteq> [] \<and> (\<forall>c \<in> set w. \<not> isspace c)"
  shows "tokens (unwords ws) = ws"
  using assms
proof (induction ws rule: unwords.induct)
  case (2 w)
  then show ?case using tokens_word [of w "[]"] by simp
next
  case (3 w v ws)
  have sp: "isspace (CHR '' '')" by (simp add: isspace_def)
  then have "tokens (w @ CHR '' '' # unwords (v # ws)) = w # tokens (CHR '' '' # unwords (v # ws))"
    using 3 by (intro tokens_word) auto
  also have "\<dots> = w # tokens (unwords (v # ws))" by (simp only: tokens_space [OF sp])
  finally show ?case using 3 by simp
qed simp

section \<open>Properties\<close>

text \<open>
  C35: a \<open>Patch.ForceBuilds\<close> string is accepted exactly when each of its white-space
  separated tokens is a decimal numeral between 1 and 65535, without sign and without
  trailing characters; the policy then forces exactly the builds the tokens name and
  keeps the enable flag.  One bad token refuses the whole configuration.
\<close>
theorem Parse_accepts_exactly:
  "Parse enabled s =
     (if list_all valid_build_token (tokens s)
      then Some \<lparr>m_enabled = enabled, m_forcedBuilds = token_build ` set (tokens s)\<rparr>
      else None)"
  by (simp add: Parse_def parse_tokens_eq default_PatchPolicy_def)

text \<open>
  C36: printing and parsing agree.  For every list of non-zero 16-bit builds, the
  configuration line that lists them in decimal parses to the policy that forces
  exactly these builds.
\<close>
theorem Parse_roundtrip:
  assumes "0 \<notin> set bs"
  shows "Parse enabled (unwords (map (\<lambda>b. to_decimal (unat b)) bs)) =
           Some \<lparr>m_enabled = enabled, m_forcedBuilds = set bs\<rparr>"
proof -
  let ?ws = "map (\<lambda>b. to_decimal (unat b)) bs"
  have toks: "tokens (unwords ?ws) = ?ws"
    using to_decimal_digits isdigit_not_isspace by (intro tokens_unwords) auto
  have "valid_build_token (to_decimal (unat b))" if "b \<in> set bs" for b
  proof -
    have "b \<noteq> 0" using that assms by auto
    then show ?thesis
      using to_decimal_digits [of "unat b"] unsigned_less [of b, where 'a = nat]
      by (auto simp: valid_build_token_def list_all_iff unat_gt_0)
  qed
  then have "list_all valid_build_token ?ws" by (simp add: list_all_iff)
  moreover have "token_build ` set ?ws = set bs"
    by (simp add: image_image token_build_def)
  ultimately show ?thesis
    by (simp add: Parse_def parse_tokens_eq default_PatchPolicy_def toks)
qed

theorem Parse_roundtrip_witness:
  "Parse True (unwords (map (\<lambda>b :: uint16. to_decimal (unat b)) [5875, 12340])) =
     Some \<lparr>m_enabled = True, m_forcedBuilds = {5875, 12340}\<rparr>"
  using Parse_roundtrip [of "[5875, 12340]" True] by simp

end
