(* ===== verification/PatchArtifact.thy ===== *)
theory PatchArtifact
  imports Prelude
begin

text \<open>
  \<open>src/Auth/PatchArtifact.{h,cpp}\<close>: the open archive that is advertised and later
  streamed.  Of the C++ library the code uses \<open>is_regular_file\<close> and an input file
  stream; the model has the stream's content, position, state bits and \<open>gcount\<close>.  A
  file may carry a position at which the device fails (\<open>f_fault\<close>), and may refuse
  to seek.  MD5 is not part of the repository and is the parameter \<open>md5\<close>, a function
  of the sequence of chunks given to \<open>UpdateData\<close>.
\<close>

section \<open>Files and input streams\<close>

record disk_file =
  f_regular :: bool
  f_stat_error :: bool
  f_openable :: bool
  f_seekable :: bool
  f_content :: bytes
  f_fault :: "nat option"

type_synonym filesystem = "string \<Rightarrow> disk_file option"

record ifstream =
  s_content :: bytes
  s_fault :: "nat option"
  s_seekable :: bool
  s_pos :: nat
  eofbit :: bool
  failbit :: bool
  badbit :: bool
  gcount :: nat

definition good :: "ifstream \<Rightarrow> bool" where
  "good s = (\<not> eofbit s \<and> \<not> failbit s \<and> \<not> badbit s)"

text \<open>The conversion of a stream to \<open>bool\<close>.\<close>

definition stream_ok :: "ifstream \<Rightarrow> bool" where
  "stream_ok s = (\<not> failbit s \<and> \<not> badbit s)"

definition open_ate :: "disk_file \<Rightarrow> ifstream" where
  "open_ate f = \<lparr>s_content = f_content f, s_fault = f_fault f, s_seekable = f_seekable f,
     s_pos = length (f_content f), eofbit = False, failbit = False, badbit = False, gcount = 0\<rparr>"

definition clear_state :: "ifstream \<Rightarrow> ifstream" where
  "clear_state s = s\<lparr>eofbit := False, failbit := False, badbit := False\<rparr>"

definition seekg :: "nat \<Rightarrow> ifstream \<Rightarrow> ifstream" where
  "seekg off s =
     (let t = s\<lparr>eofbit := False\<rparr> in
      if \<not> stream_ok t then t
      else if s_seekable t then t\<lparr>s_pos := off\<rparr>
      else t\<lparr>failbit := True\<rparr>)"

text \<open>Whether reading \<open>n\<close> bytes at the position runs into the device fault.\<close>

definition hits_fault :: "ifstream \<Rightarrow> nat \<Rightarrow> bool" where
  "hits_fault s n =
     (case s_fault s of None \<Rightarrow> False
      | Some p \<Rightarrow> p < length (s_content s) \<and> s_pos s \<le> p \<and> p < s_pos s + n)"

definition stream_read :: "ifstream \<Rightarrow> nat \<Rightarrow> ifstream \<times> bytes" where
  "stream_read s n =
     (if \<not> good s then (s\<lparr>failbit := True, gcount := 0\<rparr>, [])
      else if hits_fault s n then (s\<lparr>badbit := True, gcount := 0\<rparr>, [])
      else
        let got = take n (drop (s_pos s) (s_content s)); short = length got < n in
        (s\<lparr>s_pos := s_pos s + length got, gcount := length got,
           eofbit := short, failbit := short\<rparr>, got))"

section \<open>The artifact\<close>

record PatchArtifact =
  m_stream :: ifstream
  m_size :: uint64
  m_digest :: bytes

definition DigestChunkSize :: nat where
  "DigestChunkSize = 4096"

text \<open>The read loop of \<open>Open\<close>: \<open>while (stream) { read; if (read > 0) md5.UpdateData(...); }\<close>\<close>

definition bytes_left :: "ifstream \<Rightarrow> nat" where
  "bytes_left s = (if stream_ok s then Suc (length (s_content s) - s_pos s) else 0)"

lemma stream_read_left:
  assumes "stream_ok s" and "0 < n" and "stream_read s n = (s', got)"
  shows "bytes_left s' < bytes_left s"
  using assms
  by (auto simp: stream_read_def bytes_left_def stream_ok_def good_def Let_def split: if_splits)

function digest_loop :: "ifstream \<Rightarrow> bytes list \<Rightarrow> ifstream \<times> bytes list" where
  "digest_loop s cs =
     (if stream_ok s then
        (let (s', got) = stream_read s DigestChunkSize in
         digest_loop s' (if 0 < gcount s' then cs @ [got] else cs))
      else (s, cs))"
  by pat_completeness auto
termination
proof (relation "measure (\<lambda>(s, cs). bytes_left s)", simp)
  fix s cs x s' got
  assume "stream_ok s" and "x = stream_read s DigestChunkSize" and "(s', got) = x"
  then show "((s', if 0 < gcount s' then cs @ [got] else cs), s, cs) \<in> measure (\<lambda>(s, cs). bytes_left s)"
    using stream_read_left [of s DigestChunkSize s' got] by (simp add: DigestChunkSize_def)
qed

declare digest_loop.simps [simp del]

definition Open :: "(bytes list \<Rightarrow> bytes) \<Rightarrow> filesystem \<Rightarrow> string \<Rightarrow> PatchArtifact option" where
  "Open md5 fs path =
     (case fs path of
        None \<Rightarrow> None
      | Some f \<Rightarrow>
          if \<not> f_regular f \<or> f_stat_error f then None
          else if \<not> f_openable f then None
          else
            let stream = open_ate f; len = s_pos stream in
            if len = 0 then None
            else
              let stream = seekg 0 stream in
              if \<not> good stream then None
              else
                let (stream, cs) = digest_loop stream [] in
                if badbit stream then None
                else
                  let digest = take 16 (md5 cs);
                      stream = seekg 0 (clear_state stream) in
                  if \<not> good stream then None
                  else Some \<lparr>m_stream = stream, m_size = word_of_nat len, m_digest = digest\<rparr>)"

definition Seek :: "PatchArtifact \<Rightarrow> uint64 \<Rightarrow> bool \<times> PatchArtifact" where
  "Seek a offset =
     (if offset > m_size a \<or> offset > 0x7FFFFFFFFFFFFFFF then (False, a)
      else
        let s = seekg (unat offset) (clear_state (m_stream a)) in
        (good s, a\<lparr>m_stream := s\<rparr>))"

text \<open>The destination is a buffer of the caller; a null destination is \<open>False\<close>.\<close>

definition Read :: "PatchArtifact \<Rightarrow> bool \<Rightarrow> nat \<Rightarrow> PatchArtifact \<times> bytes" where
  "Read a destination capacity =
     (if \<not> destination \<or> capacity = 0 then (a, [])
      else
        let bounded = min capacity (2 ^ 63 - 1);
            (s, got) = stream_read (m_stream a) bounded
        in (a\<lparr>m_stream := s\<rparr>, got))"

definition bad :: "PatchArtifact \<Rightarrow> bool" where
  "bad a = badbit (m_stream a)"

section \<open>What a read returns\<close>

text \<open>
  The bytes the stream has still to deliver, as long as no fault is met: none once it
  has failed, else the content behind the position.
\<close>

definition rest :: "ifstream \<Rightarrow> bytes" where
  "rest s = (if good s then drop (s_pos s) (s_content s) else [])"

definition healthy :: "ifstream \<Rightarrow> bool" where
  "healthy s = (\<not> badbit s \<and>
     (case s_fault s of None \<Rightarrow> True | Some p \<Rightarrow> length (s_content s) \<le> p \<or> p < s_pos s))"

lemma healthy_no_fault: "healthy s \<Longrightarrow> \<not> hits_fault s n"
  by (auto simp: healthy_def hits_fault_def split: option.splits)

lemma stream_read_healthy:
  assumes "healthy s" and "0 < n" and "stream_read s n = (s', got)"
  shows "got = take n (rest s) \<and> rest s' = drop n (rest s) \<and> healthy s'"
  using assms healthy_no_fault [OF assms(1), of n]
  by (auto simp: stream_read_def rest_def healthy_def good_def Let_def add.commute
      split: if_splits option.splits)

lemma stream_read_gcount: "stream_read s n = (s', got) \<Longrightarrow> gcount s' = length got"
  by (auto simp: stream_read_def Let_def split: if_splits)

lemma stream_read_keeps:
  "stream_read s n = (s', got) \<Longrightarrow>
   s_content s' = s_content s \<and> s_fault s' = s_fault s \<and> s_seekable s' = s_seekable s"
  by (auto simp: stream_read_def Let_def split: if_splits)

lemma stream_read_progress:
  "0 < n \<Longrightarrow> stream_read s n = (s', got) \<Longrightarrow> got \<noteq> [] \<Longrightarrow> bytes_left s' < bytes_left s"
  by (rule stream_read_left) (auto simp: stream_read_def good_def stream_ok_def split: if_splits)

text \<open>The digest loop reads everything that is left, in pieces of the buffer's size.\<close>

lemma digest_loop_healthy:
  assumes "healthy s" and "eofbit s \<longrightarrow> failbit s"
  shows "snd (digest_loop s cs) = cs @ chunks DigestChunkSize (rest s) \<and>
         healthy (fst (digest_loop s cs)) \<and> failbit (fst (digest_loop s cs))"
  using assms
proof (induction s cs rule: digest_loop.induct)
  case (1 s cs)
  show ?case
  proof (cases "stream_ok s")
    case False
    with "1.prems" show ?thesis
      by (simp add: digest_loop.simps [of s] rest_def stream_ok_def good_def healthy_def)
  next
    case True
    obtain s' got where rd: "stream_read s DigestChunkSize = (s', got)" by fastforce
    have n: "0 < DigestChunkSize" by (simp add: DigestChunkSize_def)
    note h = stream_read_healthy [OF "1.prems"(1) n rd]
    have e: "eofbit s' \<longrightarrow> failbit s'"
      using rd True "1.prems" by (auto simp: stream_read_def Let_def split: if_splits)
    have cs: "(if 0 < gcount s' then cs @ [got] else cs) @ chunks DigestChunkSize (rest s') =
              cs @ chunks DigestChunkSize (rest s)"
      using h n stream_read_gcount [OF rd]
      by (cases "rest s = []") (auto simp: chunks_step)
    have step: "digest_loop s cs = digest_loop s' (if 0 < gcount s' then cs @ [got] else cs)"
      using rd True by (simp add: digest_loop.simps [of s])
    from h have "healthy s'" by simp
    from "1.IH" [OF True rd [symmetric] refl this e] show ?thesis
      by (simp only: step cs)
  qed
qed

lemma digest_loop_keeps:
  "s_content (fst (digest_loop s cs)) = s_content s \<and> s_fault (fst (digest_loop s cs)) = s_fault s \<and>
   s_seekable (fst (digest_loop s cs)) = s_seekable s"
proof (induction s cs rule: digest_loop.induct)
  case (1 s cs)
  obtain s' got where rd: "stream_read s DigestChunkSize = (s', got)" by fastforce
  with 1 stream_read_keeps [OF rd] show ?case
    by (cases "stream_ok s") (simp_all add: digest_loop.simps [of s])
qed

text \<open>A device fault ahead of the position is met, and leaves the stream bad.\<close>

lemma digest_loop_fault:
  assumes "good s" and "s_fault s = Some p" and "p < length (s_content s)" and "s_pos s \<le> p"
  shows "badbit (fst (digest_loop s cs))"
  using assms
proof (induction s cs rule: digest_loop.induct)
  case (1 s cs)
  obtain s' got where rd: "stream_read s DigestChunkSize = (s', got)" by fastforce
  have ok: "stream_ok s" using "1.prems" by (simp add: good_def stream_ok_def)
  show ?case
  proof (cases "hits_fault s DigestChunkSize")
    case True
    with rd "1.prems" have "badbit s'" by (auto simp: stream_read_def)
    with ok rd show ?thesis
      by (simp add: digest_loop.simps [of s] digest_loop.simps [of s'] stream_ok_def)
  next
    case False
    with "1.prems" have far: "s_pos s + DigestChunkSize \<le> p" by (simp add: hits_fault_def)
    with rd "1.prems" False have "good s'" "s_pos s' = s_pos s + DigestChunkSize"
      by (auto simp: stream_read_def good_def Let_def split: if_splits)
    with "1.IH" [OF ok rd [symmetric]] "1.prems" far stream_read_keeps [OF rd] ok rd
    show ?thesis by (simp add: digest_loop.simps [of s])
  qed
qed

text \<open>A file whose content can be read to the end.\<close>

definition sound_file :: "disk_file \<Rightarrow> bool" where
  "sound_file f = (f_regular f \<and> \<not> f_stat_error f \<and> f_openable f \<and> f_seekable f \<and> f_content f \<noteq> [] \<and>
     (case f_fault f of None \<Rightarrow> True | Some p \<Rightarrow> length (f_content f) \<le> p))"

lemma Open_sound:
  assumes "fs path = Some f" and "sound_file f"
  obtains a where "Open md5 fs path = Some a"
    and "m_size a = word_of_nat (length (f_content f))"
    and "m_digest a = take 16 (md5 (chunks DigestChunkSize (f_content f)))"
    and "good (m_stream a)" and "healthy (m_stream a)" and "rest (m_stream a) = f_content f"
    and "s_content (m_stream a) = f_content f" and "s_seekable (m_stream a)"
proof -
  define s0 where "s0 = seekg 0 (open_ate f)"
  have s0: "good s0" "healthy s0" "rest s0 = f_content f" "s_content s0 = f_content f"
    "s_seekable s0" "s_fault s0 = f_fault f" "eofbit s0 \<longrightarrow> failbit s0"
    using assms(2) by (auto simp: s0_def seekg_def open_ate_def stream_ok_def good_def healthy_def
        rest_def sound_file_def Let_def split: option.splits)
  obtain s1 cs where dl: "digest_loop s0 [] = (s1, cs)" by fastforce
  have cs: "cs = chunks DigestChunkSize (f_content f)" and h1: "healthy s1"
    using digest_loop_healthy [OF s0(2,7), of "[]"] dl s0(3) by auto
  have k: "s_content s1 = f_content f" "s_fault s1 = f_fault f" "s_seekable s1"
    using digest_loop_keeps [of s0 "[]"] dl s0 by auto
  define s2 where "s2 = seekg 0 (clear_state s1)"
  have s2: "good s2" "healthy s2" "rest s2 = f_content f" "s_content s2 = f_content f" "s_seekable s2"
    using k assms(2) by (auto simp: s2_def seekg_def clear_state_def stream_ok_def good_def healthy_def
        rest_def sound_file_def Let_def split: option.splits)
  have "Open md5 fs path = Some \<lparr>m_stream = s2, m_size = word_of_nat (length (f_content f)),
          m_digest = take 16 (md5 cs)\<rparr>"
    using assms s0(1) dl h1 s2(1)
    by (simp add: Open_def sound_file_def s0_def [symmetric] s2_def [symmetric] Let_def healthy_def)
       (simp add: open_ate_def)
  then show ?thesis using that s2 cs by simp
qed

lemma Open_unsound:
  assumes "Open md5 fs path = Some a"
  obtains f where "fs path = Some f" and "sound_file f"
proof -
  from assms obtain f where f: "fs path = Some f" by (auto simp: Open_def split: option.splits)
  have basic: "f_regular f" "\<not> f_stat_error f" "f_openable f" "f_content f \<noteq> []"
    using assms f by (auto simp: Open_def Let_def open_ate_def split: if_splits)
  define s0 where "s0 = seekg 0 (open_ate f)"
  have g: "good s0" and nb: "\<not> badbit (fst (digest_loop s0 []))"
    using assms f basic by (auto simp: Open_def Let_def s0_def split: if_splits prod.splits)
  then have seek: "f_seekable f"
    by (cases "f_seekable f") (auto simp: s0_def seekg_def open_ate_def stream_ok_def good_def Let_def)
  have "length (f_content f) \<le> p" if "f_fault f = Some p" for p
    using digest_loop_fault [OF g, of p "[]"] nb that seek
    by (cases "p < length (f_content f)")
       (auto simp: s0_def seekg_def open_ate_def stream_ok_def Let_def)
  then have "sound_file f" using basic seek by (auto simp: sound_file_def split: option.split)
  with f that show ?thesis by blast
qed

lemma Open_fault:
  assumes "fs path = Some f" and "Open md5 fs path = Some a"
  shows "s_fault (m_stream a) = f_fault f"
  using assms digest_loop_keeps [of "seekg 0 (open_ate f)" "[]"]
  by (auto simp: Open_def Let_def seekg_def clear_state_def open_ate_def split: if_splits prod.splits)

lemma Open_result:
  assumes "fs path = Some f" and "Open md5 fs path = Some a"
  shows "sound_file f" and "m_size a = word_of_nat (length (f_content f))"
    and "m_digest a = take 16 (md5 (chunks DigestChunkSize (f_content f)))"
    and "good (m_stream a)" and "healthy (m_stream a)" and "rest (m_stream a) = f_content f"
    and "s_content (m_stream a) = f_content f" and "s_seekable (m_stream a)"
proof -
  show sf: "sound_file f" using assms by (auto elim: Open_unsound)
  from Open_sound [of fs path f md5, OF assms(1) sf]
  show "m_size a = word_of_nat (length (f_content f))"
    "m_digest a = take 16 (md5 (chunks DigestChunkSize (f_content f)))"
    "good (m_stream a)" "healthy (m_stream a)" "rest (m_stream a) = f_content f"
    "s_content (m_stream a) = f_content f" "s_seekable (m_stream a)"
    using assms(2) by (metis option.inject)+
qed

lemma Seek_ok:
  assumes "healthy (m_stream a)" and "s_seekable (m_stream a)" and "s_fault (m_stream a) = None"
    and "offset \<le> m_size a" and "m_size a \<le> 0x7FFFFFFFFFFFFFFF"
  obtains a' where "Seek a offset = (True, a')" and "good (m_stream a')" and "healthy (m_stream a')"
    and "rest (m_stream a') = drop (unat offset) (s_content (m_stream a))"
    and "m_size a' = m_size a" and "s_content (m_stream a') = s_content (m_stream a)"
proof -
  define s where "s = seekg (unat offset) (clear_state (m_stream a))"
  have "offset \<le> 0x7FFFFFFFFFFFFFFF" using assms(4,5) by (rule order_trans)
  then have "Seek a offset = (True, a\<lparr>m_stream := s\<rparr>)"
    using assms by (auto simp: Seek_def s_def seekg_def clear_state_def stream_ok_def good_def Let_def)
  then show ?thesis using that [of "a\<lparr>m_stream := s\<rparr>"] assms
    by (simp add: s_def seekg_def clear_state_def stream_ok_def good_def healthy_def rest_def Let_def)
qed

lemma Seek_reject: "offset > m_size a \<Longrightarrow> Seek a offset = (False, a)"
  by (simp add: Seek_def)

section \<open>Properties\<close>

text \<open>
  C30: an archive can be opened exactly when it is a regular, readable, seekable, non-empty
  file that can be read to its end; a directory, an empty file, or one whose device fails
  while the digest is computed is refused.  The artifact then carries the file's length,
  the first sixteen bytes of the MD5 of its content (fed in 4096-byte pieces, none lost),
  and a stream that stands at the beginning and will deliver exactly that content.
\<close>
theorem Open_correct:
  "(Open md5 fs path \<noteq> None \<longleftrightarrow> (\<exists>f. fs path = Some f \<and> sound_file f)) \<and>
   (\<forall>a f. Open md5 fs path = Some a \<and> fs path = Some f \<longrightarrow>
      m_size a = word_of_nat (length (f_content f)) \<and>
      m_digest a = take 16 (md5 (chunks 4096 (f_content f))) \<and>
      good (m_stream a) \<and> healthy (m_stream a) \<and> rest (m_stream a) = f_content f)"
proof (intro conjI iffI allI impI)
  assume "Open md5 fs path \<noteq> None"
  then show "\<exists>f. fs path = Some f \<and> sound_file f" by (auto elim: Open_unsound)
next
  assume "\<exists>f. fs path = Some f \<and> sound_file f"
  then show "Open md5 fs path \<noteq> None" by (auto elim: Open_sound [of fs path _ md5])
next
  fix a f assume *: "Open md5 fs path = Some a \<and> fs path = Some f"
  note r = Open_result [OF * [THEN conjunct2] * [THEN conjunct1], unfolded DigestChunkSize_def]
  show "m_size a = word_of_nat (length (f_content f))"
    "m_digest a = take 16 (md5 (chunks 4096 (f_content f)))"
    "good (m_stream a)" "healthy (m_stream a)" "rest (m_stream a) = f_content f"
    by (fact r)+
qed

definition example_file :: "bytes \<Rightarrow> disk_file" where
  "example_file c = \<lparr>f_regular = True, f_stat_error = False, f_openable = True, f_seekable = True,
     f_content = c, f_fault = None\<rparr>"

theorem Open_correct_witness:
  "Open (\<lambda>cs. concat cs) (\<lambda>p. Some (example_file [1, 2, 3])) ''5875enUS.mpq'' \<noteq> None"
  using Open_correct [of "\<lambda>cs. concat cs" "\<lambda>p. Some (example_file [1, 2, 3])" "''5875enUS.mpq''"]
  by (simp add: sound_file_def example_file_def)

end
