(* ===== verification/PatchTransfer.thy ===== *)
theory PatchTransfer
  imports PatchArtifact AuthCodes
begin

text \<open>
  \<open>src/Auth/PatchHandler.cpp\<close>: streaming an archive to the client in \<open>CMD_XFER_DATA\<close>
  packets on a background thread.  The transport is not part of the repository: its
  flow control is the parameter \<open>flow\<close> (no flow control, or for each pass of the loop
  whether \<open>awaitWritable\<close> lets it go on), and what the thread hands to the sender and
  whether it asks for the connection to be closed is the result.
\<close>

definition kChunkSize :: nat where
  "kChunkSize = 4096"

definition kMaxOutstandingBytes :: uint64 where
  "kMaxOutstandingBytes = 256 * 1024"

text \<open>Frame: \<open>CMD_XFER_DATA\<close>, \<open>uint16\<close> size (little-endian), payload.\<close>

definition xfer_frame :: "bytes \<Rightarrow> bytes" where
  "xfer_frame got = cmd_code CMD_XFER_DATA # le_bytes 2 (length got) @ got"

lemma xfer_frame_nonempty [simp]: "xfer_frame got \<noteq> []"
  by (simp add: xfer_frame_def)

datatype xfer_end = ConnectionGone | EndOfStream

text \<open>
  The endless loop of the thread, over any reader \<open>rd\<close>; \<open>k\<close> counts the passes.  Not
  returning would be the value \<open>None\<close>.
\<close>

partial_function (option) xfer_loop ::
  "('a \<Rightarrow> 'a \<times> bytes) \<Rightarrow> (nat \<Rightarrow> bool) option \<Rightarrow> nat \<Rightarrow> 'a \<Rightarrow> bytes list \<Rightarrow>
     ('a \<times> bytes list \<times> xfer_end) option" where
  "xfer_loop rd flow k a sent =
     (if (case flow of None \<Rightarrow> False | Some awaitWritable \<Rightarrow> \<not> awaitWritable k)
      then Some (a, sent, ConnectionGone)
      else case rd a of (a', got) \<Rightarrow>
        if got = [] then Some (a', sent, EndOfStream)
        else xfer_loop rd flow (Suc k) a' (sent @ [xfer_frame got]))"

record transfer =
  t_packets :: "bytes list"
  t_end :: xfer_end
  t_closed :: bool

definition read_chunk :: "PatchArtifact \<Rightarrow> PatchArtifact \<times> bytes" where
  "read_chunk a = Read a True kChunkSize"

text \<open>The body of the thread.\<close>

definition xfer_thread :: "(nat \<Rightarrow> bool) option \<Rightarrow> PatchArtifact \<Rightarrow> transfer option" where
  "xfer_thread flow artifact =
     (case xfer_loop read_chunk flow 0 artifact [] of
        None \<Rightarrow> None
      | Some (a, sent, e) \<Rightarrow>
          Some \<lparr>t_packets = sent, t_end = e, t_closed = (e = EndOfStream \<and> bad a)\<rparr>)"

text \<open>
  What the thread is started with: its copies of the sender and the closer of the session
  (whether they are set), the flow control, and the archive, which it owns.
\<close>

record xfer_job =
  job_sender :: bool
  job_closer :: bool
  job_flow :: "(nat \<Rightarrow> bool) option"
  job_artifact :: PatchArtifact

definition run_job :: "xfer_job \<Rightarrow> transfer option" where
  "run_job j = xfer_thread (job_flow j) (job_artifact j)"

text \<open>
  \<open>StartPatchTransfer\<close>: refused (\<open>None\<close>) or the job of the new thread, with the artifact
  positioned.
\<close>

definition StartPatchTransfer ::
  "bool \<Rightarrow> bool \<Rightarrow> (nat \<Rightarrow> bool) option \<Rightarrow> PatchArtifact option \<Rightarrow> uint64 \<Rightarrow> xfer_job option" where
  "StartPatchTransfer sender closer flow artifact startOffset =
     (case artifact of
        None \<Rightarrow> None
      | Some a \<Rightarrow>
          if startOffset > m_size a then None
          else case Seek a startOffset of (ok, a') \<Rightarrow> if \<not> ok then None
            else Some \<lparr>job_sender = sender, job_closer = closer, job_flow = flow, job_artifact = a'\<rparr>)"

section \<open>The contract of a chunk reader\<close>

text \<open>
  What the loop relies on: a read that delivers something leaves less behind, so the
  loop ends.
\<close>

locale chunk_reader =
  fixes rd :: "'a \<Rightarrow> 'a \<times> bytes" and left :: "'a \<Rightarrow> nat"
  assumes read_progress: "rd a = (a', got) \<Longrightarrow> got \<noteq> [] \<Longrightarrow> left a' < left a"
begin

lemma xfer_loop_terminates: "\<exists>r. xfer_loop rd flow k a sent = Some r"
proof (induction "left a" arbitrary: a k sent rule: less_induct)
  case less
  obtain a' got where rd: "rd a = (a', got)" by fastforce
  show ?case
  proof (cases "got = []")
    case True
    then show ?thesis by (subst xfer_loop.simps) (simp add: rd)
  next
    case False
    with read_progress [OF rd] less obtain r
      where "xfer_loop rd flow (Suc k) a' (sent @ [xfer_frame got]) = Some r" by blast
    with False show ?thesis by (subst xfer_loop.simps) (cases r, simp add: rd)
  qed
qed

end

text \<open>
  A reader that in addition delivers a known byte string piece by piece, while the
  reader is sound.
\<close>

locale byte_source = chunk_reader rd left
  for rd :: "'a \<Rightarrow> 'a \<times> bytes" and left :: "'a \<Rightarrow> nat" +
  fixes remaining :: "'a \<Rightarrow> bytes" and sound :: "'a \<Rightarrow> bool" and cap :: nat
  assumes cap_pos: "0 < cap"
    and read_chunk_law: "sound a \<Longrightarrow> rd a = (a', got) \<Longrightarrow>
      got = take cap (remaining a) \<and> remaining a' = drop cap (remaining a) \<and> sound a'"
begin

lemma xfer_loop_all:
  assumes "sound a" and "flow = None \<or> flow = Some (\<lambda>_. True)"
  shows "\<exists>a'. sound a' \<and> xfer_loop rd flow k a sent =
           Some (a', sent @ map xfer_frame (chunks cap (remaining a)), EndOfStream)"
  using assms
proof (induction "left a" arbitrary: a k sent rule: less_induct)
  case less
  obtain a' got where rd: "rd a = (a', got)" by fastforce
  note law = read_chunk_law [OF less.prems(1) rd]
  have go: "\<not> (case flow of None \<Rightarrow> False | Some w \<Rightarrow> \<not> w k)"
    using less.prems(2) by auto
  show ?case
  proof (cases "remaining a = []")
    case True
    with law have "got = []" by simp
    with True law go show ?thesis by (subst xfer_loop.simps) (simp add: rd)
  next
    case False
    with law cap_pos have ne: "got \<noteq> []" by simp
    from read_progress [OF rd ne] have "left a' < left a" .
    from less.hyps [OF this, of "Suc k" "sent @ [xfer_frame got]"] law less.prems(2)
    obtain b where "sound b" and "xfer_loop rd flow (Suc k) a' (sent @ [xfer_frame got]) =
        Some (b, sent @ [xfer_frame got] @ map xfer_frame (chunks cap (remaining a')), EndOfStream)"
      by auto
    with ne go law False cap_pos show ?thesis
      by (subst xfer_loop.simps) (auto simp: rd chunks_step)
  qed
qed

text \<open>Whatever the flow control does, the packets sent are the first ones of the full list.\<close>

lemma xfer_loop_sound:
  assumes "sound a" and "xfer_loop rd flow k a sent = Some (a', out, e)"
  shows "sound a'"
  using assms
proof (induction "left a" arbitrary: a k sent rule: less_induct)
  case less
  obtain b got where rd: "rd a = (b, got)" by fastforce
  note law = read_chunk_law [OF less.prems(1) rd]
  show ?case
  proof (cases "(case flow of None \<Rightarrow> False | Some w \<Rightarrow> \<not> w k) \<or> got = []")
    case True
    with less.prems law show ?thesis by (subst (asm) xfer_loop.simps) (auto simp: rd split: if_splits)
  next
    case False
    with less.prems(2) have "xfer_loop rd flow (Suc k) b (sent @ [xfer_frame got]) = Some (a', out, e)"
      by (subst (asm) xfer_loop.simps) (simp add: rd)
    with less.hyps [OF read_progress [OF rd]] False law show ?thesis by blast
  qed
qed

lemma xfer_loop_prefix:
  assumes "sound a" and "xfer_loop rd flow k a sent = Some (a', out, e)"
  shows "\<exists>n. out = sent @ take n (map xfer_frame (chunks cap (remaining a)))"
  using assms
proof (induction "left a" arbitrary: a k sent rule: less_induct)
  case less
  obtain b got where rd: "rd a = (b, got)" by fastforce
  note law = read_chunk_law [OF less.prems(1) rd]
  show ?case
  proof (cases "(case flow of None \<Rightarrow> False | Some w \<Rightarrow> \<not> w k) \<or> got = []")
    case True
    with less.prems(2) have "out = sent" by (subst (asm) xfer_loop.simps) (auto simp: rd split: if_splits)
    then show ?thesis by (intro exI [of _ 0]) simp
  next
    case False
    then have go: "xfer_loop rd flow (Suc k) b (sent @ [xfer_frame got]) = Some (a', out, e)"
      using less.prems(2) by (subst (asm) xfer_loop.simps) (simp add: rd)
    from False have "got \<noteq> []" by simp
    from less.hyps [OF read_progress [OF rd this] _ go] law obtain n
      where "out = (sent @ [xfer_frame got]) @ take n (map xfer_frame (chunks cap (remaining b)))"
      by auto
    with \<open>got \<noteq> []\<close> law cap_pos show ?thesis
      by (intro exI [of _ "Suc n"]) (auto simp: chunks_step)
  qed
qed

end

section \<open>The artifact is such a reader\<close>

lemma read_chunk_eq:
  "read_chunk a = (let (s, got) = stream_read (m_stream a) 4096 in (a\<lparr>m_stream := s\<rparr>, got))"
  by (simp add: read_chunk_def Read_def kChunkSize_def)

interpretation artifact: byte_source read_chunk "\<lambda>a. bytes_left (m_stream a)"
  "\<lambda>a. rest (m_stream a)" "\<lambda>a. healthy (m_stream a)" kChunkSize
proof unfold_locales
  fix a a' got
  assume "read_chunk a = (a', got)"
  then obtain s where rd: "stream_read (m_stream a) 4096 = (s, got)" and a': "a' = a\<lparr>m_stream := s\<rparr>"
    by (auto simp: read_chunk_eq split: prod.splits)
  show "bytes_left (m_stream a') < bytes_left (m_stream a)" if "got \<noteq> []"
    using stream_read_progress [OF _ rd that] a' by simp
  show "got = take kChunkSize (rest (m_stream a)) \<and>
        rest (m_stream a') = drop kChunkSize (rest (m_stream a)) \<and> healthy (m_stream a')"
    if "healthy (m_stream a)"
    using stream_read_healthy [OF that _ rd] a' by (simp add: kChunkSize_def)
qed (simp add: kChunkSize_def)

section \<open>The client's reading of the packets\<close>

text \<open>A receiver that takes the stream of \<open>CMD_XFER_DATA\<close> packets apart.\<close>

fun take_packet :: "bytes \<Rightarrow> (bytes \<times> bytes) option" where
  "take_packet (c # lo # hi # r) =
     (let n = unat (le16 lo hi) in
      if c = cmd_code CMD_XFER_DATA \<and> n \<le> length r then Some (take n r, drop n r) else None)"
| "take_packet _ = None"

fun receive :: "nat \<Rightarrow> bytes \<Rightarrow> bytes option" where
  "receive 0 bs = (if bs = [] then Some [] else None)"
| "receive (Suc k) bs =
     (if bs = [] then Some []
      else case take_packet bs of
        None \<Rightarrow> None
      | Some (p, r) \<Rightarrow> (case receive k r of None \<Rightarrow> None | Some q \<Rightarrow> Some (p @ q)))"

lemma take_packet_frame:
  assumes "length got < 65536"
  shows "take_packet (xfer_frame got @ r) = Some (got, r)"
proof -
  have "unat (le16 (word_of_nat (length got)) (word_of_nat (length got div 256))) = length got"
    using assms by (simp add: unat_le16 unat_word_of_nat_byte mult.commute)
  then show ?thesis by (simp add: xfer_frame_def le_bytes_2 Let_def)
qed

lemma receive_frames:
  assumes "\<forall>c \<in> set cs. length c < 65536" and "length cs \<le> k"
  shows "receive k (concat (map xfer_frame cs)) = Some (concat cs)"
  using assms
proof (induction cs arbitrary: k)
  case Nil
  then show ?case by (cases k) auto
next
  case (Cons c cs)
  then obtain k' where k: "k = Suc k'" by (cases k) auto
  have "receive k' (concat (map xfer_frame cs)) = Some (concat cs)"
    using Cons k by simp
  then show ?case using Cons.prems k by (simp add: take_packet_frame)
qed

section \<open>Lemmas on the thread\<close>

lemma xfer_thread_healthy:
  assumes "healthy (m_stream a)" and "flow = None \<or> flow = Some (\<lambda>_. True)"
  shows "xfer_thread flow a =
    Some \<lparr>t_packets = map xfer_frame (chunks kChunkSize (rest (m_stream a))),
          t_end = EndOfStream, t_closed = False\<rparr>"
proof -
  obtain a' where "healthy (m_stream a')" and "xfer_loop read_chunk flow 0 a [] =
      Some (a', map xfer_frame (chunks kChunkSize (rest (m_stream a))), EndOfStream)"
    using artifact.xfer_loop_all [OF assms, of 0 "[]"] by auto
  then show ?thesis by (simp add: xfer_thread_def bad_def healthy_def)
qed

lemma StartPatchTransfer_open:
  assumes "fs path = Some f" and "f_fault f = None" and "length (f_content f) < 2 ^ 63"
    and "Open md5 fs path = Some a" and "unat off \<le> length (f_content f)"
  obtains a' where "StartPatchTransfer sd cls fl (Some a) off =
      Some \<lparr>job_sender = sd, job_closer = cls, job_flow = fl, job_artifact = a'\<rparr>" and "healthy (m_stream a')"
    and "rest (m_stream a') = drop (unat off) (f_content f)"
proof -
  note a = Open_result(2,5,7,8) [OF assms(1,4)]
  have nf: "s_fault (m_stream a) = None"
    using Open_fault [OF assms(1,4)] assms(2) by simp
  have sz: "unat (m_size a) = length (f_content f)"
    using assms(3) by (simp add: a(1) unat_of_nat)
  have le: "off \<le> m_size a" "m_size a \<le> 0x7FFFFFFFFFFFFFFF"
    using sz assms(3,5) by (simp_all add: word_le_nat_alt)
  from Seek_ok [OF a(2,4) nf le] obtain a' where "Seek a off = (True, a')"
    "healthy (m_stream a')" "rest (m_stream a') = drop (unat off) (f_content f)"
    using a(3) by metis
  with le that [of a'] show ?thesis by (simp add: StartPatchTransfer_def not_less)
qed

text \<open>
  A transfer delivers the archive.  When an archive has been opened and the client
  asks for it from an offset not beyond its end, the transfer starts, its thread
  comes to an end, the connection is not torn down, and a client that takes the
  \<open>CMD_XFER_DATA\<close> packets apart obtains exactly the archive's bytes from that offset on.
\<close>
lemma transfer_delivers_archive:
  assumes "fs path = Some f" and "f_fault f = None" and "length (f_content f) < 2 ^ 63"
    and "Open md5 fs path = Some a" and "unat off \<le> length (f_content f)"
    and "flow = None \<or> flow = Some (\<lambda>_. True)"
  shows "\<exists>a' t. StartPatchTransfer sd cls fl (Some a) off =
       Some \<lparr>job_sender = sd, job_closer = cls, job_flow = fl, job_artifact = a'\<rparr> \<and> xfer_thread flow a' = Some t \<and>
     t_end t = EndOfStream \<and> \<not> t_closed t \<and>
     receive (length (t_packets t)) (concat (t_packets t)) = Some (drop (unat off) (f_content f))"
proof -
  obtain a' where a': "StartPatchTransfer sd cls fl (Some a) off =
      Some \<lparr>job_sender = sd, job_closer = cls, job_flow = fl, job_artifact = a'\<rparr>" "healthy (m_stream a')"
    and r: "rest (m_stream a') = drop (unat off) (f_content f)"
    using StartPatchTransfer_open [OF assms(1-5)] by blast
  let ?cs = "chunks kChunkSize (drop (unat off) (f_content f))"
  have "\<forall>c \<in> set ?cs. length c < 65536"
    using chunks_sizes [of _ kChunkSize] by (fastforce simp: kChunkSize_def)
  then have "receive (length ?cs) (concat (map xfer_frame ?cs)) = Some (drop (unat off) (f_content f))"
    by (simp add: receive_frames kChunkSize_def)
  with a' r xfer_thread_healthy [OF a'(2) assms(6)] show ?thesis by auto
qed

text \<open>The thread calls its closer only after a device error: never for an archive that stays healthy.\<close>

lemma xfer_thread_closed:
  assumes "xfer_thread flow a = Some t" and "t_closed t"
  shows "t_end t = EndOfStream \<and> \<not> healthy (m_stream a)"
proof -
  obtain a' out e where r: "xfer_loop read_chunk flow 0 a [] = Some (a', out, e)"
    using artifact.xfer_loop_terminates [of flow 0 a "[]"] by auto
  with assms have e: "e = EndOfStream" "bad a'" "t_end t = e" by (auto simp: xfer_thread_def)
  moreover have "healthy (m_stream a')" if "healthy (m_stream a)"
    using artifact.xfer_loop_sound [OF that r] .
  ultimately show ?thesis by (auto simp: bad_def healthy_def)
qed

definition job_closer_calls :: "xfer_job \<Rightarrow> nat" where
  "job_closer_calls j = (case run_job j of None \<Rightarrow> 0 | Some t \<Rightarrow> if job_closer j \<and> t_closed t then 1 else 0)"

lemma job_closer_calls_le: "job_closer_calls j \<le> 1"
  by (simp add: job_closer_calls_def split: option.split)

lemma job_closer_calls_healthy: "healthy (m_stream (job_artifact j)) \<Longrightarrow> job_closer_calls j = 0"
  using xfer_thread_closed by (auto simp: job_closer_calls_def run_job_def split: option.split)

section \<open>Properties\<close>

text \<open>
  C29: the streaming thread always comes to an end, for every artifact (whatever state
  its file is in), every start position and every behaviour of the flow control; and
  for an archive without device faults what it has sent by then is a prefix of the
  packets of the full transfer, never a torn or reordered one.
\<close>
theorem transfer_thread_ends:
  "\<exists>t. xfer_thread flow a = Some t \<and>
     (healthy (m_stream a) \<longrightarrow>
        (\<exists>n. t_packets t = take n (map xfer_frame (chunks kChunkSize (rest (m_stream a))))))"
proof -
  obtain a' out e where r: "xfer_loop read_chunk flow 0 a [] = Some (a', out, e)"
    using artifact.xfer_loop_terminates [of flow 0 a "[]"] by auto
  have "\<exists>n. out = take n (map xfer_frame (chunks kChunkSize (rest (m_stream a))))"
    if "healthy (m_stream a)"
    using artifact.xfer_loop_prefix [OF that r] by simp
  with r show ?thesis by (simp add: xfer_thread_def)
qed

theorem transfer_thread_ends_witness:
  "\<exists>t. xfer_thread (Some (\<lambda>k. k < 1))
      \<lparr>m_stream = seekg 0 (open_ate (example_file [1, 2, 3])), m_size = 3, m_digest = []\<rparr> = Some t \<and>
      (\<exists>n. t_packets t = take n [xfer_frame [1, 2, 3]])"
proof -
  let ?a = "\<lparr>m_stream = seekg 0 (open_ate (example_file [1, 2, 3])), m_size = 3, m_digest = []\<rparr>"
  have h: "healthy (m_stream ?a)" and r: "rest (m_stream ?a) = [1, 2, 3]"
    by (simp_all add: healthy_def rest_def good_def seekg_def open_ate_def example_file_def
        stream_ok_def)
  have c: "chunks kChunkSize [1, 2, 3 :: byte] = [[1, 2, 3]]"
    by (simp add: chunks_step kChunkSize_def)
  show ?thesis
    using transfer_thread_ends [of "Some (\<lambda>k. k < 1)" ?a] h unfolding r c by simp
qed

end
