(* ===== verification/ClientBuild.thy ===== *)
theory ClientBuild
  imports AuthCodes
begin

text \<open>
  \<open>src/Realm/ClientBuildPolicy.{h,cpp}\<close> and \<open>src/Auth/AuthResultPolicy.cpp\<close>: the
  table of supported client builds, the two lookups over it and the answer given to
  an account that is locked to another address.
\<close>

section \<open>Data\<close>

text \<open>\<open>int\<close> fields are 32-bit signed numbers; the table holds small ones only.\<close>

record RealmBuildInfo =
  build :: int
  major_version :: int
  minor_version :: int
  bugfix_version :: int
  hotfix_version :: int

datatype RealmVersion =
    REALM_VERSION_VANILLA
  | REALM_VERSION_TBC
  | REALM_VERSION_WOTLK
  | REALM_VERSION_CATA
  | REALM_VERSION_MOP
  | REALM_VERSION_WOD
  | REALM_VERSION_LEGION
  | REALM_VERSION_BFA
  | REALM_VERSION_SHADOWLANDS

primrec version_index :: "RealmVersion \<Rightarrow> nat" where
  "version_index REALM_VERSION_VANILLA = 0"
| "version_index REALM_VERSION_TBC = 1"
| "version_index REALM_VERSION_WOTLK = 2"
| "version_index REALM_VERSION_CATA = 3"
| "version_index REALM_VERSION_MOP = 4"
| "version_index REALM_VERSION_WOD = 5"
| "version_index REALM_VERSION_LEGION = 6"
| "version_index REALM_VERSION_BFA = 7"
| "version_index REALM_VERSION_SHADOWLANDS = 8"

definition REALM_VERSION_COUNT :: nat where
  "REALM_VERSION_COUNT = 9"

lemma version_index_less [simp]: "version_index v < REALM_VERSION_COUNT"
  by (cases v) (simp_all add: REALM_VERSION_COUNT_def)

lemma version_index_inject [simp]: "version_index a = version_index b \<longleftrightarrow> a = b"
  by (cases a; cases b) simp_all

text \<open>The versions in the order of the enumeration.\<close>

instantiation RealmVersion :: linorder
begin

definition less_eq_RealmVersion :: "RealmVersion \<Rightarrow> RealmVersion \<Rightarrow> bool" where
  "less_eq_RealmVersion a b = (version_index a \<le> version_index b)"

definition less_RealmVersion :: "RealmVersion \<Rightarrow> RealmVersion \<Rightarrow> bool" where
  "less_RealmVersion a b = (version_index a < version_index b)"

instance
  by standard (auto simp: less_eq_RealmVersion_def less_RealmVersion_def)

end

record ClientBuildPolicy =
  buildInfo :: RealmBuildInfo
  realmVersion :: RealmVersion

section \<open>The table and its lookups\<close>

definition policy_row ::
  "int \<Rightarrow> int \<Rightarrow> int \<Rightarrow> int \<Rightarrow> char \<Rightarrow> RealmVersion \<Rightarrow> ClientBuildPolicy" where
  "policy_row b ma mi bu ho v =
     \<lparr>buildInfo = \<lparr>build = b, major_version = ma, minor_version = mi,
                    bugfix_version = bu, hotfix_version = int (of_char ho)\<rparr>,
      realmVersion = v\<rparr>"

definition SupportedClientBuilds :: "ClientBuildPolicy list" where
  "SupportedClientBuilds =
    [policy_row 40000 9 0 0 (CHR '' '') REALM_VERSION_SHADOWLANDS,
     policy_row 35662 8 3 7 (CHR '' '') REALM_VERSION_BFA,
     policy_row 26972 7 3 5 (CHR '' '') REALM_VERSION_LEGION,
     policy_row 21742 6 2 4 (CHR '' '') REALM_VERSION_WOD,
     policy_row 18414 5 4 8 (CHR '' '') REALM_VERSION_MOP,
     policy_row 18273 5 4 8 (CHR '' '') REALM_VERSION_MOP,
     policy_row 15595 4 3 4 (CHR '' '') REALM_VERSION_CATA,
     policy_row 12340 3 3 5 (CHR ''a'') REALM_VERSION_WOTLK,
     policy_row 8606 2 4 3 (CHR '' '') REALM_VERSION_TBC,
     policy_row 6141 1 12 3 (CHR '' '') REALM_VERSION_VANILLA,
     policy_row 6005 1 12 2 (CHR '' '') REALM_VERSION_VANILLA,
     policy_row 5875 1 12 1 (CHR '' '') REALM_VERSION_VANILLA]"

text \<open>
  The loop over the table returns the first row whose build, cast to \<open>uint32\<close>, is the
  one asked for; the null pointer is \<open>None\<close>.
\<close>

fun find_policy :: "ClientBuildPolicy list \<Rightarrow> uint32 \<Rightarrow> ClientBuildPolicy option" where
  "find_policy [] b = None"
| "find_policy (policy # rest) b =
     (if word_of_int (build (buildInfo policy)) = b then Some policy else find_policy rest b)"

definition FindClientBuildPolicy :: "uint32 \<Rightarrow> ClientBuildPolicy option" where
  "FindClientBuildPolicy b = find_policy SupportedClientBuilds b"

definition FindBuildInfo :: "uint16 \<Rightarrow> RealmBuildInfo option" where
  "FindBuildInfo b =
     (case FindClientBuildPolicy (ucast b) of None \<Rightarrow> None | Some policy \<Rightarrow> Some (buildInfo policy))"

definition LockedAccountResultForBuild :: "uint32 \<Rightarrow> AuthResult" where
  "LockedAccountResultForBuild b =
     (case FindClientBuildPolicy b of
        None \<Rightarrow> WOW_FAIL_DB_BUSY
      | Some policy \<Rightarrow>
          if realmVersion policy = REALM_VERSION_VANILLA then WOW_FAIL_DB_BUSY
          else WOW_FAIL_LOCKED_ENFORCED)"

section \<open>Lemmas\<close>

text \<open>The table as a map: rows have distinct builds, each of which fits in 16 bits.\<close>

definition supported_builds :: "uint32 list" where
  "supported_builds = [40000, 35662, 26972, 21742, 18414, 18273, 15595, 12340, 8606, 6141, 6005, 5875]"

lemma map_build_SupportedClientBuilds:
  "map (\<lambda>p. word_of_int (build (buildInfo p))) SupportedClientBuilds = supported_builds"
  by (simp add: SupportedClientBuilds_def supported_builds_def policy_row_def)

lemma find_policy_in:
  "find_policy ps b = Some p \<Longrightarrow> p \<in> set ps \<and> word_of_int (build (buildInfo p)) = b"
  by (induction ps) (auto split: if_splits)

lemma find_policy_None_iff:
  "find_policy ps b = None \<longleftrightarrow> b \<notin> (\<lambda>p. word_of_int (build (buildInfo p))) ` set ps"
  by (induction ps) auto

lemma find_policy_distinct:
  assumes "distinct (map (\<lambda>p. word_of_int (build (buildInfo p)) :: uint32) ps)" and "p \<in> set ps"
  shows "find_policy ps (word_of_int (build (buildInfo p))) = Some p"
  using assms by (induction ps) auto

lemma distinct_supported_builds: "distinct supported_builds"
  by (simp add: supported_builds_def)

lemma FindClientBuildPolicy_in:
  "FindClientBuildPolicy b = Some p \<Longrightarrow>
   p \<in> set SupportedClientBuilds \<and> word_of_int (build (buildInfo p)) = b"
  unfolding FindClientBuildPolicy_def by (rule find_policy_in)

lemma FindClientBuildPolicy_None_iff:
  "FindClientBuildPolicy b = None \<longleftrightarrow> b \<notin> set supported_builds"
  by (simp add: FindClientBuildPolicy_def find_policy_None_iff
      map_build_SupportedClientBuilds [symmetric])

text \<open>Later builds belong to later versions.\<close>

lemma SupportedClientBuilds_mono:
  "p \<in> set SupportedClientBuilds \<Longrightarrow> q \<in> set SupportedClientBuilds \<Longrightarrow>
   (word_of_int (build (buildInfo p)) :: uint32) \<le> word_of_int (build (buildInfo q)) \<Longrightarrow>
   realmVersion p \<le> realmVersion q"
proof -
  have "list_all (\<lambda>p. list_all (\<lambda>q. (word_of_int (build (buildInfo p)) :: uint32) \<le> word_of_int (build (buildInfo q)) \<longrightarrow>
      realmVersion p \<le> realmVersion q) SupportedClientBuilds) SupportedClientBuilds"
    by code_simp
  then show "p \<in> set SupportedClientBuilds \<Longrightarrow> q \<in> set SupportedClientBuilds \<Longrightarrow>
   (word_of_int (build (buildInfo p)) :: uint32) \<le> word_of_int (build (buildInfo q)) \<Longrightarrow>
   realmVersion p \<le> realmVersion q"
    by (simp add: list_all_iff)
qed

lemma FindBuildInfo_None_iff: "FindBuildInfo b = None \<longleftrightarrow> ucast b \<notin> set supported_builds"
  by (simp add: FindBuildInfo_def FindClientBuildPolicy_None_iff [symmetric] split: option.split)

lemma FindBuildInfo_build:
  assumes "FindBuildInfo b = Some bi"
  shows "build bi = int (unat b)"
proof -
  obtain p where p: "p \<in> set SupportedClientBuilds"
    and w: "word_of_int (build (buildInfo p)) = (ucast b :: uint32)" and bi: "bi = buildInfo p"
    using assms FindClientBuildPolicy_in by (auto simp: FindBuildInfo_def split: option.splits)
  from p have range: "0 \<le> build (buildInfo p) \<and> build (buildInfo p) < 2 ^ 32"
    by (auto simp: SupportedClientBuilds_def policy_row_def)
  have "uint (word_of_int (build (buildInfo p)) :: uint32) = uint (ucast b :: uint32)"
    using w by simp
  moreover have "uint (ucast b :: uint32) = int (unat b)"
    by (simp add: unsigned_ucast_eq take_bit_eq_mod order_less_trans [OF unsigned_less])
  ultimately show ?thesis using range bi by (simp add: uint_word_of_int take_bit_eq_mod)
qed

section \<open>Properties\<close>

text \<open>
  The build lookup is the finite map the table describes.  A build is found if and
  only if it is one of the twelve supported ones, the row found is the one that
  carries this build, and every row of the table is found under its own build, so no
  row shadows another.
\<close>
lemma FindClientBuildPolicy_table:
  "(FindClientBuildPolicy b = Some p \<longleftrightarrow>
      p \<in> set SupportedClientBuilds \<and> word_of_int (build (buildInfo p)) = b) \<and>
   (FindClientBuildPolicy b = None \<longleftrightarrow> b \<notin> set supported_builds)"
proof (intro conjI iffI)
  assume "p \<in> set SupportedClientBuilds \<and> word_of_int (build (buildInfo p)) = b"
  then show "FindClientBuildPolicy b = Some p"
    using find_policy_distinct [of SupportedClientBuilds p] distinct_supported_builds
    by (simp add: FindClientBuildPolicy_def map_build_SupportedClientBuilds)
qed (auto dest: FindClientBuildPolicy_in simp: FindClientBuildPolicy_None_iff)

text \<open>
  An account locked to another address is told so with the code its client
  understands: clients of the families after vanilla get \<open>WOW_FAIL_LOCKED_ENFORCED\<close>,
  the three vanilla builds and every unsupported build get \<open>WOW_FAIL_DB_BUSY\<close>; no
  build is ever told that the login succeeded.
\<close>
lemma LockedAccountResult_by_family:
  "LockedAccountResultForBuild b =
     (if b \<in> set supported_builds - {5875, 6005, 6141} then WOW_FAIL_LOCKED_ENFORCED
      else WOW_FAIL_DB_BUSY)"
proof (cases "b \<in> set supported_builds")
  case False
  then show ?thesis
    using FindClientBuildPolicy_None_iff [of b] by (simp add: LockedAccountResultForBuild_def)
next
  case True
  then consider "b = 40000" | "b = 35662" | "b = 26972" | "b = 21742" | "b = 18414" | "b = 18273"
    | "b = 15595" | "b = 12340" | "b = 8606" | "b = 6141" | "b = 6005" | "b = 5875"
    by (auto simp: supported_builds_def)
  then show ?thesis
    by cases (simp_all add: LockedAccountResultForBuild_def FindClientBuildPolicy_def
        SupportedClientBuilds_def policy_row_def supported_builds_def)
qed

end
