(* ===== verification/RealmSnapshot.thy ===== *)
theory RealmSnapshot
  imports ClientBuild
begin

text \<open>
  \<open>src/Realm/RealmSnapshot.h\<close>: realms, the immutable snapshot of the realm table, the
  store that publishes a snapshot, the view of one version's realms, and the gate that
  limits how often the table is read again.  A \<open>Realm const*\<close> of a version list points
  into the snapshot's own map, so the model keeps the key of the map entry; the list
  reads the entry as it is when the list is walked.
\<close>

section \<open>Data\<close>

record RealmAddress =
  ip :: uint32
  port :: uint16
  loopback :: bool

text \<open>The flag bits, as the message of \<open>BuildSnapshot\<close> spells them out.\<close>

definition REALM_FLAG_OFFLINE :: uint8 where "REALM_FLAG_OFFLINE = 0x02"
definition REALM_FLAG_SPECIFYBUILD :: uint8 where "REALM_FLAG_SPECIFYBUILD = 0x04"
definition REALM_FLAG_NEW_PLAYERS :: uint8 where "REALM_FLAG_NEW_PLAYERS = 0x20"
definition REALM_FLAG_RECOMMENDED :: uint8 where "REALM_FLAG_RECOMMENDED = 0x40"

text \<open>\<open>populationLevel\<close> is a \<open>float\<close>, kept as its bit pattern.\<close>

record Realm =
  realm_name :: string
  ExternalAddress :: RealmAddress
  LocalAddress :: RealmAddress
  LocalSubnetMask :: RealmAddress
  icon :: uint8
  realmflags :: uint8
  timezone :: uint8
  m_ID :: uint32
  allowedSecurityLevel :: uint8
  populationLevel :: uint32
  realmbuilds :: "uint32 set"
  realmBuildInfo :: RealmBuildInfo

record RealmSnapshot =
  realms :: "string \<rightharpoonup> Realm"
  realmsByVersion :: "RealmVersion \<Rightarrow> string list"

definition empty_snapshot :: RealmSnapshot where
  "empty_snapshot = \<lparr>realms = Map.empty, realmsByVersion = (\<lambda>_. [])\<rparr>"

section \<open>The snapshot store\<close>

record RealmSnapshotStore =
  m_snapshot :: RealmSnapshot

definition mk_RealmSnapshotStore :: RealmSnapshotStore where
  "mk_RealmSnapshotStore = \<lparr>m_snapshot = empty_snapshot\<rparr>"

definition Load :: "RealmSnapshotStore \<Rightarrow> RealmSnapshot" where
  "Load store = m_snapshot store"

definition Publish :: "RealmSnapshot \<Rightarrow> RealmSnapshotStore \<Rightarrow> RealmSnapshotStore" where
  "Publish snapshot store = store\<lparr>m_snapshot := snapshot\<rparr>"

section \<open>The view of one version\<close>

text \<open>A view holds the snapshot it was made from, whatever is published later.\<close>

record RealmListView =
  v_snapshot :: RealmSnapshot
  v_realms :: "string list"

definition mk_RealmListView :: "RealmSnapshot \<Rightarrow> RealmVersion \<Rightarrow> RealmListView" where
  "mk_RealmListView snapshot version =
     \<lparr>v_snapshot = snapshot, v_realms = realmsByVersion snapshot version\<rparr>"

text \<open>Walking the view dereferences each pointer; \<open>view_size\<close> is the list's length.\<close>

definition view_list :: "RealmListView \<Rightarrow> Realm list" where
  "view_list v = map (\<lambda>k. the (realms (v_snapshot v) k)) (v_realms v)"

definition view_size :: "RealmListView \<Rightarrow> nat" where
  "view_size v = length (v_realms v)"

section \<open>The refresh gate\<close>

text \<open>
  The mutex is a flag: \<open>gate_locked\<close> says that another thread is inside the gate.
\<close>

record RealmRefreshGate =
  m_interval :: uint32
  m_nextUpdate :: int
  gate_locked :: bool

definition mk_RealmRefreshGate :: "uint32 \<Rightarrow> int \<Rightarrow> RealmRefreshGate" where
  "mk_RealmRefreshGate interval nextUpdate =
     \<lparr>m_interval = interval, m_nextUpdate = nextUpdate, gate_locked = False\<rparr>"

definition Reset :: "uint32 \<Rightarrow> int \<Rightarrow> RealmRefreshGate \<Rightarrow> RealmRefreshGate" where
  "Reset interval nextUpdate gate = gate\<lparr>m_interval := interval, m_nextUpdate := nextUpdate\<rparr>"

text \<open>
  \<open>RunIfDue\<close>: whether the refresh is to be run, and the gate afterwards.  The callback
  itself is run by the caller when the answer is \<open>True\<close>.
\<close>

definition RunIfDue :: "int \<Rightarrow> RealmRefreshGate \<Rightarrow> bool \<times> RealmRefreshGate" where
  "RunIfDue now gate =
     (if gate_locked gate \<or> m_interval gate = 0 \<or> m_nextUpdate gate > now then (False, gate)
      else (True, gate\<lparr>m_nextUpdate := now + int (unat (m_interval gate))\<rparr>))"

text \<open>
  Threads at the gate: the caller that got through keeps the mutex while its refresh runs
  and gives it back when \<open>RunIfDue\<close> returns; the others call meanwhile.  A schedule is the
  sequence of calls, each with its time, and returns of the refresh in progress.
\<close>

definition hold_gate :: "RealmRefreshGate \<Rightarrow> RealmRefreshGate" where
  "hold_gate g = g\<lparr>gate_locked := True\<rparr>"

definition release_gate :: "RealmRefreshGate \<Rightarrow> RealmRefreshGate" where
  "release_gate g = g\<lparr>gate_locked := False\<rparr>"

datatype gate_event = Call int | Return

text \<open>The times at which a refresh started.\<close>

fun refreshes ::
  "(int \<Rightarrow> 'g \<Rightarrow> bool \<times> 'g) \<Rightarrow> ('g \<Rightarrow> 'g) \<Rightarrow> ('g \<Rightarrow> 'g) \<Rightarrow> gate_event list \<Rightarrow> 'g \<Rightarrow> int list" where
  "refreshes run hold release [] g = []"
| "refreshes run hold release (Call t # es) g =
     (case run t g of (r, g') \<Rightarrow>
        if r then t # refreshes run hold release es (hold g') else refreshes run hold release es g')"
| "refreshes run hold release (Return # es) g = refreshes run hold release es (release g)"

section \<open>Contracts\<close>

text \<open>
  What the realm list relies on: a load sees the last published snapshot.
\<close>

locale snapshot_store =
  fixes load :: "'s \<Rightarrow> 'snap" and publish :: "'snap \<Rightarrow> 's \<Rightarrow> 's"
  assumes load_publish: "load (publish x st) = x"
begin

lemma load_after_publishes: "load (fold publish xs st) = (if xs = [] then load st else last xs)"
proof (induction xs arbitrary: st)
  case Nil
  then show ?case by simp
next
  case (Cons x xs)
  then show ?case by (simp add: load_publish)
qed

end

interpretation store: snapshot_store Load Publish
  by unfold_locales (simp add: Load_def Publish_def)

text \<open>
  A rate limiter: it lets a call through only when its time has come, and then moves that
  time by the interval; otherwise it does not change.  While it is held it lets nobody
  through and answers at once.
\<close>

locale rate_limiter =
  fixes run :: "int \<Rightarrow> 'g \<Rightarrow> bool \<times> 'g" and hold :: "'g \<Rightarrow> 'g" and release :: "'g \<Rightarrow> 'g"
    and due_at :: "'g \<Rightarrow> int" and period :: "'g \<Rightarrow> int"
  assumes runs: "run now g = (True, g') \<Longrightarrow>
      due_at g \<le> now \<and> 0 < period g \<and> due_at g' = now + period g \<and> period g' = period g"
    and idles: "run now g = (False, g') \<Longrightarrow> g' = g"
    and busy: "run now (hold g) = (False, hold g)"
    and holding [simp]: "due_at (hold g) = due_at g" "period (hold g) = period g"
      "due_at (release g) = due_at g" "period (release g) = period g"
begin

lemma refreshes_due: "t \<in> set (refreshes run hold release es g) \<Longrightarrow> due_at g \<le> t"
proof (induction es arbitrary: g)
  case (Cons e es)
  show ?case
  proof (cases e)
    case (Call u)
    obtain r g' where f: "run u g = (r, g')" by fastforce
    show ?thesis
    proof (cases r)
      case True
      with f runs have "due_at g \<le> u" "due_at g \<le> due_at (hold g')" by fastforce+
      with Cons f True Call show ?thesis by fastforce
    next
      case False
      with Cons f Call idles show ?thesis by (auto split: prod.splits)
    qed
  next
    case Return
    with Cons.IH [of "release g"] Cons.prems show ?thesis by simp
  qed
qed simp

text \<open>Two refreshes never start closer together than the period.\<close>

lemma refreshes_spaced: "sorted_wrt (\<lambda>a b. a + period g \<le> b) (refreshes run hold release es g)"
proof (induction es arbitrary: g)
  case (Cons e es)
  show ?case
  proof (cases e)
    case (Call u)
    obtain r g' where f: "run u g = (r, g')" by fastforce
    show ?thesis
    proof (cases r)
      case True
      with f runs have d: "due_at (hold g') = u + period g" "period (hold g') = period g" by fastforce+
      have "u + period g \<le> t" if "t \<in> set (refreshes run hold release es (hold g'))" for t
        using refreshes_due [OF that] d by simp
      with Cons.IH [of "hold g'"] d f True Call show ?thesis by simp
    next
      case False
      with f idles have "g' = g" by simp
      with Cons.IH [of g] f False Call show ?thesis by simp
    qed
  next
    case Return
    with Cons.IH [of "release g"] show ?thesis by simp
  qed
qed simp

text \<open>While one refresh runs no other starts.\<close>

lemma refreshes_held: "Return \<notin> set es \<Longrightarrow> refreshes run hold release es (hold g) = []"
proof (induction es)
  case (Cons e es)
  then show ?case by (cases e) (simp_all add: busy)
qed simp

lemma refreshes_exclusive: "Return \<notin> set es \<Longrightarrow> length (refreshes run hold release es g) \<le> 1"
proof (induction es arbitrary: g)
  case (Cons e es)
  then obtain u where e: "e = Call u" by (cases e) simp_all
  then show ?case using Cons by (cases "run u g") (simp add: refreshes_held)
qed simp

end

interpretation gate: rate_limiter RunIfDue hold_gate release_gate m_nextUpdate
  "\<lambda>g. int (unat (m_interval g))"
proof unfold_locales
  have "0 < int (unat i)" if "i \<noteq> (0 :: uint32)" for i
    using that by (simp only: unat_gt_0 of_nat_0_less_iff) simp
  then show "m_nextUpdate g \<le> now \<and> 0 < int (unat (m_interval g)) \<and>
      m_nextUpdate g' = now + int (unat (m_interval g)) \<and>
      int (unat (m_interval g')) = int (unat (m_interval g))"
    if "RunIfDue now g = (True, g')" for now g g'
    using that by (auto simp: RunIfDue_def split: if_splits)
qed (auto simp: RunIfDue_def hold_gate_def release_gate_def split: if_splits)

section \<open>Properties\<close>

text \<open>
  C34: the realm table is read at most once per interval and by one thread at a time.  For
  every schedule of calls of \<open>RunIfDue\<close> and returns of the refresh in progress: two
  refreshes start at least one interval apart, none starts before the first due time, a gate
  with interval 0 never lets one through, and no second refresh starts before the first has
  returned.
\<close>
theorem refresh_rate_limited:
  "sorted_wrt (\<lambda>a b. a + int (unat (m_interval g)) \<le> b) (refreshes RunIfDue hold_gate release_gate es g) \<and>
   (\<forall>t \<in> set (refreshes RunIfDue hold_gate release_gate es g). m_nextUpdate g \<le> t) \<and>
   (m_interval g = 0 \<longrightarrow> refreshes RunIfDue hold_gate release_gate es g = []) \<and>
   (Return \<notin> set es \<longrightarrow> length (refreshes RunIfDue hold_gate release_gate es g) \<le> 1)"
proof (intro conjI ballI impI)
  show "sorted_wrt (\<lambda>a b. a + int (unat (m_interval g)) \<le> b) (refreshes RunIfDue hold_gate release_gate es g)"
    by (rule gate.refreshes_spaced)
  show "m_nextUpdate g \<le> t" if "t \<in> set (refreshes RunIfDue hold_gate release_gate es g)" for t
    using that by (rule gate.refreshes_due)
  show "length (refreshes RunIfDue hold_gate release_gate es g) \<le> 1" if "Return \<notin> set es"
    using that by (rule gate.refreshes_exclusive)
  assume "m_interval g = 0"
  then show "refreshes RunIfDue hold_gate release_gate es g = []"
  proof (induction es arbitrary: g)
    case (Cons e es)
    then show ?case by (cases e) (simp_all add: RunIfDue_def release_gate_def)
  qed simp
qed

theorem refresh_rate_limited_witness:
  "refreshes RunIfDue hold_gate release_gate [Call 0, Call 100, Call 130, Return, Call 119, Call 140, Return, Call 141]
     (mk_RealmRefreshGate 20 100) = [100, 140] \<and>
   length (refreshes RunIfDue hold_gate release_gate [Call 100, Call 130] (mk_RealmRefreshGate 20 100)) \<le> 1"
  using refresh_rate_limited [of "mk_RealmRefreshGate 20 100" "[Call 100, Call 130]"]
  by (simp add: RunIfDue_def mk_RealmRefreshGate_def hold_gate_def release_gate_def)

end
