(* ===== verification/External.thy ===== *)
theory External
  imports Prelude
begin

text \<open>
  Code the sources call and do not contain (the shared MaNGOS library, OpenSSL, the
  database, the operating system's resolver) as one record of functions, \<open>ext\<close>.  The
  model takes it as an argument and never looks inside; a theorem that needs a law of
  one of these functions states it as a hypothesis (\<open>BigNumber_laws\<close> and its
  neighbours below).  The numbers of \<open>BigNumber\<close> have the abstract type \<open>'bn\<close>, the
  state of the database the abstract type \<open>'db\<close>.
\<close>

section \<open>The database interface\<close>

text \<open>
  A field of a result row is represented by what its accessors return (a \<open>float\<close> by
  its bit pattern).  A query is the format string of the source with its arguments.
\<close>

record field =
  GetUInt8 :: uint8
  GetUInt32 :: uint32
  GetUInt64 :: uint64
  GetString :: string
  GetFloat :: uint32

type_synonym row = "field list"

datatype sql_arg = SqlS string | SqlU uint32 | SqlD int

type_synonym sql = "string \<times> sql_arg list"

section \<open>The record of external functions\<close>

text \<open>
  \<open>bn_SetRand i bits\<close> is the result of the \<open>i\<close>-th call of \<open>SetRand(bits)\<close>; \<open>sha1\<close> and
  \<open>md5\<close> map the sequence of chunks given to \<open>UpdateData\<close> since \<open>Initialize\<close> to the
  digest; the \<open>bb_\<close> functions give the bytes \<open>ByteBuffer::operator<<\<close> appends;
  \<open>db_PQuery\<close> gives the first row or \<open>None\<close> for a null result; \<open>db_Query\<close> all rows,
  \<open>[]\<close> for a null result.
\<close>

record ('bn, 'db) ext =
  bn_default :: 'bn
  bn_SetHexStr :: "string \<Rightarrow> 'bn"
  bn_SetDword :: "uint32 \<Rightarrow> 'bn"
  bn_SetBinary :: "bytes \<Rightarrow> 'bn"
  bn_SetRand :: "nat \<Rightarrow> nat \<Rightarrow> 'bn"
  bn_add :: "'bn \<Rightarrow> 'bn \<Rightarrow> 'bn"
  bn_mul :: "'bn \<Rightarrow> 'bn \<Rightarrow> 'bn"
  bn_mod :: "'bn \<Rightarrow> 'bn \<Rightarrow> 'bn"
  bn_ModExp :: "'bn \<Rightarrow> 'bn \<Rightarrow> 'bn \<Rightarrow> 'bn"
  bn_isZero :: "'bn \<Rightarrow> bool"
  bn_GetNumBytes :: "'bn \<Rightarrow> nat"
  bn_AsByteArray :: "'bn \<Rightarrow> nat \<Rightarrow> bytes"
  bn_AsHexStr :: "'bn \<Rightarrow> string"
  sha1 :: "bytes list \<Rightarrow> bytes"
  md5 :: "bytes list \<Rightarrow> bytes"
  db_PQuery :: "'db \<Rightarrow> sql \<Rightarrow> row option"
  db_Query :: "'db \<Rightarrow> string \<Rightarrow> row list"
  db_PExecute :: "'db \<Rightarrow> sql \<Rightarrow> 'db"
  db_DirectPExecute :: "'db \<Rightarrow> sql \<Rightarrow> bool \<times> 'db"
  db_escape_string :: "string \<Rightarrow> string"
  cfg_GetIntDefault :: "string \<Rightarrow> int \<Rightarrow> int"
  cfg_GetBoolDefault :: "string \<Rightarrow> bool \<Rightarrow> bool"
  bb_uint8 :: "uint8 \<Rightarrow> bytes"
  bb_uint16 :: "uint16 \<Rightarrow> bytes"
  bb_uint32 :: "uint32 \<Rightarrow> bytes"
  bb_uint64 :: "uint64 \<Rightarrow> bytes"
  bb_float :: "uint32 \<Rightarrow> bytes"
  bb_string :: "string \<Rightarrow> bytes"
  GetLocaleByName :: "string \<Rightarrow> uint32"
  IsIPAddrInNetwork :: "uint32 \<Rightarrow> uint32 \<Rightarrow> uint32 \<Rightarrow> bool"
  GetAddressString :: "uint32 \<Rightarrow> uint16 \<Rightarrow> string"
  StrSplit :: "string \<Rightarrow> string \<Rightarrow> string list"
  inet_pton :: "string \<Rightarrow> uint32 option"
  getaddrinfo :: "string \<Rightarrow> uint32 option"
  SEC_PLAYER :: uint8
  SEC_ADMINISTRATOR :: uint8

section \<open>Documented laws\<close>

text \<open>
  \<open>ByteBuffer\<close>: integers are appended little-endian at their width, a string with its
  terminating NUL.
\<close>

definition ByteBuffer_laws :: "('bn, 'db) ext \<Rightarrow> bool" where
  "ByteBuffer_laws x \<longleftrightarrow>
     (\<forall>v. bb_uint8 x v = [v]) \<and>
     (\<forall>v. bb_uint16 x v = le_bytes 2 (unat v)) \<and>
     (\<forall>v. bb_uint32 x v = le_bytes 4 (unat v)) \<and>
     (\<forall>v. bb_uint64 x v = le_bytes 8 (unat v)) \<and>
     (\<forall>v. bb_float x v = le_bytes 4 (unat v)) \<and>
     (\<forall>s. bb_string x s = of_string s @ [0])"

lemma ByteBuffer_lawsD:
  assumes "ByteBuffer_laws x"
  shows "bb_uint8 x v1 = [v1]" and "bb_uint16 x v2 = le_bytes 2 (unat v2)"
    and "bb_uint32 x v4 = le_bytes 4 (unat v4)" and "bb_uint64 x v8 = le_bytes 8 (unat v8)"
    and "bb_float x v5 = le_bytes 4 (unat v5)" and "bb_string x s = of_string s @ [0]"
  using assms by (simp_all add: ByteBuffer_laws_def)

text \<open>
  \<open>BigNumber\<close>: \<open>val\<close> reads a number as a natural number.  Byte strings are
  little-endian; \<open>AsByteArray(w)\<close> pads to \<open>w\<close> bytes; \<open>SetHexStr\<close> reads a text of
  hexadecimal digits and \<open>AsHexStr\<close> writes them; arithmetic is that of the natural numbers, with a non-zero modulus.
\<close>

definition hex_digit :: "char \<Rightarrow> nat" where
  "hex_digit c =
     (let n = of_char c :: nat in
      if n \<le> 57 then n - 48 else if n \<le> 70 then n - 55 else n - 87)"

definition hex_val :: "string \<Rightarrow> nat" where
  "hex_val s = foldl (\<lambda>acc c. 16 * acc + hex_digit c) 0 s"

definition hex_text :: "string \<Rightarrow> bool" where
  "hex_text s \<longleftrightarrow> s \<noteq> [] \<and> list_all (\<lambda>c. let n = of_char c :: nat in
     48 \<le> n \<and> n \<le> 57 \<or> 65 \<le> n \<and> n \<le> 70 \<or> 97 \<le> n \<and> n \<le> 102) s"

definition BigNumber_laws :: "('bn, 'db) ext \<Rightarrow> ('bn \<Rightarrow> nat) \<Rightarrow> bool" where
  "BigNumber_laws x val \<longleftrightarrow>
     (\<forall>s. hex_text s \<longrightarrow> val (bn_SetHexStr x s) = hex_val s) \<and>
     (\<forall>d. val (bn_SetDword x d) = unat d) \<and>
     (\<forall>bs. val (bn_SetBinary x bs) = le_val bs) \<and>
     (\<forall>i n. val (bn_SetRand x i n) < 2 ^ n) \<and>
     (\<forall>a b. val (bn_add x a b) = val a + val b) \<and>
     (\<forall>a b. val (bn_mul x a b) = val a * val b) \<and>
     (\<forall>a n. 0 < val n \<longrightarrow> val (bn_mod x a n) = val a mod val n) \<and>
     (\<forall>a e n. 0 < val n \<longrightarrow> val (bn_ModExp x a e n) = val a ^ val e mod val n) \<and>
     (\<forall>a. bn_isZero x a \<longleftrightarrow> val a = 0) \<and>
     (\<forall>a w. bn_GetNumBytes x a \<le> w \<longleftrightarrow> val a < 256 ^ w) \<and>
     (\<forall>a w. val a < 256 ^ w \<longrightarrow> bn_AsByteArray x a w = le_bytes w (val a)) \<and>
     (\<forall>a. hex_text (bn_AsHexStr x a) \<and> hex_val (bn_AsHexStr x a) = val a)"

lemma BigNumber_lawsD:
  assumes "BigNumber_laws x val"
  shows "hex_text s \<Longrightarrow> val (bn_SetHexStr x s) = hex_val s" and "val (bn_SetDword x d) = unat d"
    and "val (bn_SetBinary x bs) = le_val bs" and "val (bn_SetRand x i n) < 2 ^ n"
    and "val (bn_add x a b) = val a + val b" and "val (bn_mul x a b) = val a * val b"
    and "0 < val m \<Longrightarrow> val (bn_mod x a m) = val a mod val m"
    and "0 < val m \<Longrightarrow> val (bn_ModExp x a b m) = val a ^ val b mod val m"
    and "bn_isZero x a \<longleftrightarrow> val a = 0"
    and "bn_GetNumBytes x a \<le> w \<longleftrightarrow> val a < 256 ^ w"
    and "val a < 256 ^ w \<Longrightarrow> bn_AsByteArray x a w = le_bytes w (val a)"
    and "hex_val (bn_AsHexStr x a) = val a" and "hex_text (bn_AsHexStr x a)"
  using assms by (simp_all add: BigNumber_laws_def)

text \<open>\<open>Sha1Hash\<close>: the digest has twenty bytes and depends only on the bytes hashed.\<close>

definition Sha1_laws :: "('bn, 'db) ext \<Rightarrow> bool" where
  "Sha1_laws x \<longleftrightarrow>
     (\<forall>cs. length (sha1 x cs) = 20) \<and> (\<forall>cs. sha1 x cs = sha1 x [concat cs])"

lemma Sha1_laws_length [simp]: "Sha1_laws x \<Longrightarrow> length (sha1 x cs) = 20"
  by (simp add: Sha1_laws_def)

end
