(* ===== verification/Example_Ext.thy ===== *)
theory Example_Ext
  imports External Decimal_Text
begin

text \<open>
  A concrete instance of the external functions, over natural numbers, that satisfies
  the documented laws: it shows that the laws can hold together and serves the concrete
  examples.  The digest functions are plain folds, not the real ones.  The database
  answers from two functions given as arguments and does not change.
\<close>

fun num_bytes :: "nat \<Rightarrow> nat" where
  "num_bytes n = (if n = 0 then 0 else Suc (num_bytes (n div 256)))"

declare num_bytes.simps [simp del]

definition hex_char :: "nat \<Rightarrow> char" where
  "hex_char d = (if d < 10 then char_of (48 + d) else char_of (55 + d))"

fun to_hex :: "nat \<Rightarrow> string" where
  "to_hex n = (if n < 16 then [hex_char n] else to_hex (n div 16) @ [hex_char (n mod 16)])"

declare to_hex.simps [simp del]

definition fold_digest :: "nat \<Rightarrow> bytes list \<Rightarrow> bytes" where
  "fold_digest w cs = le_bytes w (foldl (\<lambda>acc b. 257 * acc + unat b + 1) 0 (concat cs))"

definition escape_char :: "char \<Rightarrow> string" where
  "escape_char c =
     (if c = CHR 0x27 \<or> c = CHR 0x22 \<or> c = CHR 0x5C then [CHR 0x5C, c]
      else if c = CHR 0x00 then [CHR 0x5C, CHR ''0''] else [c])"

definition example_ext ::
  "(nat \<Rightarrow> nat) \<Rightarrow> (sql \<Rightarrow> row option) \<Rightarrow> row list \<Rightarrow> (nat, unit) ext" where
  "example_ext rnd one rows =
     \<lparr>bn_default = 0,
      bn_SetHexStr = hex_val,
      bn_SetDword = unat,
      bn_SetBinary = le_val,
      bn_SetRand = (\<lambda>i n. rnd i mod 2 ^ n),
      bn_add = (+),
      bn_mul = (*),
      bn_mod = (mod),
      bn_ModExp = (\<lambda>a e n. a ^ e mod n),
      bn_isZero = (\<lambda>a. a = 0),
      bn_GetNumBytes = num_bytes,
      bn_AsByteArray = (\<lambda>a w. le_bytes w a),
      bn_AsHexStr = to_hex,
      sha1 = fold_digest 20,
      md5 = fold_digest 16,
      db_PQuery = (\<lambda>_ q. one q),
      db_Query = (\<lambda>_ _. rows),
      db_PExecute = (\<lambda>d _. d),
      db_DirectPExecute = (\<lambda>d _. (True, d)),
      db_escape_string = (\<lambda>s. concat (map escape_char s)),
      cfg_GetIntDefault = (\<lambda>_ d. d),
      cfg_GetBoolDefault = (\<lambda>_ d. d),
      bb_uint8 = (\<lambda>v. [v]),
      bb_uint16 = (\<lambda>v. le_bytes 2 (unat v)),
      bb_uint32 = (\<lambda>v. le_bytes 4 (unat v)),
      bb_uint64 = (\<lambda>v. le_bytes 8 (unat v)),
      bb_float = (\<lambda>v. le_bytes 4 (unat v)),
      bb_string = (\<lambda>s. of_string s @ [0]),
      GetLocaleByName = (\<lambda>_. 0),
      IsIPAddrInNetwork = (\<lambda>net addr mask. net AND mask = addr AND mask),
      GetAddressString = (\<lambda>a p. to_decimal (unat a) @ '':'' @ to_decimal (unat p)),
      StrSplit = (\<lambda>s _. tokens s),
      inet_pton = (\<lambda>_. Some 0x7F000001),
      getaddrinfo = (\<lambda>_. None),
      SEC_PLAYER = 0,
      SEC_ADMINISTRATOR = 3\<rparr>"

section \<open>The laws hold\<close>

lemma num_bytes_le: "num_bytes n \<le> w \<longleftrightarrow> n < 256 ^ w"
proof (induction w arbitrary: n)
  case 0
  then show ?case by (subst num_bytes.simps) simp
next
  case (Suc w)
  have "n div 256 < 256 ^ w \<longleftrightarrow> n < 256 ^ Suc w"
    by (simp add: div_less_iff_less_mult mult.commute)
  with Suc [of "n div 256"] show ?case
    by (cases "n = 0") (simp_all add: num_bytes.simps [of n])
qed

lemma hex_digit_hex_char: "d < 16 \<Longrightarrow> hex_digit (hex_char d) = d"
  by (cases "d < 10") (simp_all add: hex_digit_def hex_char_def Let_def)

lemma hex_val_to_hex: "hex_val (to_hex n) = n"
proof (induction n rule: to_hex.induct)
  case (1 n)
  show ?case
  proof (cases "n < 16")
    case True
    then show ?thesis by (simp add: to_hex.simps [of n] hex_val_def hex_digit_hex_char)
  next
    case False
    with 1 have "hex_val (to_hex (n div 16)) = n div 16" by simp
    with False show ?thesis
      by (simp add: to_hex.simps [of n] hex_val_def hex_digit_hex_char)
  qed
qed

lemma hex_text_to_hex: "hex_text (to_hex n)"
proof (induction n rule: to_hex.induct)
  case (1 n)
  have "hex_text [hex_char d]" if "d < 16" for d
    using that by (cases "d < 10") (simp_all add: hex_text_def hex_char_def Let_def)
  with 1 show ?case by (auto simp: to_hex.simps [of n] hex_text_def)
qed

lemma example_ByteBuffer_laws [simp]: "ByteBuffer_laws (example_ext rnd one rows)"
  by (simp add: ByteBuffer_laws_def example_ext_def)

lemma example_BigNumber_laws [simp]: "BigNumber_laws (example_ext rnd one rows) id"
  by (simp add: BigNumber_laws_def example_ext_def num_bytes_le hex_val_to_hex hex_text_to_hex)

lemma example_Sha1_laws [simp]: "Sha1_laws (example_ext rnd one rows)"
  by (simp add: Sha1_laws_def example_ext_def fold_digest_def)

end
