(* ===== verification/RealmList.thy ===== *)
theory RealmList
  imports RealmSnapshot Example_Ext
begin

text \<open>
  \<open>src/Realm/RealmList.{h,cpp}\<close>: reading the realm table into a snapshot, the per-version
  lists, and the refresh.  The database, the resolver and \<open>StrSplit\<close> are external.
\<close>

section \<open>Addresses\<close>

definition ResolveRealmAddress :: "('bn, 'db) ext \<Rightarrow> string \<Rightarrow> uint16 \<Rightarrow> RealmAddress" where
  "ResolveRealmAddress x host p =
     (let hostOrderIp =
            (case inet_pton x host of
               Some a \<Rightarrow> a
             | None \<Rightarrow> (case getaddrinfo x host of Some a \<Rightarrow> a | None \<Rightarrow> 0))
      in \<lparr>ip = hostOrderIp, port = p, loopback = (drop_bit 24 hostOrderIp = 127)\<rparr>)"

section \<open>Versions\<close>

definition BelongsToVersion :: "uint32 \<Rightarrow> RealmVersion" where
  "BelongsToVersion b =
     (case FindClientBuildPolicy b of
        Some policy \<Rightarrow> realmVersion policy | None \<Rightarrow> REALM_VERSION_VANILLA)"

section \<open>Building a snapshot\<close>

definition zero_address :: RealmAddress where
  "zero_address = \<lparr>ip = 0, port = 0, loopback = False\<rparr>"

text \<open>What \<open>realms[name]\<close> creates when the key is new.\<close>

definition default_Realm :: Realm where
  "default_Realm = \<lparr>realm_name = [], ExternalAddress = zero_address, LocalAddress = zero_address,
     LocalSubnetMask = zero_address, icon = 0, realmflags = 0, timezone = 0, m_ID = 0,
     allowedSecurityLevel = 0, populationLevel = 0, realmbuilds = {},
     realmBuildInfo = \<lparr>build = 0, major_version = 0, minor_version = 0, bugfix_version = 0,
       hotfix_version = 0\<rparr>\<rparr>"

definition AddRealmToBuildList :: "RealmSnapshot \<Rightarrow> Realm \<Rightarrow> RealmSnapshot" where
  "AddRealmToBuildList snapshot realm =
     (let buildNumber = sint (Min (realmbuilds realm));
          v = BelongsToVersion (word_of_int buildNumber)
      in snapshot\<lparr>realmsByVersion :=
           (realmsByVersion snapshot)(v := realmsByVersion snapshot v @ [realm_name realm])\<rparr>)"

text \<open>The builds of the column: \<open>uint32(std::strtoul(token, NULL, 10))\<close> for each token.\<close>

definition insert_builds :: "('bn, 'db) ext \<Rightarrow> string \<Rightarrow> uint32 set \<Rightarrow> uint32 set" where
  "insert_builds x builds bs =
     foldl (\<lambda>acc tok. insert (ucast (strtoul tok)) acc) bs (StrSplit x builds '' '')"

text \<open>\<open>uint16 first_build = !realmbuilds.empty() ? *realmbuilds.begin() : 0\<close>\<close>

definition first_build :: "uint32 set \<Rightarrow> uint16" where
  "first_build bs = (if bs \<noteq> {} then ucast (Min bs) else 0)"

definition build_info_of :: "uint16 \<Rightarrow> RealmBuildInfo" where
  "build_info_of fb =
     (let unknown = \<lparr>build = int (unat fb), major_version = 0, minor_version = 0,
                      bugfix_version = 0, hotfix_version = 32\<rparr>
      in if fb = 0 then unknown
         else case FindBuildInfo fb of
           None \<Rightarrow> unknown
         | Some bInfo \<Rightarrow> if build bInfo = int (unat fb) then bInfo else unknown)"

definition UpdateRealm ::
  "('bn, 'db) ext \<Rightarrow> RealmSnapshot \<Rightarrow> uint32 \<Rightarrow> string \<Rightarrow> RealmAddress \<Rightarrow> RealmAddress \<Rightarrow>
   RealmAddress \<Rightarrow> uint8 \<Rightarrow> uint8 \<Rightarrow> uint8 \<Rightarrow> uint8 \<Rightarrow> uint32 \<Rightarrow> string \<Rightarrow> RealmSnapshot" where
  "UpdateRealm x snapshot ID nm address localAddr localSubmask ic flags tz level popu builds =
     (let realm = (case realms snapshot nm of None \<Rightarrow> default_Realm | Some r \<Rightarrow> r);
          realm = realm\<lparr>m_ID := ID, realm_name := nm, icon := ic, realmflags := flags,
                         timezone := tz, allowedSecurityLevel := level, populationLevel := popu\<rparr>;
          realm = realm\<lparr>realmbuilds := insert_builds x builds (realmbuilds realm)\<rparr>;
          fb = first_build (realmbuilds realm);
          snapshot = (if fb \<noteq> 0 then AddRealmToBuildList snapshot realm else snapshot);
          realm = realm\<lparr>realmBuildInfo := build_info_of fb\<rparr>;
          realm = realm\<lparr>ExternalAddress := address, LocalAddress := localAddr,
                         LocalSubnetMask := localSubmask\<rparr>
      in snapshot\<lparr>realms := (realms snapshot)(nm \<mapsto> realm)\<rparr>)"

definition allowed_flags :: uint8 where
  "allowed_flags = REALM_FLAG_OFFLINE OR REALM_FLAG_NEW_PLAYERS OR REALM_FLAG_RECOMMENDED OR
     REALM_FLAG_SPECIFYBUILD"

definition clamp_level :: "('bn, 'db) ext \<Rightarrow> uint8 \<Rightarrow> uint8" where
  "clamp_level x level = (if level \<le> SEC_ADMINISTRATOR x then level else SEC_ADMINISTRATOR x)"

text \<open>The body of the \<open>do ... while (result->NextRow())\<close> loop.\<close>

definition add_row :: "('bn, 'db) ext \<Rightarrow> RealmSnapshot \<Rightarrow> row \<Rightarrow> RealmSnapshot" where
  "add_row x snapshot flds =
     (let Id = GetUInt32 (flds ! 0);
          nm = GetString (flds ! 1);
          p = GetUInt32 (flds ! 5);
          ic = GetUInt8 (flds ! 6);
          flags = GetUInt8 (flds ! 7);
          tz = GetUInt8 (flds ! 8);
          level = GetUInt8 (flds ! 9);
          population = GetFloat (flds ! 10);
          builds = GetString (flds ! 11);
          externalAddr = ResolveRealmAddress x (GetString (flds ! 2)) (ucast p);
          localAddr = ResolveRealmAddress x (GetString (flds ! 3)) (ucast p);
          submask = ResolveRealmAddress x (GetString (flds ! 4)) 0;
          flags = (if flags AND NOT allowed_flags \<noteq> 0 then flags AND allowed_flags else flags)
      in UpdateRealm x snapshot Id nm externalAddr localAddr submask ic flags tz
           (clamp_level x level) population builds)"

definition realmlist_query :: string where
  "realmlist_query =
     ''SELECT `id`, `name`, `address`, `localAddress`, `localSubnetMask`, `port`, `icon`, '' @
     ''`realmflags`, `timezone`, `allowedSecurityLevel`, `population`, `realmbuilds` '' @
     ''FROM `realmlist` WHERE (`realmflags` & 1) = 0 ORDER BY `name`''"

definition BuildSnapshot :: "('bn, 'db) ext \<Rightarrow> 'db \<Rightarrow> RealmSnapshot" where
  "BuildSnapshot x d = foldl (add_row x) empty_snapshot (db_Query x d realmlist_query)"

section \<open>The realm list\<close>

record RealmList =
  m_snapshots :: RealmSnapshotStore
  m_refreshGate :: RealmRefreshGate

definition mk_RealmList :: RealmList where
  "mk_RealmList = \<lparr>m_snapshots = mk_RealmSnapshotStore, m_refreshGate = mk_RealmRefreshGate 0 0\<rparr>"

definition GetRealmsForBuild :: "RealmList \<Rightarrow> uint32 \<Rightarrow> RealmListView" where
  "GetRealmsForBuild rl b = mk_RealmListView (Load (m_snapshots rl)) (BelongsToVersion b)"

definition Initialize :: "('bn, 'db) ext \<Rightarrow> 'db \<Rightarrow> int \<Rightarrow> uint32 \<Rightarrow> RealmList \<Rightarrow> RealmList" where
  "Initialize x d now updateInterval rl =
     rl\<lparr>m_snapshots := Publish (BuildSnapshot x d) (m_snapshots rl),
        m_refreshGate := Reset updateInterval now (m_refreshGate rl)\<rparr>"

definition UpdateIfNeed :: "('bn, 'db) ext \<Rightarrow> 'db \<Rightarrow> int \<Rightarrow> RealmList \<Rightarrow> RealmList" where
  "UpdateIfNeed x d now rl =
     (case RunIfDue now (m_refreshGate rl) of (due, g) \<Rightarrow>
        if due
        then rl\<lparr>m_refreshGate := g, m_snapshots := Publish (BuildSnapshot x d) (m_snapshots rl)\<rparr>
        else rl\<lparr>m_refreshGate := g\<rparr>)"

definition realm_count :: "RealmList \<Rightarrow> uint32" where
  "realm_count rl = word_of_nat (card (dom (realms (Load (m_snapshots rl)))))"

section \<open>One row on its own\<close>

text \<open>
  A specification of the loop over the rows: the realm a row stands for when no earlier row
  has its name, and the version list it is entered in (\<open>add_row_fresh\<close>).
\<close>

definition row_name :: "row \<Rightarrow> string" where
  "row_name r = GetString (r ! 1)"

definition row_builds :: "('bn, 'db) ext \<Rightarrow> row \<Rightarrow> uint32 set" where
  "row_builds x r = (\<lambda>t. ucast (strtoul t)) ` set (StrSplit x (GetString (r ! 11)) '' '')"

definition row_realm :: "('bn, 'db) ext \<Rightarrow> row \<Rightarrow> Realm" where
  "row_realm x r =
     \<lparr>realm_name = row_name r,
      ExternalAddress = ResolveRealmAddress x (GetString (r ! 2)) (ucast (GetUInt32 (r ! 5))),
      LocalAddress = ResolveRealmAddress x (GetString (r ! 3)) (ucast (GetUInt32 (r ! 5))),
      LocalSubnetMask = ResolveRealmAddress x (GetString (r ! 4)) 0,
      icon = GetUInt8 (r ! 6),
      realmflags = GetUInt8 (r ! 7) AND allowed_flags,
      timezone = GetUInt8 (r ! 8),
      m_ID = GetUInt32 (r ! 0),
      allowedSecurityLevel = clamp_level x (GetUInt8 (r ! 9)),
      populationLevel = GetFloat (r ! 10),
      realmbuilds = row_builds x r,
      realmBuildInfo = build_info_of (first_build (row_builds x r))\<rparr>"

definition row_version :: "('bn, 'db) ext \<Rightarrow> row \<Rightarrow> RealmVersion option" where
  "row_version x r =
     (if first_build (row_builds x r) = 0 then None
      else Some (BelongsToVersion (Min (row_builds x r))))"

section \<open>Lemmas\<close>

lemma BelongsToVersion_mono:
  assumes "b \<in> set supported_builds" and "c \<in> set supported_builds" and "b \<le> c"
  shows "BelongsToVersion b \<le> BelongsToVersion c"
proof -
  obtain p q where p: "FindClientBuildPolicy b = Some p" and q: "FindClientBuildPolicy c = Some q"
    using assms(1,2) FindClientBuildPolicy_None_iff by (metis not_None_eq)
  with FindClientBuildPolicy_in [OF p] FindClientBuildPolicy_in [OF q] assms(3) show ?thesis
    using SupportedClientBuilds_mono [of p q] by (simp add: BelongsToVersion_def)
qed

lemma insert_builds_eq:
  "insert_builds x b bs = (\<lambda>t. ucast (strtoul t)) ` set (StrSplit x b '' '') \<union> bs"
proof -
  have "foldl (\<lambda>acc t. insert (f t) acc) s ts = f ` set ts \<union> s" for f :: "string \<Rightarrow> uint32" and s ts
    by (induction ts arbitrary: s) auto
  then show ?thesis by (simp add: insert_builds_def)
qed

text \<open>Masking only when a foreign bit is set is the same as masking always.\<close>

lemma mask_flags:
  "(if f AND NOT allowed_flags \<noteq> 0 then f AND allowed_flags else f) = f AND allowed_flags"
proof (cases "f AND NOT allowed_flags = 0")
  case True
  have "f AND allowed_flags = f"
  proof (rule bit_word_eqI)
    fix n assume "n < LENGTH(8)"
    have "\<not> (bit f n \<and> bit (NOT allowed_flags) n)"
      using True by (metis bit_and_iff bit_0_eq bot_apply bot_bool_def)
    then show "bit (f AND allowed_flags) n = bit f n"
      using \<open>n < LENGTH(8)\<close> by (auto simp: bit_and_iff bit_not_iff)
  qed
  with True show ?thesis by simp
qed simp

lemma BelongsToVersion_sint [simp]:
  "BelongsToVersion (word_of_int (sint b)) = BelongsToVersion b"
  by simp

lemma add_row_fresh:
  assumes "realms snap (row_name r) = None"
  shows "add_row x snap r =
    \<lparr>realms = (realms snap)(row_name r \<mapsto> row_realm x r),
     realmsByVersion = (case row_version x r of
        None \<Rightarrow> realmsByVersion snap
      | Some v \<Rightarrow> (realmsByVersion snap)(v := realmsByVersion snap v @ [row_name r]))\<rparr>"
  using assms
  by (cases snap)
     (simp add: add_row_def UpdateRealm_def Let_def mask_flags row_realm_def row_version_def
       row_builds_def insert_builds_eq row_name_def default_Realm_def AddRealmToBuildList_def)

lemma BuildSnapshot_rows:
  assumes "distinct (map row_name rows)"
  shows "realms (foldl (add_row x) empty_snapshot rows) =
           map_of (map (\<lambda>r. (row_name r, row_realm x r)) rows) \<and>
         (\<forall>v. realmsByVersion (foldl (add_row x) empty_snapshot rows) v =
           map row_name (filter (\<lambda>r. row_version x r = Some v) rows))"
  using assms
proof (induction rows rule: rev_induct)
  case Nil
  then show ?case by (simp add: empty_snapshot_def)
next
  case (snoc r rows)
  let ?s = "foldl (add_row x) empty_snapshot rows"
  from snoc have IH: "realms ?s = map_of (map (\<lambda>r. (row_name r, row_realm x r)) rows)"
    "\<And>v. realmsByVersion ?s v = map row_name (filter (\<lambda>r. row_version x r = Some v) rows)"
    by auto
  have fresh: "row_name r \<notin> row_name ` set rows" using snoc.prems by auto
  then have "realms ?s (row_name r) = None"
    by (simp add: IH(1) map_of_eq_None_iff image_image)
  note step = add_row_fresh [OF this, of x]
  have "map_of (map (\<lambda>r. (row_name r, row_realm x r)) rows) (row_name r) = None"
    using fresh by (simp add: map_of_eq_None_iff image_image)
  then have "(map_of (map (\<lambda>r. (row_name r, row_realm x r)) rows))(row_name r \<mapsto> row_realm x r) =
        map_of (map (\<lambda>r. (row_name r, row_realm x r)) (rows @ [r]))"
    by (auto simp: fun_eq_iff map_add_def split: option.split)
  then show ?case
    by (auto simp: step IH split: option.split)
qed

lemma view_list_rows:
  assumes "distinct (map row_name rows)"
  shows "view_list (mk_RealmListView (foldl (add_row x) empty_snapshot rows) v) =
         map (row_realm x) (filter (\<lambda>r. row_version x r = Some v) rows)"
proof -
  have "the (map_of (map (\<lambda>r. (row_name r, row_realm x r)) rows) (row_name r)) = row_realm x r"
    if "r \<in> set rows" for r
    using that assms by (subst map_of_is_SomeI [of _ _ "row_realm x r"]) (auto simp: o_def)
  then show ?thesis
    by (simp add: view_list_def mk_RealmListView_def BuildSnapshot_rows [OF assms])
qed

lemma Load_Publish [simp]: "Load (Publish snap st) = snap"
  by (rule store.load_publish)

lemma GetRealmsForBuild_UpdateIfNeed:
  "GetRealmsForBuild (UpdateIfNeed x d now rl) b =
     (if fst (RunIfDue now (m_refreshGate rl))
      then mk_RealmListView (BuildSnapshot x d) (BelongsToVersion b)
      else GetRealmsForBuild rl b)"
  by (simp add: GetRealmsForBuild_def UpdateIfNeed_def split: prod.split)

lemmas strtoul_eval = strtoul_def strtoul_digits_def isspace_def isdigit_def decimal_def digit_value_def

text \<open>Later builds belong to later versions, so the smallest build is one of the earliest version.\<close>

lemma row_version_earliest:
  assumes "row_builds x r \<noteq> {}" and "row_builds x r \<subseteq> set supported_builds"
  shows "row_version x r = Some (Min (BelongsToVersion ` row_builds x r))"
proof -
  have fin: "finite (row_builds x r)" by (simp add: row_builds_def)
  with assms have m: "Min (row_builds x r) \<in> set supported_builds" using Min_in by blast
  have "Min (BelongsToVersion ` row_builds x r) = BelongsToVersion (Min (row_builds x r))"
  proof (rule Min_eqI)
    fix v assume "v \<in> BelongsToVersion ` row_builds x r"
    then obtain b where "b \<in> row_builds x r" "v = BelongsToVersion b" by blast
    with fin m assms(2) show "BelongsToVersion (Min (row_builds x r)) \<le> v"
      by (auto intro: BelongsToVersion_mono)
  qed (use fin assms(1) in auto)
  moreover have "first_build (row_builds x r) \<noteq> 0"
    using m assms(1) by (auto simp: first_build_def supported_builds_def)
  ultimately show ?thesis by (simp add: row_version_def)
qed

section \<open>Properties\<close>

definition example_field :: "uint32 \<Rightarrow> string \<Rightarrow> field" where
  "example_field n s =
     \<lparr>GetUInt8 = ucast n, GetUInt32 = n, GetUInt64 = ucast n, GetString = s, GetFloat = n\<rparr>"

definition example_row :: "uint32 \<Rightarrow> string \<Rightarrow> string \<Rightarrow> row" where
  "example_row n nm builds =
     [example_field n [], example_field 0 nm, example_field 0 ''127.0.0.1'',
      example_field 0 ''127.0.0.1'', example_field 0 ''255.255.255.0'', example_field 8085 [],
      example_field 1 [], example_field 0x43 [], example_field 1 [], example_field 9 [],
      example_field 0 [], example_field 0 builds]"

text \<open>
  C31: what a client sees after a refresh is the table.  When no two rows have the same
  name, the list of realms for a client build, after a refresh that was due, is exactly
  the rows whose smallest listed build belongs to the client's version family, in the
  order of the rows, each with the row's data (flags masked, security level capped); a
  refresh that was not due leaves the list as it was.
\<close>
theorem realm_list_reflects_table:
  assumes "distinct (map row_name (db_Query x d realmlist_query))"
  shows "view_list (GetRealmsForBuild (UpdateIfNeed x d now rl) b) =
     (if fst (RunIfDue now (m_refreshGate rl))
      then map (row_realm x)
             (filter (\<lambda>r. row_version x r = Some (BelongsToVersion b)) (db_Query x d realmlist_query))
      else view_list (GetRealmsForBuild rl b))"
  using assms by (simp add: GetRealmsForBuild_UpdateIfNeed BuildSnapshot_def view_list_rows)

theorem realm_list_reflects_table_witness:
  "let x = example_ext id (\<lambda>_. None) [example_row 1 ''A'' ''5875'', example_row 2 ''B'' ''8606''] in
   map realm_name (view_list (GetRealmsForBuild
     (UpdateIfNeed x () 50 (Initialize x () 0 20 mk_RealmList)) 8606)) = [''B'']"
proof -
  let ?rows = "[example_row 1 ''A'' ''5875'', example_row 2 ''B'' ''8606'']"
  let ?x = "example_ext id (\<lambda>_. None) ?rows"
  have q: "db_Query ?x () realmlist_query = ?rows" by (simp add: example_ext_def)
  have d: "distinct (map row_name (db_Query ?x () realmlist_query))"
    unfolding q by (simp add: row_name_def example_row_def example_field_def)
  have builds: "row_builds ?x (example_row 1 ''A'' ''5875'') = {5875}"
    "row_builds ?x (example_row 2 ''B'' ''8606'') = {8606}"
    by (simp_all add: row_builds_def example_ext_def example_row_def example_field_def
      tokens.simps isspace_def strtoul_eval)
  have bv: "BelongsToVersion 5875 = REALM_VERSION_VANILLA" by code_simp
  have b: "BelongsToVersion 8606 = REALM_VERSION_TBC" by code_simp
  have v: "row_version ?x (example_row 1 ''A'' ''5875'') = Some REALM_VERSION_VANILLA"
    "row_version ?x (example_row 2 ''B'' ''8606'') = Some REALM_VERSION_TBC"
    by (simp_all add: row_version_def first_build_def builds b bv)
  have due: "fst (RunIfDue 50 (m_refreshGate (Initialize ?x () 0 20 mk_RealmList)))"
    by (simp add: RunIfDue_def Initialize_def Reset_def mk_RealmList_def mk_RealmRefreshGate_def)
  have "row_name (example_row 2 ''B'' ''8606'') = ''B''"
    by (simp add: row_name_def example_row_def example_field_def)
  then show ?thesis
    using realm_list_reflects_table [OF d, of 50 "Initialize ?x () 0 20 mk_RealmList" 8606]
    by (simp add: q v b due Let_def row_realm_def)
qed

text \<open>
  C40: to whom a realm with several builds is shown.  After a due refresh of a table without
  duplicate names, a realm whose column lists supported builds only is in the list for a
  client if and only if the client's version family is the earliest one among the listed
  builds, in whatever order the column lists them.  So "8606 6141" is shown to 1.12 clients and
  not to 2.4.3 clients.  (The comment at the declaration of \<open>AddRealmToBuildList\<close> says that the
  first build written decides, and the contrary of that example.)
\<close>
theorem smallest_build_decides:
  assumes "distinct (map (\<lambda>r. GetString (r ! 1)) (db_Query x d realmlist_query))"
    and "r \<in> set (db_Query x d realmlist_query)" and "fst (RunIfDue now (m_refreshGate rl))"
    and "builds = (\<lambda>t. ucast (strtoul t)) ` set (StrSplit x (GetString (r ! 11)) '' '')"
    and "builds \<noteq> {}" and "builds \<subseteq> set supported_builds"
  shows "GetString (r ! 1) \<in> realm_name ` set (view_list (GetRealmsForBuild (UpdateIfNeed x d now rl) b)) \<longleftrightarrow>
    BelongsToVersion b = Min (BelongsToVersion ` builds)"
proof -
  let ?rows = "db_Query x d realmlist_query"
  have names: "distinct (map row_name ?rows)" using assms(1) by (simp add: row_name_def [abs_def])
  have "view_list (GetRealmsForBuild (UpdateIfNeed x d now rl) b) =
      map (row_realm x) (filter (\<lambda>r. row_version x r = Some (BelongsToVersion b)) ?rows)"
    using assms(3) by (simp add: GetRealmsForBuild_UpdateIfNeed BuildSnapshot_def view_list_rows [OF names])
  then have "realm_name ` set (view_list (GetRealmsForBuild (UpdateIfNeed x d now rl) b)) =
      row_name ` {q \<in> set ?rows. row_version x q = Some (BelongsToVersion b)}"
    by (simp add: image_image row_realm_def)
  then have "GetString (r ! 1) \<in> realm_name ` set (view_list (GetRealmsForBuild (UpdateIfNeed x d now rl) b)) \<longleftrightarrow>
      row_version x r = Some (BelongsToVersion b)"
    using assms(2) names by (auto simp: distinct_map inj_on_def row_name_def)
  moreover have "row_version x r = Some (Min (BelongsToVersion ` builds))"
    using row_version_earliest [of x r] assms(4-6) by (simp add: row_builds_def)
  ultimately show ?thesis by auto
qed

theorem smallest_build_decides_witness:
  "let x = example_ext id (\<lambda>_. None) [example_row 1 ''A'' ''8606 6141''];
       rl = UpdateIfNeed x () 50 (Initialize x () 0 20 mk_RealmList) in
   ''A'' \<in> realm_name ` set (view_list (GetRealmsForBuild rl 6141)) \<and>
   ''A'' \<notin> realm_name ` set (view_list (GetRealmsForBuild rl 8606))"
proof -
  let ?r = "example_row 1 ''A'' ''8606 6141''" let ?x = "example_ext id (\<lambda>_. None) [?r]"
  let ?rl = "Initialize ?x () 0 20 mk_RealmList"
  have q: "db_Query ?x () realmlist_query = [?r]" by (simp add: example_ext_def)
  have nm: "GetString (?r ! 1) = ''A''" by (simp add: example_row_def example_field_def)
  have "set (StrSplit ?x (GetString (?r ! 11)) '' '') = {''8606'', ''6141''}"
    by (simp add: example_ext_def example_row_def example_field_def tokens.simps isspace_def)
  moreover have "strtoul ''8606'' = 8606" "strtoul ''6141'' = 6141" by (simp_all add: strtoul_eval)
  ultimately have b: "{8606, 6141} = (\<lambda>t. ucast (strtoul t)) ` set (StrSplit ?x (GetString (?r ! 11)) '' '')" by simp
  have v: "BelongsToVersion 8606 = REALM_VERSION_TBC" "BelongsToVersion 6141 = REALM_VERSION_VANILLA" by code_simp+
  then have m: "Min (BelongsToVersion ` {8606, 6141}) = REALM_VERSION_VANILLA"
    by (simp add: min_def less_eq_RealmVersion_def)
  have due: "fst (RunIfDue 50 (m_refreshGate ?rl))"
    by (simp add: RunIfDue_def Initialize_def Reset_def mk_RealmList_def mk_RealmRefreshGate_def)
  have "distinct (map (\<lambda>r. GetString (r ! 1)) (db_Query ?x () realmlist_query))" "?r \<in> set (db_Query ?x () realmlist_query)"
    by (simp_all add: q)
  moreover have "{8606, 6141} \<noteq> ({} :: uint32 set)" "{8606, 6141} \<subseteq> set supported_builds" by (simp_all add: supported_builds_def)
  ultimately have "''A'' \<in> realm_name ` set (view_list (GetRealmsForBuild (UpdateIfNeed ?x () 50 ?rl) c)) \<longleftrightarrow>
      BelongsToVersion c = REALM_VERSION_VANILLA" for c
    using smallest_build_decides [of ?x "()" ?r 50 ?rl "{8606, 6141}" c] due b unfolding m nm by blast
  then show ?thesis unfolding Let_def by (simp add: v)
qed

end
