(* ===== verification/ClientLocale.thy ===== *)
theory ClientLocale
  imports Prelude
begin

text \<open>
  \<open>src/Auth/ClientLocale.cpp\<close>: the reversed four-byte locale field of a challenge.
  \<open>char\<close> comparisons are comparisons of the character codes; the letters lie below
  128, where a signed and an unsigned \<open>char\<close> agree.
\<close>

definition in_range :: "char \<Rightarrow> char \<Rightarrow> char \<Rightarrow> bool" where
  "in_range lo hi c = ((of_char lo :: nat) \<le> of_char c \<and> (of_char c :: nat) \<le> of_char hi)"

definition ParseClientLocaleClaim :: "string \<Rightarrow> string option" where
  "ParseClientLocaleClaim wireLocale =
     (if length wireLocale \<noteq> 4 then None
      else
        let loc = rev wireLocale;
            canonical = in_range (CHR ''a'') (CHR ''z'') (loc ! 0) \<and>
                        in_range (CHR ''a'') (CHR ''z'') (loc ! 1) \<and>
                        in_range (CHR ''A'') (CHR ''Z'') (loc ! 2) \<and>
                        in_range (CHR ''A'') (CHR ''Z'') (loc ! 3)
        in if canonical then Some loc else None)"

definition is_lower :: "char \<Rightarrow> bool" where
  "is_lower c = in_range (CHR ''a'') (CHR ''z'') c"

definition is_upper :: "char \<Rightarrow> bool" where
  "is_upper c = in_range (CHR ''A'') (CHR ''Z'') c"

lemma length4_conv: "length xs = 4 \<longleftrightarrow> (\<exists>a b c d. xs = [a, b, c, d])"
  by (auto simp: numeral_eq_Suc length_Suc_conv)

lemma ParseClientLocaleClaim_Some_iff:
  "ParseClientLocaleClaim w = Some loc \<longleftrightarrow>
     (\<exists>a b c d. loc = [a, b, c, d] \<and> w = [d, c, b, a] \<and>
        is_lower a \<and> is_lower b \<and> is_upper c \<and> is_upper d)"
  by (auto simp: ParseClientLocaleClaim_def is_lower_def is_upper_def length4_conv Let_def)

text \<open>No quote, backslash, separator or NUL survives: every character of a claim is a letter.\<close>

lemma letter_code: "is_lower c \<or> is_upper c \<Longrightarrow> (65 :: nat) \<le> of_char c \<and> (of_char c :: nat) \<le> 122"
  by (auto simp: is_lower_def is_upper_def in_range_def)

lemma ParseClientLocaleClaim_letters:
  "ParseClientLocaleClaim w = Some loc \<Longrightarrow> c \<in> set loc \<Longrightarrow> is_lower c \<or> is_upper c"
  by (auto simp: ParseClientLocaleClaim_Some_iff)

section \<open>The accepted claims\<close>

text \<open>
  A locale claim is accepted exactly when the field, read backwards, is two lower-case
  letters followed by two upper-case letters, and then the claim is that reading
  (\<open>SUne\<close> gives \<open>enUS\<close>); reversing an accepted claim gives the wire field back.
  Fields of any other width are refused.
\<close>
lemma ParseClientLocaleClaim_spec:
  "ParseClientLocaleClaim w = Some loc \<longleftrightarrow>
     w = rev loc \<and> length loc = 4 \<and> list_all is_lower (take 2 loc) \<and> list_all is_upper (drop 2 loc)"
  by (auto simp: ParseClientLocaleClaim_Some_iff length4_conv)

end
