(* ===== verification/AuthSession.thy ===== *)
theory AuthSession
  imports ProtocolGuard PatchPolicy PatchTransfer RealmList ClientLocale
begin

text \<open>
  \<open>src/Auth/AuthSocket.{h,cpp}\<close>, the session's state and the operations the handlers
  are written with: the pending input (\<open>m_readBuf\<close>, \<open>m_readPos\<close>) and \<open>recv\<close>, the
  outgoing side, closing, the deadline, the constructor and destructor, and the access
  to the login database.

  The members of \<open>AuthSocket\<close> are kept in two records, the read buffer and the rest.
  The shared state of the process (the database, the realm list, the random source, the
  files, the clock, the two counters) is the record \<open>world\<close>.  Byte order conversion is
  the little-endian case, where it does nothing.
\<close>

section \<open>Faults and results\<close>

text \<open>
  What the C++ has no value for: reading outside a buffer, and a failed
  \<open>MANGOS_ASSERT\<close>.
\<close>

datatype fault = OutOfBounds | AssertionFailed

section \<open>The read buffer\<close>

record readbuf =
  m_readBuf :: bytes
  m_readPos :: nat

text \<open>\<open>m_readBuf.size() - m_readPos\<close> in \<open>size_t\<close>, which wraps around.\<close>

definition recv_len :: "readbuf \<Rightarrow> nat" where
  "recv_len rb =
     (if m_readPos rb \<le> length (m_readBuf rb) then length (m_readBuf rb) - m_readPos rb
      else 2 ^ 64 - (m_readPos rb - length (m_readBuf rb)))"

definition recv_soft :: "nat \<Rightarrow> readbuf \<Rightarrow> bytes option" where
  "recv_soft len rb =
     (if recv_len rb < len then None else Some (subbytes (m_readPos rb) len (m_readBuf rb)))"

definition recv_skip :: "nat \<Rightarrow> readbuf \<Rightarrow> readbuf" where
  "recv_skip len rb = rb\<lparr>m_readPos := m_readPos rb + len\<rparr>"

definition recv :: "nat \<Rightarrow> readbuf \<Rightarrow> (bytes \<times> readbuf) option" where
  "recv len rb =
     (case recv_soft len rb of None \<Rightarrow> None | Some b \<Rightarrow> Some (b, recv_skip len rb))"

text \<open>The bytes not consumed yet.\<close>

definition pending :: "readbuf \<Rightarrow> bytes" where
  "pending rb = drop (m_readPos rb) (m_readBuf rb)"

definition buf_ok :: "readbuf \<Rightarrow> bool" where
  "buf_ok rb = (m_readPos rb \<le> length (m_readBuf rb))"

lemma recv_len_pending: "buf_ok rb \<Longrightarrow> recv_len rb = length (pending rb)"
  by (simp add: recv_len_def pending_def buf_ok_def)

lemma recv_pending:
  assumes "buf_ok rb" and "len \<le> length (pending rb)"
  shows "recv len rb = Some (take len (pending rb), recv_skip len rb)"
  using assms
  by (simp add: recv_def recv_soft_def recv_len_pending) (simp add: subbytes_def pending_def)

lemma recv_skip_simps [simp]:
  "m_readBuf (recv_skip n rb) = m_readBuf rb" "m_readPos (recv_skip n rb) = m_readPos rb + n"
  "pending (recv_skip n rb) = drop n (pending rb)"
  "recv_skip a (recv_skip b rb) = recv_skip (b + a) rb"
  by (simp_all add: recv_skip_def pending_def add.commute add.left_commute)

lemma buf_ok_skip: "buf_ok rb \<Longrightarrow> n \<le> length (pending rb) \<Longrightarrow> buf_ok (recv_skip n rb)"
  by (simp add: buf_ok_def pending_def)

section \<open>The rest of the session\<close>

datatype eStatus =
    STATUS_CHALLENGE | STATUS_LOGON_PROOF | STATUS_RECON_PROOF | STATUS_PATCH
  | STATUS_AUTHED | STATUS_CLOSED

text \<open>
  \<open>m_sender\<close> and \<open>m_closer\<close> are the channels of the transport: whether they are set,
  and what the session itself sent through them (\<open>sent\<close>, one entry per call;
  \<open>closer_calls\<close>).
  \<open>transfers\<close> are the jobs handed to a streaming thread, which has its own copies of the
  channels: what it sends and whether it calls the closer is the result of \<open>run_job\<close>, and is
  not counted here.
\<close>

record 'bn sock =
  m_sender :: bool
  m_closer :: bool
  m_flowControl :: "(nat \<Rightarrow> bool) option"
  m_closed :: bool
  sent :: "bytes list"
  closer_calls :: nat
  remote_address :: string
  srp_N :: 'bn
  srp_s :: 'bn
  srp_g :: 'bn
  srp_v :: 'bn
  srp_b :: 'bn
  srp_B :: 'bn
  srp_K :: 'bn
  reconnectProof :: 'bn
  status :: eStatus
  m_authDeadline :: Deadline
  login :: string
  safelogin :: string
  localizationName :: string
  client_os :: string
  patchPolicy :: PatchPolicy
  m_patchArtifact :: "PatchArtifact option"
  transfers :: "xfer_job list"
  client_build :: uint16
  accountSecurityLevel :: uint8

text \<open>\<open>sql_log\<close> records every statement given to the database, in order.\<close>

record 'db world =
  login_db :: 'db
  sql_log :: "sql list"
  rand_calls :: nat
  realm_list :: RealmList
  wall_time :: int
  files :: filesystem
  s_connections :: uint32
  s_authed :: uint32

section \<open>Construction and destruction\<close>

definition srp_prime :: string where
  "srp_prime = ''894B645E89E1535BBDAD5B8B290650530801B18EBFBF5E8FAB3C82872A3E9BB7''"

lemma hex_text_srp_prime [simp]: "hex_text srp_prime"
  by (simp add: hex_text_def srp_prime_def)

definition mk_AuthSocket ::
  "('bn, 'db) ext \<Rightarrow> int \<Rightarrow> int \<Rightarrow> PatchPolicy \<Rightarrow> 'db world \<Rightarrow>
     readbuf \<times> 'bn sock \<times> 'db world" where
  "mk_AuthSocket x now authTimeout policy w =
     (\<lparr>m_readBuf = [], m_readPos = 0\<rparr>,
      \<lparr>m_sender = False, m_closer = False, m_flowControl = None, m_closed = False,
       sent = [], closer_calls = 0, remote_address = ''<unknown>'',
       srp_N = bn_SetHexStr x srp_prime, srp_s = bn_default x, srp_g = bn_SetDword x 7,
       srp_v = bn_default x, srp_b = bn_default x, srp_B = bn_default x, srp_K = bn_default x,
       reconnectProof = bn_default x, status = STATUS_CHALLENGE,
       m_authDeadline = mk_Deadline now authTimeout, login = [], safelogin = [],
       localizationName = [], client_os = [], patchPolicy = policy, m_patchArtifact = None,
       transfers = [], client_build = 0, accountSecurityLevel = SEC_PLAYER x\<rparr>,
      w\<lparr>s_connections := s_connections w + 1\<rparr>)"

definition destroy_AuthSocket :: "'bn sock \<Rightarrow> 'db world \<Rightarrow> 'db world" where
  "destroy_AuthSocket s w =
     (let w = (if status s = STATUS_AUTHED then w\<lparr>s_authed := s_authed w - 1\<rparr> else w)
      in w\<lparr>s_connections := s_connections w - 1\<rparr>)"

definition setPeerAddress :: "string \<Rightarrow> 'bn sock \<Rightarrow> 'bn sock" where
  "setPeerAddress addr s = s\<lparr>remote_address := addr\<rparr>"

definition setSender :: "bool \<Rightarrow> 'bn sock \<Rightarrow> 'bn sock" where
  "setSender sender s = s\<lparr>m_sender := sender\<rparr>"

definition setCloser :: "bool \<Rightarrow> 'bn sock \<Rightarrow> 'bn sock" where
  "setCloser closer s = s\<lparr>m_closer := closer\<rparr>"

definition setFlowControl :: "(nat \<Rightarrow> bool) option \<Rightarrow> 'bn sock \<Rightarrow> 'bn sock" where
  "setFlowControl fc s = s\<lparr>m_flowControl := fc\<rparr>"

section \<open>Sending and closing\<close>

text \<open>The buffer given to \<open>send\<close> is never null; its result is not used by any caller.\<close>

definition send :: "bytes \<Rightarrow> 'bn sock \<Rightarrow> bool \<times> 'bn sock" where
  "send buf s =
     (if buf = [] then (True, s)
      else if m_closed s \<or> \<not> m_sender s then (False, s)
      else (True, s\<lparr>sent := sent s @ [buf]\<rparr>))"

definition deactivate_auth_deadline :: "'bn sock \<Rightarrow> 'bn sock" where
  "deactivate_auth_deadline s = s\<lparr>m_authDeadline := deactivate (m_authDeadline s)\<rparr>"

definition close_connection :: "'bn sock \<Rightarrow> 'bn sock" where
  "close_connection s =
     (let s = deactivate_auth_deadline s in
      if \<not> m_closed s
      then (let s = s\<lparr>m_closed := True\<rparr> in
            if m_closer s then s\<lparr>closer_calls := closer_calls s + 1\<rparr> else s)
      else s)"

definition onClose :: "'bn sock \<Rightarrow> 'bn sock" where
  "onClose s = (deactivate_auth_deadline s)\<lparr>m_closed := True\<rparr>"

definition ExpireAuthentication :: "int \<Rightarrow> 'bn sock \<Rightarrow> bool \<times> 'bn sock" where
  "ExpireAuthentication now s =
     (if \<not> expired (m_authDeadline s) now then (False, s) else (True, close_connection s))"

fun stream_state :: "eStatus \<Rightarrow> StreamState" where
  "stream_state STATUS_CHALLENGE = Challenge"
| "stream_state STATUS_LOGON_PROOF = LogonProof"
| "stream_state STATUS_RECON_PROOF = ReconnectProof"
| "stream_state STATUS_PATCH = Patch"
| "stream_state STATUS_AUTHED = Authenticated"
| "stream_state STATUS_CLOSED = Closed"

text \<open>What the transport asks of a session; \<open>onConnect\<close> has no bytes to send.\<close>

definition is_closed :: "'bn sock \<Rightarrow> bool" where
  "is_closed s = m_closed s"

definition onConnect :: "'bn sock \<Rightarrow> bytes \<times> 'bn sock" where
  "onConnect s = ([], s)"

text \<open>The two counters, as the console title reads them.\<close>

definition GetConnectionCount :: "'db world \<Rightarrow> uint32" where
  "GetConnectionCount w = s_connections w"

definition GetAuthWaitingCount :: "'db world \<Rightarrow> uint32" where
  "GetAuthWaitingCount w = s_authed w"

section \<open>The login database\<close>

text \<open>Every statement goes through one of these; \<open>c_string\<close> is \<open>c_str()\<close> of a string argument.\<close>

definition c_string :: "string \<Rightarrow> string" where
  "c_string s = takeWhile (\<lambda>c. c \<noteq> CHR 0x00) s"

definition PQuery :: "('bn, 'db) ext \<Rightarrow> sql \<Rightarrow> 'db world \<Rightarrow> row option \<times> 'db world" where
  "PQuery x q w = (db_PQuery x (login_db w) q, w\<lparr>sql_log := sql_log w @ [q]\<rparr>)"

definition PExecute :: "('bn, 'db) ext \<Rightarrow> sql \<Rightarrow> 'db world \<Rightarrow> 'db world" where
  "PExecute x q w =
     w\<lparr>login_db := db_PExecute x (login_db w) q, sql_log := sql_log w @ [q]\<rparr>"

definition DirectPExecute :: "('bn, 'db) ext \<Rightarrow> sql \<Rightarrow> 'db world \<Rightarrow> bool \<times> 'db world" where
  "DirectPExecute x q w =
     (case db_DirectPExecute x (login_db w) q of (ok, d) \<Rightarrow>
        (ok, w\<lparr>login_db := d, sql_log := sql_log w @ [q]\<rparr>))"

text \<open>\<open>BigNumber::SetRand\<close>.\<close>

definition SetRand :: "('bn, 'db) ext \<Rightarrow> nat \<Rightarrow> 'db world \<Rightarrow> 'bn \<times> 'db world" where
  "SetRand x bits w = (bn_SetRand x (rand_calls w) bits, w\<lparr>rand_calls := rand_calls w + 1\<rparr>)"

text \<open>\<open>s_authed.fetch_add(1)\<close>\<close>

definition count_authed :: "'db world \<Rightarrow> 'db world" where
  "count_authed w = w\<lparr>s_authed := s_authed w + 1\<rparr>"

end
