(* ===== verification/Srp.thy ===== *)
theory Srp
  imports AuthSession
begin

text \<open>
  The SRP6 arithmetic of \<open>src/Auth/AuthSocket.cpp\<close>: the verifier made from a stored
  password hash (\<open>_SetVSFields\<close>), the session key and the proofs (the computations of
  \<open>_HandleLogonProof\<close>, in its order), and \<open>SendProof\<close>.  Every quantity is hashed at the
  width the protocol fixes.
\<close>

abbreviation SRP_EPHEMERAL_WIDTH :: nat where "SRP_EPHEMERAL_WIDTH \<equiv> 32"
abbreviation SRP_SESSION_KEY_WIDTH :: nat where "SRP_SESSION_KEY_WIDTH \<equiv> 40"
abbreviation SRP_GENERATOR_WIDTH :: nat where "SRP_GENERATOR_WIDTH \<equiv> 1"
abbreviation SRP_RECONNECT_WIDTH :: nat where "SRP_RECONNECT_WIDTH \<equiv> 16"
abbreviation SHA_DIGEST_LENGTH :: nat where "SHA_DIGEST_LENGTH \<equiv> 20"
abbreviation s_BYTE_SIZE :: nat where "s_BYTE_SIZE \<equiv> 32"

text \<open>
  The first \<open>width\<close> bytes of the buffer that \<open>AsByteArray(width)\<close> returns: no caller reads
  more.
\<close>

definition AsByteArray :: "('bn, 'db) ext \<Rightarrow> 'bn \<Rightarrow> nat \<Rightarrow> bytes" where
  "AsByteArray x v width = take width (bn_AsByteArray x v width)"

text \<open>The chunk that \<open>UpdateFixed\<close> hands to the hash.\<close>

definition UpdateFixed :: "('bn, 'db) ext \<Rightarrow> 'bn \<Rightarrow> nat \<Rightarrow> bytes" where
  "UpdateFixed x v width = AsByteArray x v width"

text \<open>A single quote, which ends or begins an SQL string inside a format string.\<close>

definition sq :: string where
  "sq = [CHR 0x27]"

section \<open>The verifier\<close>

definition sql_set_verifier :: string where
  "sql_set_verifier = ''UPDATE `account` SET `v` = '' @ sq @ ''%s'' @ sq @ '', `s` = '' @ sq @
     ''%s'' @ sq @ '' WHERE `username` = '' @ sq @ ''%s'' @ sq"

text \<open>\<open>mDigest\<close> of \<open>_SetVSFields\<close>: the stored hash as twenty bytes, most significant first.\<close>

definition stored_digest :: "('bn, 'db) ext \<Rightarrow> string \<Rightarrow> bytes" where
  "stored_digest x rI =
     (let I = bn_SetHexStr x (c_string rI);
          mDigest = (if bn_GetNumBytes x I \<le> SHA_DIGEST_LENGTH
                     then AsByteArray x I SHA_DIGEST_LENGTH
                     else replicate SHA_DIGEST_LENGTH 0)
      in rev mDigest)"

definition private_key :: "('bn, 'db) ext \<Rightarrow> 'bn \<Rightarrow> string \<Rightarrow> 'bn" where
  "private_key x salt rI =
     bn_SetBinary x (sha1 x [AsByteArray x salt s_BYTE_SIZE, stored_digest x rI])"

definition SetVSFields ::
  "('bn, 'db) ext \<Rightarrow> string \<Rightarrow> 'bn sock \<Rightarrow> 'db world \<Rightarrow> 'bn sock \<times> 'db world" where
  "SetVSFields x rI s w =
     (let (salt, w) = SetRand x (s_BYTE_SIZE * 8) w;
          s = s\<lparr>srp_s := salt\<rparr>;
          s = s\<lparr>srp_v := bn_ModExp x (srp_g s) (private_key x salt rI) (srp_N s)\<rparr>;
          w = PExecute x (sql_set_verifier,
                [SqlS (bn_AsHexStr x (srp_v s)), SqlS (bn_AsHexStr x (srp_s s)),
                 SqlS (c_string (safelogin s))]) w
      in (s, w))"

section \<open>The session key and the proofs\<close>

definition scrambler :: "('bn, 'db) ext \<Rightarrow> 'bn \<Rightarrow> 'bn \<Rightarrow> 'bn" where
  "scrambler x A B = bn_SetBinary x
     (sha1 x [UpdateFixed x A SRP_EPHEMERAL_WIDTH, UpdateFixed x B SRP_EPHEMERAL_WIDTH])"

definition server_secret :: "('bn, 'db) ext \<Rightarrow> 'bn sock \<Rightarrow> 'bn \<Rightarrow> 'bn" where
  "server_secret x s A =
     (let u = scrambler x A (srp_B s)
      in bn_ModExp x (bn_mul x A (bn_ModExp x (srp_v s) u (srp_N s))) (srp_b s) (srp_N s))"

text \<open>\<open>vK\<close>: the digests of the even and the odd bytes of the thirty-two bytes of \<open>S\<close>, interleaved.\<close>

definition SHA_Interleave :: "('bn, 'db) ext \<Rightarrow> bytes \<Rightarrow> bytes" where
  "SHA_Interleave x t =
     (let even_digest = sha1 x [map (\<lambda>i. t ! (i * 2)) [0..<16]];
          odd_digest = sha1 x [map (\<lambda>i. t ! (i * 2 + 1)) [0..<16]]
      in concat (map (\<lambda>i. [even_digest ! i, odd_digest ! i]) [0..<20]))"

definition interleave :: "('bn, 'db) ext \<Rightarrow> 'bn \<Rightarrow> bytes" where
  "interleave x S = SHA_Interleave x (AsByteArray x S SRP_EPHEMERAL_WIDTH)"

definition session_key :: "('bn, 'db) ext \<Rightarrow> 'bn \<Rightarrow> 'bn" where
  "session_key x S = bn_SetBinary x (interleave x S)"

definition group_hash :: "('bn, 'db) ext \<Rightarrow> 'bn \<Rightarrow> 'bn \<Rightarrow> 'bn" where
  "group_hash x N g =
     (let hN = sha1 x [UpdateFixed x N SRP_EPHEMERAL_WIDTH];
          hg = sha1 x [UpdateFixed x g SRP_GENERATOR_WIDTH]
      in bn_SetBinary x (map (\<lambda>i. hN ! i XOR hg ! i) [0..<20]))"

definition client_proof ::
  "('bn, 'db) ext \<Rightarrow> 'bn \<Rightarrow> 'bn \<Rightarrow> string \<Rightarrow> 'bn \<Rightarrow> 'bn \<Rightarrow> 'bn \<Rightarrow> 'bn \<Rightarrow> 'bn" where
  "client_proof x N g name salt A B K = bn_SetBinary x
     (sha1 x [UpdateFixed x (group_hash x N g) SHA_DIGEST_LENGTH,
              sha1 x [of_string name],
              UpdateFixed x salt s_BYTE_SIZE,
              UpdateFixed x A SRP_EPHEMERAL_WIDTH,
              UpdateFixed x B SRP_EPHEMERAL_WIDTH,
              UpdateFixed x K SRP_SESSION_KEY_WIDTH])"

definition server_proof :: "('bn, 'db) ext \<Rightarrow> 'bn \<Rightarrow> 'bn \<Rightarrow> 'bn \<Rightarrow> bytes" where
  "server_proof x A M K =
     sha1 x [UpdateFixed x A SRP_EPHEMERAL_WIDTH, UpdateFixed x M SHA_DIGEST_LENGTH,
             UpdateFixed x K SRP_SESSION_KEY_WIDTH]"

section \<open>Sending the server's proof\<close>

definition ACCOUNT_FLAG_GM :: uint32 where "ACCOUNT_FLAG_GM = 0x00000001"
definition ACCOUNT_FLAG_TRIAL :: uint32 where "ACCOUNT_FLAG_TRIAL = 0x00000008"
definition ACCOUNT_FLAG_PROPASS :: uint32 where "ACCOUNT_FLAG_PROPASS = 0x00800000"

text \<open>The builds of the first \<open>case\<close> group of \<open>SendProof\<close> and \<open>LoadRealmlist\<close>.\<close>

definition is_vanilla_build :: "uint16 \<Rightarrow> bool" where
  "is_vanilla_build b = (b = 5875 \<or> b = 6005 \<or> b = 6141)"

definition SendProof :: "bytes \<Rightarrow> 'bn sock \<Rightarrow> 'bn sock" where
  "SendProof digest s =
     (if is_vanilla_build (client_build s)
      then snd (send ([cmd_code CMD_AUTH_LOGON_PROOF, 0] @ digest @ le_bytes 4 0) s)
      else snd (send ([cmd_code CMD_AUTH_LOGON_PROOF, 0] @ digest @
             le_bytes 4 (unat ACCOUNT_FLAG_PROPASS) @ le_bytes 4 0 @ le_bytes 2 0) s))"

end
