(* ===== verification/PatchSession.thy ===== *)
theory PatchSession
  imports Srp
begin

text \<open>
  The patch side of \<open>src/Auth/AuthSocket.cpp\<close>: refusing a version, offering an archive
  and the three \<open>CMD_XFER_*\<close> commands.  A handler is its reading part, on the read
  buffer, followed by its body, on the rest of the session; the body is a definition of
  its own.
\<close>

text \<open>The outcome of a handler's body, and the handler around it.\<close>

type_synonym ('bn, 'db) outcome = "fault + (bool \<times> 'bn sock \<times> 'db world)"

definition with_buffer ::
  "readbuf \<Rightarrow> ('bn, 'db) outcome \<Rightarrow> fault + (bool \<times> readbuf \<times> 'bn sock \<times> 'db world)" where
  "with_buffer rb r =
     (case r of Inl e \<Rightarrow> Inl e | Inr (ok, s, w) \<Rightarrow> Inr (ok, rb, s, w))"

lemma with_buffer_Inr [simp]: "with_buffer rb (Inr (ok, s, w)) = Inr (ok, rb, s, w)"
  by (simp add: with_buffer_def)

section \<open>Refusing and offering\<close>

definition SendInvalidVersion :: "('bn, 'db) ext \<Rightarrow> 'bn sock \<Rightarrow> 'bn sock" where
  "SendInvalidVersion x s =
     snd (send (bb_uint8 x (cmd_code CMD_AUTH_LOGON_CHALLENGE) @ bb_uint8 x 0x00 @
                bb_uint8 x (result_code WOW_FAIL_VERSION_INVALID)) s)"

definition patch_path :: "uint16 \<Rightarrow> string \<Rightarrow> string" where
  "patch_path b loc = ''./patches/'' @ to_decimal (unat b) @ loc @ ''.mpq''"

definition xfer_init :: "PatchArtifact \<Rightarrow> bytes" where
  "xfer_init artifact =
     [cmd_code CMD_XFER_INITIATE, 5] @ of_string ''Patch'' @
     le_bytes 8 (unat (m_size artifact)) @ m_digest artifact"

definition OfferPatch ::
  "('bn, 'db) ext \<Rightarrow> 'bn sock \<Rightarrow> 'db world \<Rightarrow> bool \<times> 'bn sock \<times> 'db world" where
  "OfferPatch x s w =
     (case Open (md5 x) (files w) (patch_path (client_build s) (localizationName s)) of
        None \<Rightarrow> (True, SendInvalidVersion x s, w)
      | Some artifact \<Rightarrow>
          let s = s\<lparr>m_patchArtifact := Some artifact\<rparr>;
              s = snd (send [cmd_code CMD_AUTH_LOGON_PROOF, result_code WOW_FAIL_VERSION_UPDATE] s);
              s = snd (send (xfer_init artifact) s);
              s = s\<lparr>status := STATUS_PATCH\<rparr>
          in (True, deactivate_auth_deadline s, w))"

section \<open>The transfer commands\<close>

text \<open>
  \<open>BeginPatchStream\<close>: the archive is moved out of the session in any case; when the
  transfer is accepted a thread owns it, and has copies of the session's channels.
\<close>

definition BeginPatchStream :: "uint64 \<Rightarrow> 'bn sock \<Rightarrow> bool \<times> 'bn sock" where
  "BeginPatchStream startOffset s =
     (case m_patchArtifact s of
        None \<Rightarrow> (False, close_connection s)
      | Some artifact \<Rightarrow>
          let s = s\<lparr>status := STATUS_CLOSED, m_patchArtifact := None\<rparr> in
          case StartPatchTransfer (m_sender s) (m_closer s) (m_flowControl s) (Some artifact) startOffset of
            None \<Rightarrow> (False, close_connection s)
          | Some job \<Rightarrow> (True, s\<lparr>transfers := transfers s @ [job]\<rparr>))"

definition xfer_body :: "uint64 \<Rightarrow> 'bn sock \<Rightarrow> 'db world \<Rightarrow> ('bn, 'db) outcome" where
  "xfer_body startOffset s w =
     (case BeginPatchStream startOffset s of (ok, s) \<Rightarrow> Inr (ok, s, w))"

definition HandleXferAccept ::
  "readbuf \<Rightarrow> 'bn sock \<Rightarrow> 'db world \<Rightarrow> fault + (bool \<times> readbuf \<times> 'bn sock \<times> 'db world)" where
  "HandleXferAccept rb s w = with_buffer (recv_skip AuthXferAcceptSize rb) (xfer_body 0 s w)"

text \<open>\<open>start_pos\<close> is left as it is when \<open>recv\<close> fails; it cannot, the length was tested.\<close>

definition HandleXferResume ::
  "readbuf \<Rightarrow> 'bn sock \<Rightarrow> 'db world \<Rightarrow> fault + (bool \<times> readbuf \<times> 'bn sock \<times> 'db world)" where
  "HandleXferResume rb s w =
     (if recv_len rb < AuthXferResumeSize then Inr (False, rb, s, w)
      else case recv 8 (recv_skip (AuthXferResumeSize - 8) rb) of
        None \<Rightarrow> Inl OutOfBounds
      | Some (raw, rb) \<Rightarrow> with_buffer rb (xfer_body (word_of_nat (le_val raw)) s w))"

definition cancel_body :: "'bn sock \<Rightarrow> 'db world \<Rightarrow> ('bn, 'db) outcome" where
  "cancel_body s w = Inr (True, close_connection s, w)"

definition HandleXferCancel ::
  "readbuf \<Rightarrow> 'bn sock \<Rightarrow> 'db world \<Rightarrow> fault + (bool \<times> readbuf \<times> 'bn sock \<times> 'db world)" where
  "HandleXferCancel rb s w = with_buffer (recv_skip AuthXferCancelSize rb) (cancel_body s w)"

end
