(* ===== verification/LogonSession.thy ===== *)
theory LogonSession
  imports PatchSession
begin

text \<open>
  The logon handlers of \<open>src/Auth/AuthSocket.cpp\<close>: \<open>_HandleLogonChallenge\<close> and
  \<open>_HandleLogonProof\<close>, each as its reading part and its body; the body is split at the
  branches of the code.
\<close>

section \<open>Reading a challenge\<close>

text \<open>
  The part both challenge handlers begin with (\<open>sizeof(sAuthLogonChallenge_C)\<close> is 35).
  \<open>Inl\<close>: the handler returns \<open>false\<close>.  \<open>Inr\<close>: \<open>buf\<close>, the whole packet and a terminating
  zero.  The results of \<open>recv\<close> are not looked at, as in the source.
\<close>

definition recv_challenge :: "readbuf \<Rightarrow> readbuf + (bytes \<times> readbuf)" where
  "recv_challenge rb =
     (if recv_len rb < 35 then Inl rb
      else
        let (header, rb) = (case recv 4 rb of None \<Rightarrow> (replicate 4 0, rb) | Some r \<Rightarrow> r);
            remaining = unat (le16 (header ! 2) (header ! 3))
        in
          if remaining < 35 - 4 \<or> recv_len rb < remaining then Inl rb
          else
            let (body, rb) = (case recv remaining rb of
                   None \<Rightarrow> (replicate remaining 0, rb) | Some r \<Rightarrow> r)
            in Inr (header @ body @ [0], rb))"

text \<open>
  The fields of \<open>sAuthLogonChallenge_C\<close> that are read.  How far three of the reads go depends
  on the input, and they leave the buffer (\<open>None\<close>) when it does not stop them: \<open>_os\<close> and the
  debug message read C strings, from \<open>os\<close> and from \<open>I\<close>, and the account name is read in the
  length of the byte \<open>I_len\<close>.  The other fields are at fixed places before \<open>I\<close>, in any buffer
  that the read of the account name does not leave.
\<close>

definition ch_build :: "bytes \<Rightarrow> uint16" where
  "ch_build buf = le16 (buf ! 11) (buf ! 12)"

definition ch_os :: "bytes \<Rightarrow> string option" where
  "ch_os buf = c_str_at 17 buf"

definition ch_I :: "bytes \<Rightarrow> string option" where
  "ch_I buf = c_str_at 34 buf"

definition ch_country :: "bytes \<Rightarrow> string" where
  "ch_country buf = to_string (subbytes 21 4 buf)"

definition ch_login :: "bytes \<Rightarrow> string option" where
  "ch_login buf =
     (let I_len = unat (buf ! 33) in
      if 34 + I_len \<le> length buf then Some (to_string (subbytes 34 I_len buf)) else None)"

section \<open>The logon challenge\<close>

definition sql_ip_banned :: string where
  "sql_ip_banned = ''SELECT `unbandate` FROM `ip_banned` WHERE '' @
     ''(`unbandate` = `bandate` OR `unbandate` > UNIX_TIMESTAMP()) AND `ip` = '' @ sq @ ''%s'' @ sq"

definition sql_account :: string where
  "sql_account = ''SELECT `sha_pass_hash`,`id`,`locked`,`last_ip`,`gmlevel`,`v`,`s` '' @
     ''FROM `account` WHERE `username` = '' @ sq @ ''%s'' @ sq"

definition sql_account_banned :: string where
  "sql_account_banned = ''SELECT `bandate`,`unbandate` FROM `account_banned` WHERE '' @
     ''`id` = %u AND `active` = 1 AND (`unbandate` > UNIX_TIMESTAMP() OR `unbandate` = `bandate`)''"

text \<open>The success branch: salt and verifier, \<open>b\<close> and \<open>B\<close>, and the rest of the packet.\<close>

definition challenge_srp ::
  "('bn, 'db) ext \<Rightarrow> row \<Rightarrow> string option \<Rightarrow> 'bn sock \<Rightarrow> 'db world \<Rightarrow>
     fault + (bytes \<times> 'bn sock \<times> 'db world)" where
  "challenge_srp x acct clientLocale s w =
     (let rI = GetString (acct ! 0);
          databaseV = GetString (acct ! 5);
          databaseS = GetString (acct ! 6);
          (s, w) = (if length databaseV \<noteq> s_BYTE_SIZE * 2 \<or> length databaseS \<noteq> s_BYTE_SIZE * 2
                    then SetVSFields x rI s w
                    else (s\<lparr>srp_s := bn_SetHexStr x (c_string databaseS),
                             srp_v := bn_SetHexStr x (c_string databaseV)\<rparr>, w));
          (b, w) = SetRand x (19 * 8) w;
          s = s\<lparr>srp_b := b\<rparr>;
          gmod = bn_ModExp x (srp_g s) (srp_b s) (srp_N s);
          s = s\<lparr>srp_B := bn_mod x (bn_add x (bn_mul x (srp_v s) (bn_SetDword x 3)) gmod) (srp_N s)\<rparr>
      in
        if \<not> bn_GetNumBytes x gmod \<le> 32 then Inl AssertionFailed
        else
          let (unk3, w) = SetRand x (16 * 8) w;
              pkt = bb_uint8 x (result_code WOW_SUCCESS) @
                    AsByteArray x (srp_B s) SRP_EPHEMERAL_WIDTH @
                    bb_uint8 x (word_of_nat SRP_GENERATOR_WIDTH) @
                    AsByteArray x (srp_g s) SRP_GENERATOR_WIDTH @
                    bb_uint8 x (word_of_nat SRP_EPHEMERAL_WIDTH) @
                    AsByteArray x (srp_N s) SRP_EPHEMERAL_WIDTH @
                    AsByteArray x (srp_s s) s_BYTE_SIZE @
                    AsByteArray x unk3 SRP_RECONNECT_WIDTH;
              securityFlags = (0 :: uint8);
              pkt = pkt @ bb_uint8 x securityFlags;
              pkt = (if securityFlags AND 0x01 \<noteq> 0
                     then pkt @ bb_uint32 x 0 @ bb_uint64 x 0 @ bb_uint64 x 0 else pkt);
              pkt = (if securityFlags AND 0x02 \<noteq> 0
                     then pkt @ bb_uint8 x 0 @ bb_uint8 x 0 @ bb_uint8 x 0 @ bb_uint8 x 0 @ bb_uint64 x 0
                     else pkt);
              pkt = (if securityFlags AND 0x04 \<noteq> 0 then pkt @ bb_uint8 x 1 else pkt);
              s = s\<lparr>accountSecurityLevel := clamp_level x (GetUInt8 (acct ! 4)),
                     localizationName := (case clientLocale of None \<Rightarrow> [] | Some l \<Rightarrow> l),
                     status := STATUS_LOGON_PROOF\<rparr>
          in Inr (pkt, s, w))"

text \<open>An account was found: locked to another address, banned, or let through.\<close>

definition challenge_account ::
  "('bn, 'db) ext \<Rightarrow> row \<Rightarrow> string option \<Rightarrow> 'bn sock \<Rightarrow> 'db world \<Rightarrow>
     fault + (bytes \<times> 'bn sock \<times> 'db world)" where
  "challenge_account x acct clientLocale s w =
     (if GetUInt8 (acct ! 2) = 1 \<and> c_string (GetString (acct ! 3)) \<noteq> c_string (remote_address s)
      then Inr (bb_uint8 x (result_code (LockedAccountResultForBuild (ucast (client_build s)))), s, w)
      else
        let (banresult, w) = PQuery x (sql_account_banned, [SqlU (GetUInt32 (acct ! 1))]) w in
        case banresult of
          Some ban \<Rightarrow>
            if GetUInt64 (ban ! 0) = GetUInt64 (ban ! 1)
            then Inr (bb_uint8 x (result_code WOW_FAIL_BANNED), s, w)
            else Inr (bb_uint8 x (result_code WOW_FAIL_SUSPENDED), s, w)
        | None \<Rightarrow> challenge_srp x acct clientLocale s w)"

text \<open>The queries and the answer, once the fields of the packet are stored.\<close>

definition challenge_answer ::
  "('bn, 'db) ext \<Rightarrow> string option \<Rightarrow> 'bn sock \<Rightarrow> 'db world \<Rightarrow> ('bn, 'db) outcome" where
  "challenge_answer x clientLocale s w =
     (let pkt = bb_uint8 x (cmd_code CMD_AUTH_LOGON_CHALLENGE) @ bb_uint8 x 0x00;
          address = db_escape_string x (remote_address s);
          (ipban, w) = PQuery x (sql_ip_banned, [SqlS (c_string address)]) w;
          r = (case ipban of
                 Some _ \<Rightarrow> Inr (bb_uint8 x (result_code WOW_FAIL_BANNED), s, w)
               | None \<Rightarrow>
                   let (acct, w) = PQuery x (sql_account, [SqlS (c_string (safelogin s))]) w in
                   case acct of
                     Some acct \<Rightarrow> challenge_account x acct clientLocale s w
                   | None \<Rightarrow> Inr (bb_uint8 x (result_code WOW_FAIL_UNKNOWN_ACCOUNT), s, w))
      in case r of
           Inl e \<Rightarrow> Inl e
         | Inr (tail, s, w) \<Rightarrow> Inr (True, snd (send (pkt @ tail) s), w))"

definition logon_challenge_body ::
  "('bn, 'db) ext \<Rightarrow> bytes \<Rightarrow> 'bn sock \<Rightarrow> 'db world \<Rightarrow> ('bn, 'db) outcome" where
  "logon_challenge_body x buf s w =
     (let s = s\<lparr>status := STATUS_CLOSED\<rparr>;
          clientLocale = ParseClientLocaleClaim (ch_country buf)
      in case (ch_I buf, ch_login buf, ch_os buf) of
           (Some _, Some name, Some os) \<Rightarrow>
             let s = s\<lparr>login := name, client_build := ch_build buf, client_os := os\<rparr> in
             if length (client_os s) > 4 then Inr (False, s, w)
             else
               let s = s\<lparr>client_os := rev (client_os s),
                         safelogin := db_escape_string x (login s)\<rparr>
               in challenge_answer x clientLocale s w
         | _ \<Rightarrow> Inl OutOfBounds)"

definition HandleLogonChallenge ::
  "('bn, 'db) ext \<Rightarrow> readbuf \<Rightarrow> 'bn sock \<Rightarrow> 'db world \<Rightarrow>
     fault + (bool \<times> readbuf \<times> 'bn sock \<times> 'db world)" where
  "HandleLogonChallenge x rb s w =
     (case recv_challenge rb of
        Inl rb \<Rightarrow> Inr (False, rb, s, w)
      | Inr (buf, rb) \<Rightarrow> with_buffer rb (logon_challenge_body x buf s w))"

section \<open>The logon proof\<close>

definition sql_publish_key :: string where
  "sql_publish_key = ''UPDATE `account` SET `sessionkey` = '' @ sq @ ''%s'' @ sq @
     '', `last_ip` = '' @ sq @ ''%s'' @ sq @ '', `last_login` = NOW(), `locale` = '' @ sq @ ''%u'' @ sq @
     '', `client_locale` = NULLIF('' @ sq @ ''%s'' @ sq @ '', '' @ sq @ sq @ ''), `os` = '' @ sq @ ''%s'' @ sq @
     '', `failed_logins` = 0 WHERE `username` = '' @ sq @ ''%s'' @ sq"

definition sql_count_failure :: string where
  "sql_count_failure =
     ''UPDATE `account` SET `failed_logins` = `failed_logins` + 1 WHERE `username` = '' @ sq @ ''%s'' @ sq"

definition sql_failures :: string where
  "sql_failures =
     ''SELECT `id`, `failed_logins` FROM `account` WHERE `username` = '' @ sq @ ''%s'' @ sq"

definition sql_ban_account :: string where
  "sql_ban_account = ''INSERT INTO `account_banned` VALUES ('' @ sq @ ''%u'' @ sq @
     '',UNIX_TIMESTAMP(),UNIX_TIMESTAMP()+'' @ sq @ ''%u'' @ sq @ '','' @ sq @ ''MaNGOS realmd'' @ sq @
     '','' @ sq @ ''Failed login autoban'' @ sq @ '',1)''"

definition sql_ban_ip :: string where
  "sql_ban_ip = ''INSERT INTO `ip_banned` VALUES ('' @ sq @ ''%s'' @ sq @
     '',UNIX_TIMESTAMP(),UNIX_TIMESTAMP()+'' @ sq @ ''%u'' @ sq @ '','' @ sq @ ''MaNGOS realmd'' @ sq @
     '','' @ sq @ ''Failed login autoban'' @ sq @ '')''"

text \<open>
  The proof matched: offer a patch, refuse the version, or publish the session key and
  let the client in.  \<open>_os\<close> is escaped in place.
\<close>

definition proof_accepted ::
  "('bn, 'db) ext \<Rightarrow> 'bn \<Rightarrow> 'bn \<Rightarrow> 'bn sock \<Rightarrow> 'db world \<Rightarrow> bool \<times> 'bn sock \<times> 'db world" where
  "proof_accepted x A M s w =
     (let supported = FindBuildInfo (client_build s) \<noteq> None in
      if ShouldPatch (patchPolicy s) (client_build s) supported then OfferPatch x s w
      else if \<not> supported then (True, SendInvalidVersion x s, w)
      else
        let safeLocale = db_escape_string x (localizationName s);
            s = s\<lparr>client_os := db_escape_string x (client_os s)\<rparr>;
            (ok, w) = DirectPExecute x (sql_publish_key,
               [SqlS (bn_AsHexStr x (srp_K s)), SqlS (c_string (remote_address s)),
                SqlU (GetLocaleByName x (localizationName s)), SqlS (c_string safeLocale),
                SqlS (c_string (client_os s)), SqlS (c_string (safelogin s))]) w
        in
          if \<not> ok then (False, close_connection s, w)
          else
            let s = SendProof (server_proof x A M (srp_K s)) s;
                s = deactivate_auth_deadline (s\<lparr>status := STATUS_AUTHED\<rparr>)
            in (True, s, count_authed w))"

text \<open>The bookkeeping of a failed login.\<close>

definition count_wrong_password :: "('bn, 'db) ext \<Rightarrow> 'bn sock \<Rightarrow> 'db world \<Rightarrow> 'db world" where
  "count_wrong_password x s w =
     (let MaxWrongPassCount = (word_of_int (cfg_GetIntDefault x ''WrongPass.MaxCount'' 0) :: uint32) in
      if MaxWrongPassCount > 0 then
        let w = PExecute x (sql_count_failure, [SqlS (c_string (safelogin s))]) w;
            (loginfail, w) = PQuery x (sql_failures, [SqlS (c_string (safelogin s))]) w
        in case loginfail of
             None \<Rightarrow> w
           | Some flds \<Rightarrow>
               let failed_logins = GetUInt32 (flds ! 1) in
               if failed_logins \<ge> MaxWrongPassCount then
                 let WrongPassBanTime = (word_of_int (cfg_GetIntDefault x ''WrongPass.BanTime'' 600) :: uint32);
                     WrongPassBanType = cfg_GetBoolDefault x ''WrongPass.BanType'' False
                 in if WrongPassBanType
                    then PExecute x (sql_ban_account,
                           [SqlU (GetUInt32 (flds ! 0)), SqlU WrongPassBanTime]) w
                    else PExecute x (sql_ban_ip,
                           [SqlS (c_string (db_escape_string x (remote_address s))), SqlU WrongPassBanTime]) w
               else w
      else w)"

definition proof_rejected ::
  "('bn, 'db) ext \<Rightarrow> 'bn sock \<Rightarrow> 'db world \<Rightarrow> bool \<times> 'bn sock \<times> 'db world" where
  "proof_rejected x s w =
     (let s = (if client_build s > 6005
               then snd (send [cmd_code CMD_AUTH_LOGON_PROOF, result_code WOW_FAIL_UNKNOWN_ACCOUNT, 3, 0] s)
               else snd (send [cmd_code CMD_AUTH_LOGON_PROOF, result_code WOW_FAIL_UNKNOWN_ACCOUNT] s))
      in (True, s, count_wrong_password x s w))"

definition logon_proof_body ::
  "('bn, 'db) ext \<Rightarrow> bytes \<Rightarrow> 'bn sock \<Rightarrow> 'db world \<Rightarrow> ('bn, 'db) outcome" where
  "logon_proof_body x lp s w =
     (let s = s\<lparr>status := STATUS_CLOSED\<rparr>;
          A = bn_SetBinary x (subbytes 1 32 lp)
      in
        if bn_isZero x (bn_mod x A (srp_N s)) then Inr (False, s, w)
        else
          let s = s\<lparr>srp_K := session_key x (server_secret x s A)\<rparr>;
              M = client_proof x (srp_N s) (srp_g s) (login s) (srp_s s) A (srp_B s) (srp_K s)
          in
            if AsByteArray x M SHA_DIGEST_LENGTH = subbytes 33 20 lp
            then Inr (proof_accepted x A M s w)
            else Inr (proof_rejected x s w))"

text \<open>\<open>sizeof(sAuthLogonProof_C)\<close> is 75.\<close>

definition HandleLogonProof ::
  "('bn, 'db) ext \<Rightarrow> readbuf \<Rightarrow> 'bn sock \<Rightarrow> 'db world \<Rightarrow>
     fault + (bool \<times> readbuf \<times> 'bn sock \<times> 'db world)" where
  "HandleLogonProof x rb s w =
     (case recv 75 rb of
        None \<Rightarrow> Inr (False, rb, s, w)
      | Some (lp, rb) \<Rightarrow> with_buffer rb (logon_proof_body x lp s w))"

end
