(* ===== verification/ReconnectSession.thy ===== *)
theory ReconnectSession
  imports LogonSession
begin

text \<open>
  The reconnect handlers of \<open>src/Auth/AuthSocket.cpp\<close>: \<open>_HandleReconnectChallenge\<close> and
  \<open>_HandleReconnectProof\<close>.
\<close>

definition sql_session_key :: string where
  "sql_session_key = ''SELECT `sessionkey` FROM `account` WHERE `username` = '' @ sq @ ''%s'' @ sq"

definition reconnect_challenge_body ::
  "('bn, 'db) ext \<Rightarrow> bytes \<Rightarrow> 'bn sock \<Rightarrow> 'db world \<Rightarrow> ('bn, 'db) outcome" where
  "reconnect_challenge_body x buf s w =
     (let s = s\<lparr>status := STATUS_CLOSED\<rparr>;
          clientLocale = ParseClientLocaleClaim (ch_country buf)
      in case (ch_I buf, ch_login buf, ch_os buf) of
           (Some _, Some name, Some os) \<Rightarrow>
             let s = s\<lparr>login := name, safelogin := db_escape_string x name,
                       client_build := ch_build buf,
                       localizationName := (case clientLocale of None \<Rightarrow> [] | Some l \<Rightarrow> l),
                       client_os := os\<rparr>
             in
               if length (client_os s) > 4 then Inr (False, s, w)
               else
                 let s = s\<lparr>client_os := rev (client_os s)\<rparr>;
                     (result, w) = PQuery x (sql_session_key, [SqlS (c_string (safelogin s))]) w
                 in (case result of
                      None \<Rightarrow> Inr (False, close_connection s, w)
                    | Some flds \<Rightarrow>
                        let s = s\<lparr>srp_K := bn_SetHexStr x (c_string (GetString (flds ! 0))),
                                  status := STATUS_RECON_PROOF\<rparr>;
                            (r, w) = SetRand x (16 * 8) w;
                            s = s\<lparr>reconnectProof := r\<rparr>;
                            pkt = bb_uint8 x (cmd_code CMD_AUTH_RECONNECT_CHALLENGE) @ bb_uint8 x 0x00 @
                                  AsByteArray x (reconnectProof s) SRP_RECONNECT_WIDTH @
                                  bb_uint64 x 0 @ bb_uint64 x 0
                        in Inr (True, snd (send pkt s), w))
         | _ \<Rightarrow> Inl OutOfBounds)"

definition HandleReconnectChallenge ::
  "('bn, 'db) ext \<Rightarrow> readbuf \<Rightarrow> 'bn sock \<Rightarrow> 'db world \<Rightarrow>
     fault + (bool \<times> readbuf \<times> 'bn sock \<times> 'db world)" where
  "HandleReconnectChallenge x rb s w =
     (case recv_challenge rb of
        Inl rb \<Rightarrow> Inr (False, rb, s, w)
      | Inr (buf, rb) \<Rightarrow> with_buffer rb (reconnect_challenge_body x buf s w))"

definition sql_publish_identity :: string where
  "sql_publish_identity = ''UPDATE `account` SET `client_locale` = NULLIF('' @ sq @ ''%s'' @ sq @ '', '' @
     sq @ sq @ ''), `os` = '' @ sq @ ''%s'' @ sq @ '' WHERE `username` = '' @ sq @ ''%s'' @ sq"

text \<open>The digest a reconnecting client has to show.\<close>

definition reconnect_digest :: "('bn, 'db) ext \<Rightarrow> string \<Rightarrow> 'bn \<Rightarrow> 'bn \<Rightarrow> 'bn \<Rightarrow> bytes" where
  "reconnect_digest x name t1 challenge K =
     sha1 x [of_string name, UpdateFixed x t1 SRP_RECONNECT_WIDTH,
             UpdateFixed x challenge SRP_RECONNECT_WIDTH, UpdateFixed x K SRP_SESSION_KEY_WIDTH]"

definition reconnect_accepted ::
  "('bn, 'db) ext \<Rightarrow> 'bn sock \<Rightarrow> 'db world \<Rightarrow> bool \<times> 'bn sock \<times> 'db world" where
  "reconnect_accepted x s w =
     (let safeLocale = db_escape_string x (localizationName s);
          safeOs = db_escape_string x (client_os s);
          (ok, w) = DirectPExecute x (sql_publish_identity,
             [SqlS (c_string safeLocale), SqlS (c_string safeOs), SqlS (c_string (safelogin s))]) w
      in
        if \<not> ok then (False, close_connection s, w)
        else
          let pkt = bb_uint8 x (cmd_code CMD_AUTH_RECONNECT_PROOF) @ bb_uint8 x 0x00;
              pkt = (if client_build s > 6141 then pkt @ bb_uint16 x 0x00 else pkt);
              s = snd (send pkt s);
              s = deactivate_auth_deadline (s\<lparr>status := STATUS_AUTHED\<rparr>)
          in (True, s, count_authed w))"

definition reconnect_proof_body ::
  "('bn, 'db) ext \<Rightarrow> bytes \<Rightarrow> 'bn sock \<Rightarrow> 'db world \<Rightarrow> ('bn, 'db) outcome" where
  "reconnect_proof_body x lp s w =
     (let s = s\<lparr>status := STATUS_CLOSED\<rparr> in
      if login s = [] \<or> bn_GetNumBytes x (reconnectProof s) = 0 \<or> bn_GetNumBytes x (srp_K s) = 0
      then Inr (False, s, w)
      else
        let t1 = bn_SetBinary x (subbytes 1 16 lp) in
        if reconnect_digest x (login s) t1 (reconnectProof s) (srp_K s) = subbytes 17 20 lp
        then Inr (reconnect_accepted x s w)
        else Inr (False, close_connection s, w))"

text \<open>\<open>sizeof(sAuthReconnectProof_C)\<close> is 58.\<close>

definition HandleReconnectProof ::
  "('bn, 'db) ext \<Rightarrow> readbuf \<Rightarrow> 'bn sock \<Rightarrow> 'db world \<Rightarrow>
     fault + (bool \<times> readbuf \<times> 'bn sock \<times> 'db world)" where
  "HandleReconnectProof x rb s w =
     (case recv 58 rb of
        None \<Rightarrow> Inr (False, rb, s, w)
      | Some (lp, rb) \<Rightarrow> with_buffer rb (reconnect_proof_body x lp s w))"

end
