(* ===== verification/RealmListSession.thy ===== *)
theory RealmListSession
  imports ReconnectSession
begin

text \<open>
  The realm list handler of \<open>src/Auth/AuthSocket.cpp\<close>: choosing the address for a
  client, writing the list in the two packet families (1.12 and later clients), and
  \<open>_HandleRealmList\<close>.
\<close>

section \<open>Addresses\<close>

definition GetAddressForClient :: "('bn, 'db) ext \<Rightarrow> Realm \<Rightarrow> uint32 \<Rightarrow> RealmAddress" where
  "GetAddressForClient x realm clientIp =
     (let clientLoopback = (drop_bit 24 clientIp = 127) in
      if clientLoopback then
        if loopback (LocalAddress realm) \<or> loopback (ExternalAddress realm)
        then (ExternalAddress realm)\<lparr>ip := clientIp\<rparr>
        else LocalAddress realm
      else if IsIPAddrInNetwork x (ip (LocalAddress realm)) clientIp (ip (LocalSubnetMask realm))
      then LocalAddress realm
      else ExternalAddress realm)"

definition ParseClientIPv4 :: "('bn, 'db) ext \<Rightarrow> string \<Rightarrow> uint32" where
  "ParseClientIPv4 x addr = (case inet_pton x addr of Some a \<Rightarrow> a | None \<Rightarrow> 0)"

section \<open>One realm\<close>

definition sql_numchars :: string where
  "sql_numchars = ''SELECT `numchars` FROM `realmcharacters` WHERE `realmid` = '' @ sq @ ''%d'' @ sq @
     '' AND `acctid`='' @ sq @ ''%u'' @ sq"

definition AmountOfCharacters ::
  "('bn, 'db) ext \<Rightarrow> Realm \<Rightarrow> uint32 \<Rightarrow> 'db world \<Rightarrow> uint8 \<times> 'db world" where
  "AmountOfCharacters x realm acctid w =
     (case PQuery x (sql_numchars, [SqlD (sint (m_ID realm)), SqlU acctid]) w of
        (Some flds, w) \<Rightarrow> (GetUInt8 (flds ! 0), w)
      | (None, w) \<Rightarrow> (0, w))"

definition ok_build :: "Realm \<Rightarrow> uint16 \<Rightarrow> bool" where
  "ok_build realm b = (ucast b \<in> realmbuilds realm)"

definition shown_build_info :: "Realm \<Rightarrow> uint16 \<Rightarrow> RealmBuildInfo" where
  "shown_build_info realm b =
     (case (if ok_build realm b then FindBuildInfo b else None) of
        Some info \<Rightarrow> info | None \<Rightarrow> realmBuildInfo realm)"

text \<open>\<open>%u\<close> of an \<open>int\<close>, and \<open>snprintf(buf, 20, " (%u,%u,%u)", ...)\<close>.\<close>

definition percent_u :: "int \<Rightarrow> string" where
  "percent_u n = to_decimal (unat (word_of_int n :: uint32))"

definition version_suffix :: "RealmBuildInfo \<Rightarrow> string" where
  "version_suffix info =
     take 19 ('' ('' @ percent_u (major_version info) @ '','' @ percent_u (minor_version info) @ '','' @
       percent_u (bugfix_version info) @ '')'')"

text \<open>The address as it is sent: the chosen host with the port of the external address.\<close>

definition shown_address :: "('bn, 'db) ext \<Rightarrow> Realm \<Rightarrow> uint32 \<Rightarrow> string" where
  "shown_address x realm clientIp =
     GetAddressString x (ip (GetAddressForClient x realm clientIp)) (port (ExternalAddress realm))"

text \<open>The loop body of the first packet family.\<close>

definition vanilla_flags :: "'bn sock \<Rightarrow> Realm \<Rightarrow> uint8" where
  "vanilla_flags s realm =
     (if \<not> ok_build realm (client_build s) \<or> allowedSecurityLevel realm > accountSecurityLevel s
      then realmflags realm OR REALM_FLAG_OFFLINE else realmflags realm)"

definition vanilla_name :: "'bn sock \<Rightarrow> Realm \<Rightarrow> string" where
  "vanilla_name s realm =
     (if realmflags realm AND REALM_FLAG_SPECIFYBUILD \<noteq> 0
      then realm_name realm @ version_suffix (shown_build_info realm (client_build s))
      else realm_name realm)"

definition vanilla_entry ::
  "('bn, 'db) ext \<Rightarrow> 'bn sock \<Rightarrow> uint32 \<Rightarrow> uint32 \<Rightarrow> Realm \<Rightarrow> 'db world \<Rightarrow> bytes \<times> 'db world" where
  "vanilla_entry x s acctid clientIp realm w =
     (case AmountOfCharacters x realm acctid w of (chars, w) \<Rightarrow>
        (bb_uint32 x (ucast (icon realm)) @
         bb_uint8 x (vanilla_flags s realm) @
         bb_string x (vanilla_name s realm) @
         bb_string x (shown_address x realm clientIp) @
         bb_float x (populationLevel realm) @
         bb_uint8 x chars @
         bb_uint8 x (timezone realm) @
         bb_uint8 x 0x00, w))"

text \<open>
  The loop body of the second packet family.  \<open>buildInfo\<close> is never null at the test that
  would clear \<open>REALM_FLAG_SPECIFYBUILD\<close>, so the flag stays.
\<close>

definition modern_flags :: "'bn sock \<Rightarrow> Realm \<Rightarrow> uint8" where
  "modern_flags s realm =
     (if \<not> ok_build realm (client_build s)
      then realmflags realm OR REALM_FLAG_OFFLINE else realmflags realm)"

definition modern_entry ::
  "('bn, 'db) ext \<Rightarrow> 'bn sock \<Rightarrow> uint32 \<Rightarrow> uint32 \<Rightarrow> Realm \<Rightarrow> 'db world \<Rightarrow> bytes \<times> 'db world" where
  "modern_entry x s acctid clientIp realm w =
     (case AmountOfCharacters x realm acctid w of (chars, w) \<Rightarrow>
        let info = shown_build_info realm (client_build s);
            lock = (if allowedSecurityLevel realm > accountSecurityLevel s then 1 else 0);
            flags = modern_flags s realm
        in
        (bb_uint8 x (icon realm) @
         bb_uint8 x lock @
         bb_uint8 x flags @
         bb_string x (realm_name realm) @
         bb_string x (shown_address x realm clientIp) @
         bb_float x (populationLevel realm) @
         bb_uint8 x chars @
         bb_uint8 x (timezone realm) @
         bb_uint8 x 0x2C @
         (if flags AND REALM_FLAG_SPECIFYBUILD \<noteq> 0
          then bb_uint8 x (word_of_int (major_version info)) @
               bb_uint8 x (word_of_int (minor_version info)) @
               bb_uint8 x (word_of_int (bugfix_version info)) @
               bb_uint16 x (client_build s)
          else []), w))"

section \<open>The list\<close>

fun write_entries :: "(Realm \<Rightarrow> 'w \<Rightarrow> bytes \<times> 'w) \<Rightarrow> Realm list \<Rightarrow> 'w \<Rightarrow> bytes \<times> 'w" where
  "write_entries entry [] w = ([], w)"
| "write_entries entry (realm # others) w =
     (case entry realm w of (b, w) \<Rightarrow>
        case write_entries entry others w of (bs, w) \<Rightarrow> (b @ bs, w))"

definition LoadRealmlist ::
  "('bn, 'db) ext \<Rightarrow> uint32 \<Rightarrow> 'bn sock \<Rightarrow> 'db world \<Rightarrow> bytes \<times> 'db world" where
  "LoadRealmlist x acctid s w =
     (let view = GetRealmsForBuild (realm_list w) (ucast (client_build s));
          numRealms = (word_of_nat (view_size view) :: uint32);
          clientIp = ParseClientIPv4 x (remote_address s)
      in
        if is_vanilla_build (client_build s) then
          (case write_entries (vanilla_entry x s acctid clientIp) (view_list view) w of (body, w) \<Rightarrow>
            (bb_uint32 x 0 @ bb_uint8 x (ucast numRealms) @ body @ bb_uint16 x 0x0002, w))
        else
          (case write_entries (modern_entry x s acctid clientIp) (view_list view) w of (body, w) \<Rightarrow>
            (bb_uint32 x 0 @ bb_uint16 x (ucast numRealms) @ body @ bb_uint16 x 0x0010, w)))"

definition sql_account_id :: string where
  "sql_account_id = ''SELECT `id`,`sha_pass_hash` FROM `account` WHERE `username` = '' @ sq @ ''%s'' @ sq"

definition realm_list_body ::
  "('bn, 'db) ext \<Rightarrow> 'bn sock \<Rightarrow> 'db world \<Rightarrow> ('bn, 'db) outcome" where
  "realm_list_body x s w =
     (case PQuery x (sql_account_id, [SqlS (c_string (safelogin s))]) w of
        (None, w) \<Rightarrow> Inr (False, close_connection s, w)
      | (Some acct, w) \<Rightarrow>
          let id = GetUInt32 (acct ! 0);
              w = w\<lparr>realm_list := UpdateIfNeed x (login_db w) (wall_time w) (realm_list w)\<rparr>;
              (pkt, w) = LoadRealmlist x id s w;
              hdr = bb_uint8 x (cmd_code CMD_REALM_LIST) @ bb_uint16 x (word_of_nat (length pkt)) @ pkt
          in Inr (True, snd (send hdr s), w))"

definition HandleRealmList ::
  "('bn, 'db) ext \<Rightarrow> readbuf \<Rightarrow> 'bn sock \<Rightarrow> 'db world \<Rightarrow>
     fault + (bool \<times> readbuf \<times> 'bn sock \<times> 'db world)" where
  "HandleRealmList x rb s w =
     (if recv_len rb < AuthRealmListSize then Inr (False, rb, s, w)
      else with_buffer (recv_skip AuthRealmListSize rb) (realm_list_body x s w))"

end
