(* ===== verification/OnData.thy ===== *)
theory OnData
  imports RealmListSession
begin

text \<open>
  The receive path of \<open>src/Auth/AuthSocket.cpp\<close>: the dispatch table and \<open>onData\<close>.  The
  handlers are shown to consume exactly the frame that was inspected (\<open>dispatch_frame\<close>),
  so that the loop refines \<open>process\<close>, which works on a byte string and has neither cursor
  nor table.
\<close>

section \<open>The dispatch table\<close>

type_synonym ('bn, 'db) handler =
  "readbuf \<Rightarrow> 'bn sock \<Rightarrow> 'db world \<Rightarrow> fault + (bool \<times> readbuf \<times> 'bn sock \<times> 'db world)"

definition table :: "('bn, 'db) ext \<Rightarrow> (eAuthCmd \<times> eStatus \<times> ('bn, 'db) handler) list" where
  "table x =
    [(CMD_AUTH_LOGON_CHALLENGE, STATUS_CHALLENGE, HandleLogonChallenge x),
     (CMD_AUTH_LOGON_PROOF, STATUS_LOGON_PROOF, HandleLogonProof x),
     (CMD_AUTH_RECONNECT_CHALLENGE, STATUS_CHALLENGE, HandleReconnectChallenge x),
     (CMD_AUTH_RECONNECT_PROOF, STATUS_RECON_PROOF, HandleReconnectProof x),
     (CMD_REALM_LIST, STATUS_AUTHED, HandleRealmList x),
     (CMD_XFER_ACCEPT, STATUS_PATCH, HandleXferAccept),
     (CMD_XFER_RESUME, STATUS_PATCH, HandleXferResume),
     (CMD_XFER_CANCEL, STATUS_PATCH, HandleXferCancel)]"

text \<open>
  The \<open>for\<close> loop over the table: \<open>False\<close> stands for \<open>i == AUTH_TOTAL_COMMANDS\<close>, whether
  no row has the command, its status is another one, or the handler returned \<open>false\<close>.
\<close>

fun run_table ::
  "(eAuthCmd \<times> eStatus \<times> ('bn, 'db) handler) list \<Rightarrow> byte \<Rightarrow> ('bn, 'db) handler" where
  "run_table [] c rb s w = Inr (False, rb, s, w)"
| "run_table ((cmd, st, handler) # rows) c rb s w =
     (if cmd_code cmd \<noteq> c then run_table rows c rb s w
      else if st \<noteq> status s then Inr (False, rb, s, w)
      else handler rb s w)"

definition dispatch :: "('bn, 'db) ext \<Rightarrow> byte \<Rightarrow> ('bn, 'db) handler" where
  "dispatch x c rb s w = run_table (table x) c rb s w"

section \<open>Handlers keep the buffer\<close>

lemma with_buffer_keeps:
  "with_buffer rb r = Inr (ok, rb', s', w') \<Longrightarrow> rb' = rb"
  by (auto simp: with_buffer_def split: sum.splits prod.splits)

lemma recv_keeps: "recv n rb = Some (b, rb') \<Longrightarrow> m_readBuf rb' = m_readBuf rb"
  by (auto simp: recv_def split: option.splits)

lemma recv_challenge_keeps:
  "recv_challenge rb = Inr (buf, rb') \<Longrightarrow> m_readBuf rb' = m_readBuf rb"
  "recv_challenge rb = Inl rb' \<Longrightarrow> m_readBuf rb' = m_readBuf rb"
  by (auto simp: recv_challenge_def Let_def dest!: recv_keeps
      split: if_splits option.splits prod.splits)

lemma dispatch_keeps_buf:
  assumes "dispatch x c rb s w = Inr (ok, rb', s', w')"
  shows "m_readBuf rb' = m_readBuf rb"
  using assms
  by (auto simp: dispatch_def table_def HandleLogonChallenge_def HandleLogonProof_def
      HandleReconnectChallenge_def HandleReconnectProof_def HandleRealmList_def
      HandleXferAccept_def HandleXferResume_def HandleXferCancel_def
      dest!: with_buffer_keeps dest: recv_keeps recv_challenge_keeps
      split: if_splits option.splits prod.splits sum.splits)

section \<open>The receive loop\<close>

definition inspect_pending :: "readbuf \<Rightarrow> 'bn sock \<Rightarrow> FrameDecision" where
  "inspect_pending rb s =
     InspectFrame (stream_state (status s)) (Some (pending rb)) (recv_len rb)"

definition empty_readbuf :: readbuf where
  "empty_readbuf = \<lparr>m_readBuf = [], m_readPos = 0\<rparr>"

lemma inspect_pending_size:
  "fd_status (inspect_pending rb s) = Complete \<Longrightarrow>
   0 < frameSize (inspect_pending rb s) \<and> frameSize (inspect_pending rb s) \<le> recv_len rb"
  unfolding inspect_pending_def by (rule guard.complete_size)

lemma consumed_recv_len:
  assumes "m_readBuf rb' = m_readBuf rb" and "m_readPos rb' - m_readPos rb = k"
    and "0 < k" and "k \<le> recv_len rb"
  shows "recv_len rb' < recv_len rb"
  using assms by (auto simp: recv_len_def split: if_splits)

function onData_loop ::
  "('bn, 'db) ext \<Rightarrow> readbuf \<Rightarrow> 'bn sock \<Rightarrow> 'db world \<Rightarrow> fault + (readbuf \<times> 'bn sock \<times> 'db world)"
where
  "onData_loop x rb s w =
     (if m_closed s then Inr (rb, s, w)
      else
        let decision = inspect_pending rb s in
        case fd_status decision of
          Incomplete \<Rightarrow> Inr (rb, s, w)
        | Reject \<Rightarrow> Inr (empty_readbuf, close_connection s, w)
        | Complete \<Rightarrow>
            (case dispatch x (m_readBuf rb ! m_readPos rb) rb s w of
               Inl e \<Rightarrow> Inl e
             | Inr (handled, rb', s', w') \<Rightarrow>
                 if \<not> handled \<or> m_readPos rb' - m_readPos rb \<noteq> frameSize decision
                 then Inr (empty_readbuf, close_connection s', w')
                 else onData_loop x rb' s' w'))"
  by pat_completeness auto
termination
proof (relation "measure (\<lambda>(x, rb, s, w). recv_len rb)", simp)
  fix x :: "('bn, 'db) ext" and rb s w decision y handled p rb' q s' w'
  assume d: "decision = inspect_pending rb s" "fd_status decision = Complete"
    and dis: "dispatch x (m_readBuf rb ! m_readPos rb) rb s w = Inr y"
    and y: "(handled, p) = y" "(rb', q) = p" "(s', w') = q"
    and c: "\<not> (\<not> handled \<or> m_readPos rb' - m_readPos rb \<noteq> frameSize decision)"
  have "dispatch x (m_readBuf rb ! m_readPos rb) rb s w = Inr (handled, rb', s', w')"
    using dis by (simp add: y)
  then have "m_readBuf rb' = m_readBuf rb" by (rule dispatch_keeps_buf)
  from consumed_recv_len [OF this, of "frameSize decision"] c d inspect_pending_size [of rb s]
  show "((x, rb', s', w'), x, rb, s, w) \<in> measure (\<lambda>(x, rb, s, w). recv_len rb)"
    by simp
qed

declare onData_loop.simps [simp del]

text \<open>Dropping the consumed bytes after the loop.\<close>

definition crunch :: "readbuf \<Rightarrow> readbuf" where
  "crunch rb =
     (if m_readPos rb \<ge> length (m_readBuf rb) then rb\<lparr>m_readBuf := [], m_readPos := 0\<rparr>
      else if m_readPos rb > 0
      then rb\<lparr>m_readBuf := drop (m_readPos rb) (m_readBuf rb), m_readPos := 0\<rparr>
      else rb\<lparr>m_readPos := 0\<rparr>)"

definition onData ::
  "('bn, 'db) ext \<Rightarrow> bytes \<Rightarrow> readbuf \<Rightarrow> 'bn sock \<Rightarrow> 'db world \<Rightarrow>
     fault + (readbuf \<times> 'bn sock \<times> 'db world)" where
  "onData x data rb s w =
     (if m_closed s then Inr (rb, s, w)
      else if \<not> CanAppendPending (word_of_nat (length (m_readBuf rb))) (word_of_nat (length data))
      then Inr (empty_readbuf, close_connection s, w)
      else
        let rb = \<lparr>m_readBuf = m_readBuf rb @ data, m_readPos = 0\<rparr> in
        case onData_loop x rb s w of
          Inl e \<Rightarrow> Inl e
        | Inr (rb, s, w) \<Rightarrow> Inr (crunch rb, s, w))"

section \<open>Each handler consumes its frame\<close>

text \<open>
  What a complete frame does to the session: the body of its handler, on the bytes of
  the frame alone.
\<close>

definition run_frame ::
  "('bn, 'db) ext \<Rightarrow> bytes \<Rightarrow> 'bn sock \<Rightarrow> 'db world \<Rightarrow> ('bn, 'db) outcome" where
  "run_frame x frame s w =
     (let c = frame ! 0 in
      if c = cmd_code CMD_AUTH_LOGON_CHALLENGE then logon_challenge_body x (frame @ [0]) s w
      else if c = cmd_code CMD_AUTH_LOGON_PROOF then logon_proof_body x frame s w
      else if c = cmd_code CMD_AUTH_RECONNECT_CHALLENGE then reconnect_challenge_body x (frame @ [0]) s w
      else if c = cmd_code CMD_AUTH_RECONNECT_PROOF then reconnect_proof_body x frame s w
      else if c = cmd_code CMD_REALM_LIST then realm_list_body x s w
      else if c = cmd_code CMD_XFER_ACCEPT then xfer_body 0 s w
      else if c = cmd_code CMD_XFER_RESUME then xfer_body (word_of_nat (le_val (drop 1 frame))) s w
      else cancel_body s w)"

lemma recv_challenge_frame:
  assumes "buf_ok rb" and "31 \<le> r" and "4 + r \<le> length (pending rb)"
    and r: "unat (le16 (pending rb ! 2) (pending rb ! 3)) = r"
  shows "recv_challenge rb = Inr (take (4 + r) (pending rb) @ [0], recv_skip (4 + r) rb)"
proof -
  have ok: "buf_ok (recv_skip 4 rb)" using assms by (intro buf_ok_skip) auto
  have hdr: "recv 4 rb = Some (take 4 (pending rb), recv_skip 4 rb)"
    using assms by (intro recv_pending) auto
  have body: "recv r (recv_skip 4 rb) = Some (take r (drop 4 (pending rb)), recv_skip (4 + r) rb)"
    using assms recv_pending [OF ok, of r] by simp
  have "recv_len rb = length (pending rb)" "recv_len (recv_skip 4 rb) = length (pending rb) - 4"
    using recv_len_pending [OF assms(1)] recv_len_pending [OF ok] by simp_all
  with assms hdr body show ?thesis
    by (simp add: recv_challenge_def take_add)
qed

lemma InspectChallenge_complete_layout:
  assumes "fd_status (InspectChallenge st d n) = Complete"
  obtains r where "unat (le16 (d ! 2) (d ! 3)) = r" "31 \<le> r" "4 + r \<le> n"
    "frameSize (InspectChallenge st d n) = 4 + r" "r = 30 + unat (d ! 33)"
  using assms by (auto simp: InspectChallenge_def Let_def guard_simps split: if_splits)

lemma stream_state_inject [simp]: "stream_state a = stream_state b \<longleftrightarrow> a = b"
  by (cases a; cases b) simp_all

lemma stream_state_eq_iff:
  "stream_state st = Challenge \<longleftrightarrow> st = STATUS_CHALLENGE"
  "stream_state st = LogonProof \<longleftrightarrow> st = STATUS_LOGON_PROOF"
  "stream_state st = ReconnectProof \<longleftrightarrow> st = STATUS_RECON_PROOF"
  "stream_state st = Authenticated \<longleftrightarrow> st = STATUS_AUTHED"
  "stream_state st = Patch \<longleftrightarrow> st = STATUS_PATCH"
  by (cases st; simp)+

lemma dispatch_frame:
  assumes ok: "buf_ok rb"
    and c: "fd_status (InspectFrame (stream_state (status s)) (Some (pending rb)) (length (pending rb)))
              = Complete"
  defines "k \<equiv> frameSize (InspectFrame (stream_state (status s)) (Some (pending rb)) (length (pending rb)))"
  shows "dispatch x (pending rb ! 0) rb s w =
         with_buffer (recv_skip k rb) (run_frame x (take k (pending rb)) s w)"
  using c
proof (cases rule: InspectFrame_completeE)
  case challenge
  with c have "fd_status (InspectChallenge (stream_state (status s)) (pending rb)
      (length (pending rb))) = Complete" by simp
  then obtain r where r: "unat (le16 (pending rb ! 2) (pending rb ! 3)) = r" "31 \<le> r"
      "4 + r \<le> length (pending rb)" "k = 4 + r"
    by (rule InspectChallenge_complete_layout) (simp add: k_def challenge(2))
  have "take k (pending rb) ! 0 = pending rb ! 0" using r by simp
  with challenge recv_challenge_frame [OF ok r(2,3,1)] r show ?thesis
    by (auto simp: dispatch_def table_def run_frame_def HandleLogonChallenge_def
        HandleReconnectChallenge_def stream_state_eq_iff)
next
  case logon
  then have "k = 75" by (simp add: k_def CompleteFrame_def)
  with logon recv_pending [OF ok, of 75] show ?thesis
    by (simp add: dispatch_def table_def run_frame_def HandleLogonProof_def stream_state_eq_iff)
next
  case reconnect
  then have "k = 58" by (simp add: k_def CompleteFrame_def)
  with reconnect recv_pending [OF ok, of 58] show ?thesis
    by (simp add: dispatch_def table_def run_frame_def HandleReconnectProof_def stream_state_eq_iff)
next
  case realms
  then have "k = 5" by (simp add: k_def CompleteFrame_def)
  with realms show ?thesis
    by (simp add: dispatch_def table_def run_frame_def HandleRealmList_def stream_state_eq_iff
        recv_len_pending [OF ok])
next
  case accept
  then have "k = 1" by (simp add: k_def CompleteFrame_def)
  with accept show ?thesis
    by (simp add: dispatch_def table_def run_frame_def HandleXferAccept_def stream_state_eq_iff)
next
  case resume
  then have k: "k = 9" by (simp add: k_def CompleteFrame_def)
  have ok1: "buf_ok (recv_skip 1 rb)" using ok resume(3) by (intro buf_ok_skip) auto
  from k resume recv_pending [OF ok1, of 8] show ?thesis
    by (simp add: dispatch_def table_def run_frame_def HandleXferResume_def stream_state_eq_iff
        recv_len_pending [OF ok] drop_take)
next
  case cancel
  then have "k = 1" by (simp add: k_def CompleteFrame_def)
  with cancel show ?thesis
    by (simp add: dispatch_def table_def run_frame_def HandleXferCancel_def stream_state_eq_iff)
qed

section \<open>The abstract receive loop\<close>

function process ::
  "('bn, 'db) ext \<Rightarrow> bytes \<Rightarrow> 'bn sock \<Rightarrow> 'db world \<Rightarrow> fault + (bytes \<times> 'bn sock \<times> 'db world)"
where
  "process x bs s w =
     (if m_closed s then Inr (bs, s, w)
      else
        let decision = InspectFrame (stream_state (status s)) (Some bs) (length bs) in
        case fd_status decision of
          Incomplete \<Rightarrow> Inr (bs, s, w)
        | Reject \<Rightarrow> Inr ([], close_connection s, w)
        | Complete \<Rightarrow>
            (case run_frame x (take (frameSize decision) bs) s w of
               Inl e \<Rightarrow> Inl e
             | Inr (handled, s', w') \<Rightarrow>
                 if handled then process x (drop (frameSize decision) bs) s' w'
                 else Inr ([], close_connection s', w')))"
  by pat_completeness auto
termination
  by (relation "measure (\<lambda>(x, bs, s, w). length bs)") (auto dest: guard.complete_shrinks)

declare process.simps [simp del]

lemma process_closed: "m_closed s \<Longrightarrow> process x bs s w = Inr (bs, s, w)"
  by (simp add: process.simps [of x bs])

text \<open>The loop of the source does what the abstract one does.\<close>

lemma pending_nth_0: "pending rb \<noteq> [] \<Longrightarrow> m_readBuf rb ! m_readPos rb = pending rb ! 0"
  by (simp add: pending_def)

text \<open>One round of the loop on a complete frame.\<close>

lemma onData_loop_frame:
  assumes "buf_ok rb" and "\<not> m_closed s" and c: "fd_status (inspect_pending rb s) = Complete"
  defines "k \<equiv> frameSize (inspect_pending rb s)"
  shows "dispatch x (m_readBuf rb ! m_readPos rb) rb s w =
      with_buffer (recv_skip k rb) (run_frame x (take k (pending rb)) s w)"
    and "buf_ok (recv_skip k rb)"
    and "onData_loop x rb s w = (case run_frame x (take k (pending rb)) s w of
      Inl e \<Rightarrow> Inl e
    | Inr (ok, s', w') \<Rightarrow> if ok then onData_loop x (recv_skip k rb) s' w' else Inr (empty_readbuf, close_connection s', w'))"
proof -
  define d where "d = InspectFrame (stream_state (status s)) (Some (pending rb)) (length (pending rb))"
  have d: "inspect_pending rb s = d" by (simp add: inspect_pending_def d_def recv_len_pending [OF assms(1)])
  from guard.complete_size c have k: "0 < k" "k \<le> length (pending rb)"
    unfolding k_def d d_def by blast+
  then have "pending rb \<noteq> []" by auto
  with dispatch_frame [OF assms(1) c [unfolded d d_def], of x w]
  show dis: "dispatch x (m_readBuf rb ! m_readPos rb) rb s w =
      with_buffer (recv_skip k rb) (run_frame x (take k (pending rb)) s w)"
    by (simp add: pending_nth_0 d_def [symmetric] k_def d)
  show "buf_ok (recv_skip k rb)" using assms(1) k(2) by (rule buf_ok_skip)
  show "onData_loop x rb s w = (case run_frame x (take k (pending rb)) s w of
      Inl e \<Rightarrow> Inl e
    | Inr (ok, s', w') \<Rightarrow> if ok then onData_loop x (recv_skip k rb) s' w' else Inr (empty_readbuf, close_connection s', w'))"
    using assms(2) c
    by (simp add: onData_loop.simps [of x rb s w] dis Let_def k_def [symmetric])
      (simp add: with_buffer_def k_def split: sum.splits prod.splits)
qed

text \<open>What the loop does with its buffer is what \<open>process\<close> does with the pending bytes.\<close>

definition refines_process ::
  "fault + (readbuf \<times> 'bn sock \<times> 'db world) \<Rightarrow> fault + (bytes \<times> 'bn sock \<times> 'db world) \<Rightarrow> bool" where
  "refines_process r spec \<longleftrightarrow>
     (case spec of
        Inl e \<Rightarrow> r = Inl e
      | Inr (bs, s', w') \<Rightarrow> \<exists>rb'. r = Inr (rb', s', w') \<and> buf_ok rb' \<and> pending rb' = bs)"

lemma refines_process_Inr: "buf_ok rb \<Longrightarrow> refines_process (Inr (rb, s, w)) (Inr (pending rb, s, w))"
  by (simp add: refines_process_def)

lemma empty_readbuf_ok: "buf_ok empty_readbuf" "pending empty_readbuf = []"
  by (simp_all add: buf_ok_def pending_def empty_readbuf_def)

lemma onData_loop_refines:
  assumes "buf_ok rb"
  shows "refines_process (onData_loop x rb s w) (process x (pending rb) s w)"
  using assms
proof (induction x rb s w rule: onData_loop.induct)
  case (1 x rb s w)
  define d where "d = InspectFrame (stream_state (status s)) (Some (pending rb)) (length (pending rb))"
  have d: "inspect_pending rb s = d" by (simp add: inspect_pending_def d_def recv_len_pending [OF "1.prems"])
  note spec = process.simps [of x "pending rb" s w, folded d_def, unfolded Let_def]
  show ?case
  proof (cases "m_closed s \<or> fd_status d \<noteq> Complete")
    case True
    with refines_process_Inr [OF "1.prems"] refines_process_Inr [OF empty_readbuf_ok(1)] show ?thesis
      by (cases "fd_status d") (auto simp: onData_loop.simps [of x rb s w] d spec empty_readbuf_ok)
  next
    case False
    then have op: "\<not> m_closed s" and c: "fd_status d = Complete" by auto
    note round = onData_loop_frame(1,3) [OF "1.prems" op c [folded d], of x w, unfolded d]
      and rest = onData_loop_frame(2) [OF "1.prems" op c [folded d], unfolded d]
    show ?thesis
    proof (cases "run_frame x (take (frameSize d) (pending rb)) s w")
      case (Inr r)
      obtain ok s' w' where r: "r = (ok, s', w')" by (cases r) auto
      have "refines_process (onData_loop x (recv_skip (frameSize d) rb) s' w')
          (process x (pending (recv_skip (frameSize d) rb)) s' w')" if ok
        by (rule "1.IH" [OF op d [symmetric] c, of "(ok, recv_skip (frameSize d) rb, s', w')"])
          (use round(1) rest Inr r that in \<open>simp_all add: with_buffer_def\<close>)
      with Inr r op c refines_process_Inr [OF empty_readbuf_ok(1), of "close_connection s'" w'] show ?thesis
        by (simp add: round(2) spec empty_readbuf_ok)
    qed (use op c in \<open>simp add: round(2) spec refines_process_def\<close>)
  qed
qed

lemma crunch_ok: "buf_ok rb \<Longrightarrow> crunch rb = \<lparr>m_readBuf = pending rb, m_readPos = 0\<rparr>"
  by (cases rb) (auto simp: crunch_def pending_def buf_ok_def)

lemma onData_process:
  assumes "length (m_readBuf rb) + length data < 2 ^ 64"
  shows "onData x data rb s w =
     (if m_closed s then Inr (rb, s, w)
      else if 65539 < length (m_readBuf rb) + length data
      then Inr (empty_readbuf, close_connection s, w)
      else case process x (m_readBuf rb @ data) s w of
             Inl e \<Rightarrow> Inl e
           | Inr (bs, s', w') \<Rightarrow> Inr (\<lparr>m_readBuf = bs, m_readPos = 0\<rparr>, s', w'))"
proof -
  let ?rb = "\<lparr>m_readBuf = m_readBuf rb @ data, m_readPos = 0\<rparr>"
  have u: "unat (word_of_nat n :: uint64) = n" if "n < 2 ^ 64" for n
    using that by (simp add: unat_of_nat)
  have "CanAppendPending (word_of_nat (length (m_readBuf rb))) (word_of_nat (length data)) \<longleftrightarrow>
        length (m_readBuf rb) + length data \<le> 65539"
    using assms u [of "length (m_readBuf rb)"] u [of "length data"]
    by (simp add: CanAppendPending_iff)
  moreover have "buf_ok ?rb" "pending ?rb = m_readBuf rb @ data"
    by (simp_all add: buf_ok_def pending_def)
  ultimately show ?thesis
    using onData_loop_refines [of ?rb x s w, unfolded refines_process_def]
    by (auto simp: onData_def crunch_ok split: sum.splits)
qed

section \<open>How the input is cut does not matter\<close>

lemma process_append:
  "case process x a s w of
     Inl e \<Rightarrow> process x (a @ b) s w = Inl e
   | Inr (r, s', w') \<Rightarrow>
       if m_closed s' then \<exists>r'. process x (a @ b) s w = Inr (r', s', w')
       else process x (a @ b) s w = process x (r @ b) s' w'"
proof (induction x a s w rule: process.induct)
  case (1 x a s w)
  define d where "d = InspectFrame (stream_state (status s)) (Some a) (length a)"
  note p = process.simps [of x a s w, folded d_def, unfolded Let_def]
  show ?case
  proof (cases "m_closed s \<or> fd_status d = Incomplete")
    case True
    then show ?thesis by (auto simp: p process_closed)
  next
    case False
    then have same: "InspectFrame (stream_state (status s)) (Some (a @ b)) (length (a @ b)) = d"
      unfolding d_def by (intro guard.decided_append) simp
    note pb = process.simps [of x "a @ b" s w, unfolded same Let_def]
    have closed: "m_closed (close_connection t)" for t :: "'a sock"
      by (simp add: close_connection_def Let_def)
    show ?thesis
    proof (cases "fd_status d")
      case Complete
      then have k: "frameSize d \<le> length a"
        using guard.complete_size unfolding d_def by blast
      show ?thesis
      proof (cases "run_frame x (take (frameSize d) a) s w")
        case (Inr r)
        obtain ok s' w' where r: "r = (ok, s', w')" by (cases r) auto
        show ?thesis
        proof (cases ok)
          case True
          have step: "process x a s w = process x (drop (frameSize d) a) s' w'"
            "process x (a @ b) s w = process x (drop (frameSize d) a @ b) s' w'"
            using False Complete Inr r True k by (simp_all add: p pb)
          from "1.IH" [OF _ d_def Complete Inr, of ok "(s', w')" s' w'] False r True
          show ?thesis unfolding step by simp
        qed (use False Complete Inr r closed k in \<open>simp add: p pb\<close>)
      qed (use False Complete k in \<open>simp add: p pb\<close>)
    qed (use False closed in \<open>auto simp: p pb\<close>)
  qed
qed

lemma onData_closed: "m_closed s \<Longrightarrow> onData x data rb s w = Inr (rb, s, w)"
  by (simp add: onData_def)

lemma process_length: "process x bs s w = Inr (bs', s', w') \<Longrightarrow> length bs' \<le> length bs"
proof (induction x bs s w rule: process.induct)
  case (1 x bs s w)
  define d where "d = InspectFrame (stream_state (status s)) (Some bs) (length bs)"
  note p = process.simps [of x bs s w, folded d_def, unfolded Let_def]
  from "1.prems" show ?case
    using "1.IH" [OF _ d_def] unfolding p
    by (auto split: if_splits FrameStatus.splits sum.splits dest: le_trans)
       (metis diff_le_self le_trans length_drop)
qed

section \<open>Examples\<close>

definition example_world :: "unit world" where
  "example_world = \<lparr>login_db = (), sql_log = [], rand_calls = 0, realm_list = mk_RealmList,
     wall_time = 0, files = (\<lambda>_. None), s_connections = 1, s_authed = 0\<rparr>"

definition example_sock :: "eStatus \<Rightarrow> nat sock" where
  "example_sock st =
     (fst (snd (mk_AuthSocket (example_ext id (\<lambda>_. None) []) 0 30 default_PatchPolicy example_world)))
       \<lparr>status := st, m_sender := True, m_closer := True\<rparr>"

lemma example_sock_simps [simp]:
  "status (example_sock st) = st" "\<not> m_closed (example_sock st)" "m_sender (example_sock st)"
  by (simp_all add: example_sock_def mk_AuthSocket_def)

section \<open>Properties\<close>

text \<open>
  C2: how TCP cuts the stream does not matter.  Giving a session two pieces of input one
  after the other has the same effect on the session and on the world (every packet sent,
  every statement, every number drawn) as giving it both at once, a fault included, as
  long as the pieces and what is pending fit under the input limit together; unless the
  connection is closed, the bytes left pending are the same too.
\<close>
theorem onData_segmentation:
  assumes "length (m_readBuf rb) + length d1 + length d2 \<le> 65539"
  shows "case onData x d1 rb s w of
           Inl e \<Rightarrow> onData x (d1 @ d2) rb s w = Inl e
         | Inr (rb1, s1, w1) \<Rightarrow>
             (case onData x d2 rb1 s1 w1 of
                Inl e \<Rightarrow> onData x (d1 @ d2) rb s w = Inl e
              | Inr (rb2, s2, w2) \<Rightarrow>
                  \<exists>rb'. onData x (d1 @ d2) rb s w = Inr (rb', s2, w2) \<and> (m_closed s2 \<or> rb' = rb2))"
proof (cases "m_closed s")
  case True
  then show ?thesis by (simp add: onData_closed)
next
  case False
  have both: "onData x (d1 @ d2) rb s w =
      (case process x ((m_readBuf rb @ d1) @ d2) s w of
         Inl e \<Rightarrow> Inl e | Inr (bs, s', w') \<Rightarrow> Inr (\<lparr>m_readBuf = bs, m_readPos = 0\<rparr>, s', w'))"
    and one: "onData x d1 rb s w =
      (case process x (m_readBuf rb @ d1) s w of
         Inl e \<Rightarrow> Inl e | Inr (bs, s', w') \<Rightarrow> Inr (\<lparr>m_readBuf = bs, m_readPos = 0\<rparr>, s', w'))"
    using assms False by (simp_all add: onData_process)
  note app = process_append [of x "m_readBuf rb @ d1" d2 s w]
  show ?thesis
  proof (cases "process x (m_readBuf rb @ d1) s w")
    case (Inl e)
    with app show ?thesis by (simp add: one both)
  next
    case (Inr r)
    obtain bs s1 w1 where r: "r = (bs, s1, w1)" by (cases r) auto
    show ?thesis
    proof (cases "m_closed s1")
      case True
      with app Inr r obtain r' where "process x ((m_readBuf rb @ d1) @ d2) s w = Inr (r', s1, w1)"
        by auto
      with True Inr r show ?thesis by (simp add: one both onData_closed)
    next
      case open1: False
      have "length bs + length d2 \<le> 65539"
        using process_length Inr r assms by fastforce
      with open1 app Inr r show ?thesis
        by (auto simp: one both onData_process split: sum.splits)
    qed
  qed
qed

theorem onData_segmentation_witness:
  "case onData (example_ext id (\<lambda>_. None) []) [0x10, 0] empty_readbuf (example_sock STATUS_AUTHED) example_world of
     Inl e \<Rightarrow> False
   | Inr (rb1, s1, w1) \<Rightarrow> m_readBuf rb1 = [0x10, 0] \<and>
       (case onData (example_ext id (\<lambda>_. None) []) [0, 0, 0] rb1 s1 w1 of
          Inl e \<Rightarrow> onData (example_ext id (\<lambda>_. None) []) ([0x10, 0] @ [0, 0, 0]) empty_readbuf
            (example_sock STATUS_AUTHED) example_world = Inl e
        | Inr (rb2, s2, w2) \<Rightarrow>
            \<exists>rb'. onData (example_ext id (\<lambda>_. None) []) ([0x10, 0] @ [0, 0, 0]) empty_readbuf
              (example_sock STATUS_AUTHED) example_world = Inr (rb', s2, w2) \<and> (m_closed s2 \<or> rb' = rb2))"
proof -
  let ?x = "example_ext id (\<lambda>_. None) []"
  let ?s = "example_sock STATUS_AUTHED"
  have "InspectFrame Authenticated (Some [0x10, 0]) (length [0x10 :: byte, 0]) = IncompleteFrame 5"
    by (simp add: InspectFrame_def InspectFixed_def IsState_def)
  then have "process ?x [0x10, 0] ?s example_world = Inr ([0x10, 0], ?s, example_world)"
    unfolding process.simps [of ?x "[0x10, 0]"] by (simp add: IncompleteFrame_def Let_def)
  then have "onData ?x [0x10, 0] empty_readbuf ?s example_world =
      Inr (\<lparr>m_readBuf = [0x10, 0], m_readPos = 0\<rparr>, ?s, example_world)"
    by (simp add: onData_process empty_readbuf_def)
  then show ?thesis
    using onData_segmentation [of empty_readbuf "[0x10, 0]" "[0, 0, 0]" ?x ?s example_world]
    by (simp add: empty_readbuf_def)
qed

text \<open>
  C18: the receive path refines an abstract machine on byte strings.  For any input,
  \<open>onData\<close> does nothing on a closed session, closes an open one whose pending input would
  exceed 65539 bytes, and otherwise behaves as \<open>process\<close> on the pending bytes followed by
  the input: cut off one well-formed frame after the other, run what it asks for, stop at
  an incomplete one, close on a malformed one.  The cursor, the dispatch table and the
  removal of consumed bytes leave no trace.
\<close>
theorem onData_refines_process:
  assumes "length (m_readBuf rb) + length data < 2 ^ 64"
  shows "onData x data rb s w =
     (if m_closed s then Inr (rb, s, w)
      else if 65539 < length (m_readBuf rb) + length data
      then Inr (empty_readbuf, close_connection s, w)
      else case process x (m_readBuf rb @ data) s w of
             Inl e \<Rightarrow> Inl e
           | Inr (bs, s', w') \<Rightarrow> Inr (\<lparr>m_readBuf = bs, m_readPos = 0\<rparr>, s', w'))"
  using assms by (rule onData_process)

theorem onData_refines_process_witness:
  "onData (example_ext id (\<lambda>_. None) []) [0xFF] empty_readbuf (example_sock STATUS_CHALLENGE) example_world =
     Inr (empty_readbuf, close_connection (example_sock STATUS_CHALLENGE), example_world)"
proof -
  let ?x = "example_ext id (\<lambda>_. None) []"
  let ?s = "example_sock STATUS_CHALLENGE"
  have "InspectFrame Challenge (Some [0xFF]) (length [0xFF :: byte]) = RejectWith UnknownCommand"
    by (simp add: InspectFrame_def)
  then have "process ?x [0xFF] ?s example_world = Inr ([], close_connection ?s, example_world)"
    unfolding process.simps [of ?x "[0xFF]"] by (simp add: RejectWith_def Let_def)
  then show ?thesis
    using onData_refines_process [of empty_readbuf "[0xFF]" ?x ?s example_world]
    by (simp add: empty_readbuf_def)
qed

text \<open>
  C20: the two checks the source keeps as defence in depth never fire.  When the inspector
  has accepted a frame, the table has a row for its command with the session's status, and
  the handler, whatever it returns, has consumed exactly the bytes of the frame and left
  the rest of the buffer alone.
\<close>
theorem handlers_consume_exactly_the_frame:
  assumes "m_readPos rb \<le> length (m_readBuf rb)"
    and "fd_status (inspect_pending rb s) = Complete"
    and "dispatch x (m_readBuf rb ! m_readPos rb) rb s w = Inr (ok, rb', s', w')"
  shows "rb' = rb\<lparr>m_readPos := m_readPos rb + frameSize (inspect_pending rb s)\<rparr> \<and>
         (\<exists>cmd h. (cmd, status s, h) \<in> set (table x) \<and> cmd_code cmd = m_readBuf rb ! m_readPos rb)"
proof -
  have ok: "buf_ok rb" using assms(1) by (simp add: buf_ok_def)
  have d: "inspect_pending rb s =
      InspectFrame (stream_state (status s)) (Some (pending rb)) (length (pending rb))"
    by (simp add: inspect_pending_def recv_len_pending [OF ok])
  have "pending rb \<noteq> []" using guard.complete_size [OF assms(2) [unfolded d]] by auto
  then have first: "m_readBuf rb ! m_readPos rb = pending rb ! 0" by (rule pending_nth_0)
  have "rb' = recv_skip (frameSize (inspect_pending rb s)) rb"
    unfolding d
    by (rule with_buffer_keeps)
       (rule trans [OF dispatch_frame [OF ok assms(2) [unfolded d], symmetric] assms(3) [unfolded first]])
  moreover have "\<exists>cmd h. (cmd, status s, h) \<in> set (table x) \<and> cmd_code cmd = pending rb ! 0"
    using assms(2) unfolding d
    by (cases rule: InspectFrame_completeE) (simp_all add: table_def stream_state_eq_iff, fastforce+)
  ultimately show ?thesis by (simp add: recv_skip_def first)
qed

theorem handlers_consume_exactly_the_frame_witness:
  "let rb = \<lparr>m_readBuf = [0x34, 7], m_readPos = 0\<rparr>; s = example_sock STATUS_PATCH in
   \<exists>rb' s' w'. dispatch (example_ext id (\<lambda>_. None) []) 0x34 rb s example_world = Inr (True, rb', s', w') \<and>
     m_readPos rb' = 1"
proof -
  let ?rb = "\<lparr>m_readBuf = [0x34, 7], m_readPos = 0\<rparr>" and ?s = "example_sock STATUS_PATCH"
  have i: "inspect_pending ?rb ?s = CompleteFrame 1"
    by (simp add: inspect_pending_def InspectFrame_def InspectFixed_def IsState_def pending_def
        recv_len_def)
  have d: "dispatch (example_ext id (\<lambda>_. None) []) 0x34 ?rb ?s example_world =
      Inr (True, recv_skip 1 ?rb, close_connection ?s, example_world)"
    by (simp add: dispatch_def table_def HandleXferCancel_def cancel_body_def)
  show ?thesis
    using handlers_consume_exactly_the_frame [of ?rb ?s "example_ext id (\<lambda>_. None) []" example_world
        True "recv_skip 1 ?rb" "close_connection ?s" example_world] i d
    by (simp add: CompleteFrame_def)
qed

end
