(* ===== verification/SessionInvariant.thy ===== *)
theory SessionInvariant
  imports OnData
begin

text \<open>
  The invariant of a session, its parts (the group of the SRP numbers, the deadline, the
  escaped account name, the statements sent to the database), and the first of the handlers'
  bodies that keep it.
\<close>

section \<open>Sending and closing as record updates\<close>

lemma snd_send:
  "snd (send b s) =
     s\<lparr>sent := sent s @ (if b = [] \<or> m_closed s \<or> \<not> m_sender s then [] else [b])\<rparr>"
  by (simp add: send_def)

lemma close_connection_eq:
  "close_connection s =
     s\<lparr>m_authDeadline := deactivate (m_authDeadline s), m_closed := True,
       closer_calls := closer_calls s + (if m_closed s \<or> \<not> m_closer s then 0 else 1)\<rparr>"
  by (cases s) (simp add: close_connection_def deactivate_auth_deadline_def Let_def)

lemma m_active_deactivate [simp]: "\<not> m_active (deactivate d)"
  by (simp add: deactivate_def)

lemmas session_simps = snd_send close_connection_eq deactivate_auth_deadline_def SendProof_def
  SendInvalidVersion_def onClose_def

section \<open>Statements\<close>

text \<open>
  A statement is safe when every string argument is the output of the escaping
  function, hexadecimal digits the server produced, or the peer address that the
  transport supplied.
\<close>

definition arg_safe :: "('bn, 'db) ext \<Rightarrow> string \<Rightarrow> sql_arg \<Rightarrow> bool" where
  "arg_safe x addr a =
     (case a of
        SqlS t \<Rightarrow> (\<exists>u. t = c_string (db_escape_string x u)) \<or> (\<exists>n. t = bn_AsHexStr x n) \<or>
                   t = c_string addr
      | _ \<Rightarrow> True)"

definition sql_safe :: "('bn, 'db) ext \<Rightarrow> string \<Rightarrow> sql \<Rightarrow> bool" where
  "sql_safe x addr q = (\<forall>a \<in> set (snd q). arg_safe x addr a)"

lemma arg_safe_simps [simp]:
  "arg_safe x addr (SqlU n)" "arg_safe x addr (SqlD i)"
  "arg_safe x addr (SqlS (c_string (db_escape_string x u)))"
  "arg_safe x addr (SqlS (bn_AsHexStr x k))" "arg_safe x addr (SqlS (c_string addr))"
  by (auto simp: arg_safe_def)

text \<open>How a body may change the shared state.\<close>

definition world_grows :: "('bn, 'db) ext \<Rightarrow> string \<Rightarrow> 'db world \<Rightarrow> 'db world \<Rightarrow> bool" where
  "world_grows x addr w w' \<longleftrightarrow>
     (\<exists>qs. sql_log w' = sql_log w @ qs \<and> (\<forall>q \<in> set qs. sql_safe x addr q)) \<and>
     s_connections w' = s_connections w \<and> files w' = files w \<and> wall_time w' = wall_time w"

lemma world_grows_refl [simp]: "world_grows x addr w w"
  by (simp add: world_grows_def)

lemma world_grows_trans:
  "world_grows x addr w1 w2 \<Longrightarrow> world_grows x addr w2 w3 \<Longrightarrow> world_grows x addr w1 w3"
  unfolding world_grows_def by auto

lemma world_grows_updates [simp]:
  "world_grows x addr v (w\<lparr>login_db := d\<rparr>) = world_grows x addr v w"
  "world_grows x addr v (w\<lparr>rand_calls := n\<rparr>) = world_grows x addr v w"
  "world_grows x addr v (w\<lparr>s_authed := a\<rparr>) = world_grows x addr v w"
  "world_grows x addr v (w\<lparr>realm_list := rl\<rparr>) = world_grows x addr v w"
  by (simp_all add: world_grows_def)

lemma world_grows_log [simp]:
  "sql_log w = L \<Longrightarrow> world_grows x addr v w \<Longrightarrow> sql_safe x addr q \<Longrightarrow>
   world_grows x addr v (w\<lparr>sql_log := L @ [q]\<rparr>)"
  by (auto simp: world_grows_def)

lemma world_grows_ops [simp]:
  "world_grows x addr v w \<Longrightarrow> sql_safe x addr q \<Longrightarrow> world_grows x addr v (snd (PQuery x q w))"
  "world_grows x addr v w \<Longrightarrow> sql_safe x addr q \<Longrightarrow> world_grows x addr v (PExecute x q w)"
  "world_grows x addr v w \<Longrightarrow> sql_safe x addr q \<Longrightarrow> world_grows x addr v (snd (DirectPExecute x q w))"
  "world_grows x addr v w \<Longrightarrow> world_grows x addr v (snd (SetRand x bits w))"
  "world_grows x addr v w \<Longrightarrow> world_grows x addr v (count_authed w)"
  by (simp_all add: PQuery_def PExecute_def DirectPExecute_def SetRand_def count_authed_def split_beta)

lemma world_authed [simp]:
  "s_authed (snd (PQuery x q w)) = s_authed w" "s_authed (PExecute x q w) = s_authed w"
  "s_authed (snd (DirectPExecute x q w)) = s_authed w" "s_authed (snd (SetRand x bits w)) = s_authed w"
  "s_authed (count_authed w) = s_authed w + 1"
  by (simp_all add: PQuery_def PExecute_def DirectPExecute_def SetRand_def count_authed_def split_beta)

lemmas world_ops = PQuery_def PExecute_def DirectPExecute_def SetRand_def count_authed_def

section \<open>The invariant of a session\<close>

definition valid_name :: "string \<Rightarrow> bool" where
  "valid_name n \<longleftrightarrow> n \<noteq> [] \<and> length n \<le> 255 \<and> CHR 0x00 \<notin> set n"

definition named_status :: "eStatus \<Rightarrow> bool" where
  "named_status st = (st \<in> {STATUS_LOGON_PROOF, STATUS_RECON_PROOF, STATUS_PATCH, STATUS_AUTHED})"

definition inv_name :: "('bn, 'db) ext \<Rightarrow> 'bn sock \<Rightarrow> bool" where
  "inv_name x s \<longleftrightarrow>
     (named_status (status s) \<longrightarrow> safelogin s = db_escape_string x (login s) \<and> valid_name (login s))"

definition inv_deadline :: "Deadline \<Rightarrow> 'bn sock \<Rightarrow> bool" where
  "inv_deadline dl s \<longleftrightarrow>
     (m_closed s \<or> status s = STATUS_AUTHED \<or> status s = STATUS_PATCH \<or> transfers s \<noteq> [] \<longrightarrow>
        \<not> m_active (m_authDeadline s)) \<and>
     (\<not> m_closed s \<and> status s \<noteq> STATUS_AUTHED \<and> status s \<noteq> STATUS_PATCH \<and> transfers s = [] \<longrightarrow>
        m_authDeadline s = dl)"

definition inv_patch :: "'bn sock \<Rightarrow> bool" where
  "inv_patch s \<longleftrightarrow>
     (m_patchArtifact s \<noteq> None \<longleftrightarrow> status s = STATUS_PATCH) \<and>
     (transfers s \<noteq> [] \<longrightarrow> length (transfers s) = 1 \<and> status s = STATUS_CLOSED) \<and>
     (\<forall>j \<in> set (transfers s). job_sender j = m_sender s \<and> job_closer j = m_closer s \<and> job_flow j = m_flowControl s)"

definition inv_close :: "'bn sock \<Rightarrow> bool" where
  "inv_close s \<longleftrightarrow> closer_calls s \<le> (if m_closed s then 1 else 0)"

definition inv_group :: "('bn, 'db) ext \<Rightarrow> 'bn sock \<Rightarrow> bool" where
  "inv_group x s \<longleftrightarrow> srp_N s = bn_SetHexStr x srp_prime \<and> srp_g s = bn_SetDword x 7"

definition inv :: "('bn, 'db) ext \<Rightarrow> Deadline \<Rightarrow> 'bn sock \<Rightarrow> bool" where
  "inv x dl s \<longleftrightarrow> inv_name x s \<and> inv_deadline dl s \<and> inv_patch s \<and> inv_close s \<and> inv_group x s"

lemmas inv_defs = inv_name_def inv_deadline_def inv_patch_def inv_close_def inv_group_def named_status_def

lemma inv_initial:
  "mk_AuthSocket x now timeout pol w = (rb, s, w') \<Longrightarrow> inv x (mk_Deadline now timeout) s"
  by (auto simp: mk_AuthSocket_def inv_def inv_defs)

lemma inv_close_connection [simp]: "inv x dl s \<Longrightarrow> inv x dl (close_connection s)"
  by (simp add: inv_def inv_defs close_connection_eq split: if_splits)

lemma inv_onClose: "inv x dl s \<Longrightarrow> inv x dl (onClose s)"
  by (simp add: inv_def inv_defs onClose_def deactivate_auth_deadline_def split: if_splits)

section \<open>The bodies keep it\<close>

text \<open>
  What is known of a session at any time after it was in the state \<open>s0\<close>, \<open>w0\<close>: the
  invariant holds, the channels, the peer and the policy are the same, the statements since then are
  safe, and the counter of authenticated sessions has moved with the status, which does
  not leave \<open>STATUS_AUTHED\<close>.
\<close>

definition session_ok ::
  "('bn, 'db) ext \<Rightarrow> Deadline \<Rightarrow> 'bn sock \<Rightarrow> 'db world \<Rightarrow> 'bn sock \<Rightarrow> 'db world \<Rightarrow> bool" where
  "session_ok x dl s0 w0 s w \<longleftrightarrow>
     inv x dl s \<and> m_sender s = m_sender s0 \<and> m_closer s = m_closer s0 \<and> m_flowControl s = m_flowControl s0 \<and>
     remote_address s = remote_address s0 \<and> patchPolicy s = patchPolicy s0 \<and>
     world_grows x (remote_address s0) w0 w \<and>
     s_authed w = s_authed w0 +
       (if status s = STATUS_AUTHED \<and> status s0 \<noteq> STATUS_AUTHED then 1 else 0) \<and>
     (status s0 = STATUS_AUTHED \<longrightarrow> status s = STATUS_AUTHED)"

lemma session_ok_refl: "inv x dl s \<Longrightarrow> session_ok x dl s w s w"
  by (simp add: session_ok_def)

lemma session_ok_close: "session_ok x dl s0 w0 s w \<Longrightarrow> session_ok x dl s0 w0 (close_connection s) w"
  by (simp add: session_ok_def) (simp add: close_connection_eq)

text \<open>The members that the challenge's SRP part leaves alone.\<close>

definition challenge_keeps :: "'bn sock \<Rightarrow> 'bn sock \<Rightarrow> bool" where
  "challenge_keeps s s' \<longleftrightarrow>
     m_sender s' = m_sender s \<and> m_closer s' = m_closer s \<and> m_flowControl s' = m_flowControl s \<and> m_closed s' = m_closed s \<and>
     sent s' = sent s \<and> closer_calls s' = closer_calls s \<and> remote_address s' = remote_address s \<and>
     srp_N s' = srp_N s \<and> srp_g s' = srp_g s \<and> m_authDeadline s' = m_authDeadline s \<and>
     login s' = login s \<and> safelogin s' = safelogin s \<and> patchPolicy s' = patchPolicy s \<and>
     m_patchArtifact s' = m_patchArtifact s \<and> transfers s' = transfers s \<and>
     client_build s' = client_build s \<and> client_os s' = client_os s"

lemma challenge_keeps_refl [simp]: "challenge_keeps s s"
  by (simp add: challenge_keeps_def)

lemma SetVSFields_spec:
  assumes "safelogin s = db_escape_string x u" and "world_grows x addr v w"
  shows "challenge_keeps s (fst (SetVSFields x rI s w))" 
    and "status (fst (SetVSFields x rI s w)) = status s"
    and "world_grows x addr v (snd (SetVSFields x rI s w))"
    and "s_authed (snd (SetVSFields x rI s w)) = s_authed w"
  using assms
  by (simp_all add: SetVSFields_def challenge_keeps_def Let_def split_beta sql_safe_def)

lemma challenge_srp_spec:
  assumes r: "challenge_srp x acct loc s w = Inr (pkt, s', w')"
    and sl: "safelogin s = db_escape_string x u" and g: "world_grows x addr v w"
  shows "challenge_keeps s s' \<and> status s' = STATUS_LOGON_PROOF \<and>
         world_grows x addr v w' \<and> s_authed w' = s_authed w"
proof -
  define p where "p = (if length (GetString (acct ! 5)) \<noteq> s_BYTE_SIZE * 2 \<or>
      length (GetString (acct ! 6)) \<noteq> s_BYTE_SIZE * 2
      then SetVSFields x (GetString (acct ! 0)) s w
      else (s\<lparr>srp_s := bn_SetHexStr x (c_string (GetString (acct ! 6))),
               srp_v := bn_SetHexStr x (c_string (GetString (acct ! 5)))\<rparr>, w))"
  have "challenge_keeps s (fst p)" "world_grows x addr v (snd p)" "s_authed (snd p) = s_authed w"
    using SetVSFields_spec [OF sl g] g unfolding p_def by (auto simp: challenge_keeps_def)
  then show ?thesis
    using r unfolding challenge_srp_def Let_def p_def [symmetric]
    by (clarsimp simp: split_beta challenge_keeps_def split: if_splits)
qed

lemma challenge_account_spec:
  assumes r: "challenge_account x acct loc s w = Inr (pkt, s', w')"
    and sl: "safelogin s = db_escape_string x u" and g: "world_grows x addr v w"
  shows "challenge_keeps s s' \<and> status s' \<in> {status s, STATUS_LOGON_PROOF} \<and>
         world_grows x addr v w' \<and> s_authed w' = s_authed w"
proof -
  let ?w1 = "snd (PQuery x (sql_account_banned, [SqlU (GetUInt32 (acct ! 1))]) w)"
  have g1: "world_grows x addr v ?w1" "s_authed ?w1 = s_authed w"
    using g by (simp_all add: sql_safe_def)
  have "(s' = s \<and> (w' = w \<or> w' = ?w1)) \<or> challenge_srp x acct loc s ?w1 = Inr (pkt, s', w')"
    using r by (auto simp: challenge_account_def Let_def split_beta split: if_splits option.splits)
  then show ?thesis
    using g g1 challenge_srp_spec [OF _ sl g1(1)] by force
qed

lemma challenge_answer_spec:
  assumes r: "challenge_answer x loc s w = Inr (ok, s', w')"
    and sl: "safelogin s = db_escape_string x u" and g: "world_grows x (remote_address s) v w"
  shows "\<exists>s1 pkt. s' = snd (send pkt s1) \<and> challenge_keeps s s1 \<and>
           status s1 \<in> {status s, STATUS_LOGON_PROOF} \<and> ok \<and>
           world_grows x (remote_address s) v w' \<and> s_authed w' = s_authed w"
proof -
  let ?w1 = "snd (PQuery x (sql_ip_banned, [SqlS (c_string (db_escape_string x (remote_address s)))]) w)"
  let ?w2 = "snd (PQuery x (sql_account, [SqlS (c_string (safelogin s))]) ?w1)"
  have g1: "world_grows x (remote_address s) v ?w1" "s_authed ?w1 = s_authed w"
    using g by (simp_all add: sql_safe_def)
  have g2: "world_grows x (remote_address s) v ?w2" "s_authed ?w2 = s_authed w"
    using g1 sl by (simp_all add: sql_safe_def)
  have "ok \<and> (\<exists>s1 pkt. s' = snd (send pkt s1) \<and>
      ((s1 = s \<and> (w' = ?w1 \<or> w' = ?w2)) \<or>
       (\<exists>acct tail. challenge_account x acct loc s ?w2 = Inr (tail, s1, w'))))"
    using r unfolding challenge_answer_def Let_def
    by (auto simp: split_beta split: option.splits sum.splits)
  then show ?thesis
    using g1 g2 challenge_account_spec [OF _ sl g2(1)] by fastforce
qed

section \<open>The bodies on well-formed frames\<close>

lemma ch_login_encode:
  assumes "frame_ok (ChallengeFrame r e mid acc)"
  shows "ch_login (encode (ChallengeFrame r e mid acc) @ [0]) = Some (to_string acc)"
    and "valid_name (to_string acc)"
proof -
  note lay = encode_Challenge_layout [OF assms]
  have "subbytes 34 (length acc) (encode (ChallengeFrame r e mid acc) @ [0]) = acc"
    using assms by (simp add: encode_Challenge_eq subbytes_def)
  moreover have "(encode (ChallengeFrame r e mid acc) @ [0]) ! 33 =
      encode (ChallengeFrame r e mid acc) ! 33"
    using lay(1) by (simp add: nth_append)
  ultimately show "ch_login (encode (ChallengeFrame r e mid acc) @ [0]) = Some (to_string acc)"
    using lay(1,3) by (simp add: ch_login_def)
  have "CHR 0x00 \<notin> set (to_string acc)"
    using assms by (auto simp: to_string_def dest: sym)
  then show "valid_name (to_string acc)"
    using assms by (simp add: valid_name_def to_string_def)
qed

text \<open>The terminator stops the reads of C strings, wherever else the packet has a zero byte.\<close>

definition os_field :: "bytes \<Rightarrow> string" where
  "os_field buf = c_str (drop 17 buf)"

lemma ch_text_encode:
  assumes "frame_ok (ChallengeFrame r e mid acc)"
  shows "ch_os (encode (ChallengeFrame r e mid acc) @ [0]) = Some (os_field (encode (ChallengeFrame r e mid acc) @ [0]))"
    and "\<exists>t. ch_I (encode (ChallengeFrame r e mid acc) @ [0]) = Some t"
  using encode_Challenge_layout(1) [OF assms] by (simp_all add: ch_os_def ch_I_def os_field_def)

end
