(* ===== verification/SessionSteps.thy ===== *)
theory SessionSteps
  imports SessionInvariant
begin

text \<open>
  The handlers' bodies keep the invariant of a session, hence the receive loop does (the
  locale \<open>frame_property\<close> lifts a property of one frame to any input, \<open>frame_safety\<close> the
  absence of faults).  The steps of a session are the calls the transport and the server
  make: input, the deadline sweep, the transport's close, and whatever the rest of the
  process does to the shared state; the invariant holds in every reachable state.
\<close>

section \<open>Bodies\<close>

lemma logon_challenge_ok:
  assumes so: "session_ok x dl s0 w0 s w" and f: "frame_ok (ChallengeFrame r e mid acc)"
    and st: "status s = STATUS_CHALLENGE" and op: "\<not> m_closed s"
    and run: "logon_challenge_body x (encode (ChallengeFrame r e mid acc) @ [0]) s w = Inr (ok, s', w')"
  shows "session_ok x dl s0 w0 s' w'"
proof -
  let ?buf = "encode (ChallengeFrame r e mid acc) @ [0]"
  define s1 where "s1 = s\<lparr>status := STATUS_CLOSED, login := to_string acc,
    client_build := ch_build ?buf, client_os := os_field ?buf\<rparr>"
  define s2 where "s2 = s1\<lparr>client_os := rev (client_os s1),
    safelogin := db_escape_string x (login s1)\<rparr>"
  note name = ch_login_encode [OF f]
  obtain t where strs: "ch_os ?buf = Some (os_field ?buf)" "ch_I ?buf = Some t" using ch_text_encode [OF f] by blast
  from run consider "s' = s1" "w' = w"
    | "challenge_answer x (ParseClientLocaleClaim (ch_country ?buf)) s2 w = Inr (ok, s', w')"
    by (auto simp: logon_challenge_body_def Let_def name(1) strs s1_def s2_def split: if_splits)
  then show ?thesis
  proof cases
    case 1
    with so st op show ?thesis
      by (auto simp: s1_def session_ok_def inv_def inv_defs)
  next
    case 2
    have "world_grows x (remote_address s2) w0 w"
      using so by (simp add: session_ok_def s2_def s1_def)
    from challenge_answer_spec [OF 2 _ this, of "to_string acc"]
    obtain s3 pkt where s': "s' = snd (send pkt s3)" and "challenge_keeps s2 s3"
      and "status s3 \<in> {status s2, STATUS_LOGON_PROOF}"
      and "world_grows x (remote_address s2) w0 w'" "s_authed w' = s_authed w"
      by (auto simp: s2_def s1_def)
    with so st op name(2) show ?thesis
      unfolding s' snd_send
      by (auto simp: session_ok_def challenge_keeps_def s1_def s2_def inv_def inv_defs)
  qed
qed

lemma reconnect_challenge_ok:
  assumes so: "session_ok x dl s0 w0 s w" and f: "frame_ok (ChallengeFrame r e mid acc)"
    and st: "status s = STATUS_CHALLENGE" and op: "\<not> m_closed s"
    and run: "reconnect_challenge_body x (encode (ChallengeFrame r e mid acc) @ [0]) s w = Inr (ok, s', w')"
  shows "session_ok x dl s0 w0 s' w'"
proof -
  let ?buf = "encode (ChallengeFrame r e mid acc) @ [0]"
  define loc where "loc = (case ParseClientLocaleClaim (ch_country ?buf) of None \<Rightarrow> [] | Some l \<Rightarrow> l)"
  define s1 where "s1 = s\<lparr>status := STATUS_CLOSED, login := to_string acc,
    safelogin := db_escape_string x (to_string acc), client_build := ch_build ?buf,
    localizationName := loc, client_os := os_field ?buf\<rparr>"
  define s2 where "s2 = s1\<lparr>client_os := rev (client_os s1)\<rparr>"
  define q where "q = PQuery x (sql_session_key, [SqlS (c_string (safelogin s2))]) w"
  note name = ch_login_encode [OF f]
  obtain t where strs: "ch_os ?buf = Some (os_field ?buf)" "ch_I ?buf = Some t" using ch_text_encode [OF f] by blast
  have sq: "world_grows x (remote_address s0) w0 (snd q)" "s_authed (snd q) = s_authed w"
    using so by (simp_all add: q_def session_ok_def s2_def s1_def sql_safe_def)
  from run consider "s' = s1" "w' = w" | "s' = close_connection s2" "w' = snd q"
    | k y pkt where "s' = snd (send pkt (s2\<lparr>srp_K := k, status := STATUS_RECON_PROOF, reconnectProof := y\<rparr>))"
        "w' = snd (SetRand x 128 (snd q))"
    by (auto simp: reconnect_challenge_body_def Let_def name(1) strs split_beta
        s1_def [symmetric] s2_def [symmetric] q_def [symmetric] loc_def [symmetric]
        split: if_splits option.splits)
  then show ?thesis
  proof cases
    case 1
    with so st op show ?thesis by (auto simp: s1_def session_ok_def inv_def inv_defs)
  next
    case 2
    have "session_ok x dl s0 w0 s2 (snd q)"
      using so st op sq by (auto simp: s1_def s2_def session_ok_def inv_def inv_defs)
    then show ?thesis unfolding 2 by (rule session_ok_close)
  next
    case 3
    with so st op sq name(2) show ?thesis
      unfolding 3(1) snd_send
      by (auto simp: s1_def s2_def session_ok_def inv_def inv_defs)
  qed
qed

text \<open>
  In the bodies of the proofs the status was set to closed first; until the status is
  set again the session is as in the state before, apart from its status and keys.
\<close>

definition waiting :: "('bn, 'db) ext \<Rightarrow> Deadline \<Rightarrow> 'bn sock \<Rightarrow> 'db world \<Rightarrow> 'bn sock \<Rightarrow> 'db world \<Rightarrow> bool" where
  "waiting x dl s0 w0 s w \<longleftrightarrow>
     session_ok x dl s0 w0 s w \<and> status s = STATUS_CLOSED \<and> \<not> m_closed s \<and>
     m_authDeadline s = dl \<and> m_patchArtifact s = None \<and> transfers s = [] \<and>
     status s0 \<noteq> STATUS_AUTHED \<and> safelogin s = db_escape_string x (login s) \<and> valid_name (login s)"

lemma waitingI:
  assumes "session_ok x dl s0 w0 s w" and "\<not> m_closed s"
    and "status s = STATUS_LOGON_PROOF \<or> status s = STATUS_RECON_PROOF"
  shows "waiting x dl s0 w0 (s\<lparr>status := STATUS_CLOSED\<rparr>) w"
  using assms(3)
proof (elim disjE)
  assume "status s = STATUS_LOGON_PROOF"
  with assms(1,2) show ?thesis by (clarsimp simp: waiting_def session_ok_def inv_def inv_defs)
next
  assume "status s = STATUS_RECON_PROOF"
  with assms(1,2) show ?thesis by (clarsimp simp: waiting_def session_ok_def inv_def inv_defs)
qed

lemma inv_updates [simp]:
  "inv x dl (s\<lparr>srp_K := k\<rparr>) = inv x dl s" "inv x dl (s\<lparr>client_os := os\<rparr>) = inv x dl s"
  "inv x dl (s\<lparr>sent := ps\<rparr>) = inv x dl s"
  by (simp_all add: inv_def inv_defs)

lemma waiting_updates [simp]:
  "waiting x dl s0 w0 (s\<lparr>srp_K := k\<rparr>) w = waiting x dl s0 w0 s w"
  "waiting x dl s0 w0 (s\<lparr>client_os := os\<rparr>) w = waiting x dl s0 w0 s w"
  "waiting x dl s0 w0 (snd (send b s)) w = waiting x dl s0 w0 s w"
  by (simp_all add: waiting_def session_ok_def snd_send)

lemma waiting_ok: "waiting x dl s0 w0 s w \<Longrightarrow> session_ok x dl s0 w0 s w"
  by (simp add: waiting_def)

lemma waiting_world:
  "waiting x dl s0 w0 s w \<Longrightarrow> world_grows x (remote_address s0) w0 w' \<Longrightarrow> s_authed w' = s_authed w \<Longrightarrow>
   waiting x dl s0 w0 s w'"
  by (simp add: waiting_def session_ok_def)

lemma waiting_authed:
  assumes "waiting x dl s0 w0 s w"
  shows "session_ok x dl s0 w0 (deactivate_auth_deadline (s\<lparr>status := STATUS_AUTHED\<rparr>)) (count_authed w)"
  using assms
  by (clarsimp simp: waiting_def session_ok_def inv_def inv_defs deactivate_auth_deadline_def)

lemma OfferPatch_ok:
  assumes "waiting x dl s0 w0 s w" and "OfferPatch x s w = (ok, s', w')"
  shows "session_ok x dl s0 w0 s' w'"
proof (cases "Open (md5 x) (files w) (patch_path (client_build s) (localizationName s))")
  case None
  then have "s' = SendInvalidVersion x s" "w' = w" using assms(2) by (simp_all add: OfferPatch_def)
  then show ?thesis using waiting_ok [of x dl s0 w0 s' w'] assms(1) by (simp add: SendInvalidVersion_def)
next
  case (Some a)
  with assms show ?thesis
    by (clarsimp simp: OfferPatch_def Let_def snd_send deactivate_auth_deadline_def waiting_def
        session_ok_def inv_def inv_defs)
qed

lemma proof_accepted_ok:
  assumes wt: "waiting x dl s0 w0 s w" and r: "proof_accepted x A M s w = (ok, s', w')"
  shows "session_ok x dl s0 w0 s' w'"
proof -
  define s1 where "s1 = s\<lparr>client_os := db_escape_string x (client_os s)\<rparr>"
  define e where "e = DirectPExecute x (sql_publish_key,
               [SqlS (bn_AsHexStr x (srp_K s1)), SqlS (c_string (remote_address s1)),
                SqlU (GetLocaleByName x (localizationName s1)),
                SqlS (c_string (db_escape_string x (localizationName s))),
                SqlS (c_string (client_os s1)), SqlS (c_string (safelogin s1))]) w"
  have addr: "remote_address s1 = remote_address s0" "safelogin s1 = db_escape_string x (login s1)"
    using wt by (simp_all add: waiting_def session_ok_def s1_def)
  have "sql_safe x (remote_address s0) (sql_publish_key,
               [SqlS (bn_AsHexStr x (srp_K s1)), SqlS (c_string (remote_address s1)),
                SqlU (GetLocaleByName x (localizationName s1)),
                SqlS (c_string (db_escape_string x (localizationName s))),
                SqlS (c_string (client_os s1)), SqlS (c_string (safelogin s1))])"
    using addr by (simp add: sql_safe_def) (simp add: s1_def)
  moreover have "world_grows x (remote_address s0) w0 w"
    using wt by (simp add: waiting_def session_ok_def)
  ultimately have "world_grows x (remote_address s0) w0 (snd e)" unfolding e_def by simp
  moreover have "s_authed (snd e) = s_authed w" by (simp add: e_def)
  moreover have "waiting x dl s0 w0 s1 w" using wt by (simp add: s1_def)
  ultimately have w1: "waiting x dl s0 w0 s1 (snd e)" by (rule waiting_world [rotated])
  from r consider "OfferPatch x s w = (ok, s', w')" | "s' = SendInvalidVersion x s" "w' = w"
    | "s' = close_connection s1" "w' = snd e"
    | "s' = deactivate_auth_deadline (SendProof (server_proof x A M (srp_K s1)) s1\<lparr>status := STATUS_AUTHED\<rparr>)"
      "w' = count_authed (snd e)"
    by (auto simp: proof_accepted_def Let_def split_beta s1_def e_def split: if_splits)
  then show ?thesis
  proof cases
    case 1
    with wt show ?thesis by (rule OfferPatch_ok)
  next
    case 2
    then show ?thesis using waiting_ok [of x dl s0 w0 s' w'] wt by (simp add: SendInvalidVersion_def)
  next
    case 3
    then show ?thesis using waiting_ok [OF w1] session_ok_close by blast
  next
    case 4
    have "waiting x dl s0 w0 (SendProof (server_proof x A M (srp_K s1)) s1) (snd e)"
      using w1 by (simp add: SendProof_def)
    then show ?thesis unfolding 4 by (rule waiting_authed)
  qed
qed

lemma count_wrong_password_grows:
  assumes "world_grows x (remote_address s) w0 w" and "safelogin s = db_escape_string x u"
  shows "world_grows x (remote_address s) w0 (count_wrong_password x s w) \<and>
         s_authed (count_wrong_password x s w) = s_authed w"
  using assms
  by (simp add: count_wrong_password_def Let_def split_beta sql_safe_def split: option.split)

lemma logon_proof_ok:
  assumes so: "session_ok x dl s0 w0 s w" and st: "status s = STATUS_LOGON_PROOF" and op: "\<not> m_closed s"
    and run: "logon_proof_body x lp s w = Inr (ok, s', w')"
  shows "session_ok x dl s0 w0 s' w'"
proof -
  define s1 where "s1 = s\<lparr>status := STATUS_CLOSED\<rparr>"
  have w1: "waiting x dl s0 w0 s1 w" unfolding s1_def using so op st by (intro waitingI) simp_all
  from run consider "s' = s1" "w' = w"
    | k A M where "proof_accepted x A M (s1\<lparr>srp_K := k\<rparr>) w = (ok, s', w')"
    | k where "proof_rejected x (s1\<lparr>srp_K := k\<rparr>) w = (ok, s', w')"
    by (auto simp: logon_proof_body_def Let_def s1_def split: if_splits)
  then show ?thesis
  proof cases
    case 1
    with w1 show ?thesis by (simp add: waiting_ok)
  next
    case 2
    show ?thesis by (rule proof_accepted_ok [OF _ 2]) (simp add: w1)
  next
    case (3 k)
    then obtain b where s': "s' = snd (send b (s1\<lparr>srp_K := k\<rparr>))" and w': "w' = count_wrong_password x s' w"
      by (auto simp: proof_rejected_def Let_def split: if_splits)
    have w2: "waiting x dl s0 w0 s' w" unfolding s' by (simp add: w1)
    then have "remote_address s' = remote_address s0" "world_grows x (remote_address s') w0 w"
      "safelogin s' = db_escape_string x (login s')"
      by (simp_all add: waiting_def session_ok_def)
    with count_wrong_password_grows [of x s' w0 w "login s'"] w'
    have "waiting x dl s0 w0 s' w'" by (intro waiting_world [OF w2]) simp_all
    then show ?thesis by (rule waiting_ok)
  qed
qed

lemma reconnect_proof_ok:
  assumes so: "session_ok x dl s0 w0 s w" and st: "status s = STATUS_RECON_PROOF" and op: "\<not> m_closed s"
    and run: "reconnect_proof_body x lp s w = Inr (ok, s', w')"
  shows "session_ok x dl s0 w0 s' w'"
proof -
  define s1 where "s1 = s\<lparr>status := STATUS_CLOSED\<rparr>"
  have w1: "waiting x dl s0 w0 s1 w" unfolding s1_def using so op st by (intro waitingI) simp_all
  define e where "e = DirectPExecute x (sql_publish_identity,
     [SqlS (c_string (db_escape_string x (localizationName s1))),
      SqlS (c_string (db_escape_string x (client_os s1))), SqlS (c_string (safelogin s1))]) w"
  have "world_grows x (remote_address s0) w0 w" "safelogin s1 = db_escape_string x (login s1)"
    using w1 by (simp_all add: waiting_def session_ok_def)
  then have "world_grows x (remote_address s0) w0 (snd e)" "s_authed (snd e) = s_authed w"
    by (simp_all add: e_def sql_safe_def)
  with w1 have w2: "waiting x dl s0 w0 s1 (snd e)" by (rule waiting_world)
  from run consider "s' = s1" "w' = w" | "s' = close_connection s1" "w' = w \<or> w' = snd e"
    | pkt where "s' = deactivate_auth_deadline (snd (send pkt s1)\<lparr>status := STATUS_AUTHED\<rparr>)"
        "w' = count_authed (snd e)"
    by (auto simp: reconnect_proof_body_def reconnect_accepted_def Let_def split_beta
        s1_def [symmetric] e_def [symmetric] split: if_splits)
  then show ?thesis
  proof cases
    case 1
    with w1 show ?thesis by (simp add: waiting_ok)
  next
    case 2
    then show ?thesis
      using waiting_ok [OF w1] waiting_ok [OF w2] session_ok_close by blast
  next
    case 3
    have "waiting x dl s0 w0 (snd (send pkt s1)) (snd e)" using w2 by simp
    then show ?thesis unfolding 3 by (rule waiting_authed)
  qed
qed

lemma write_entries_grows:
  assumes "\<And>r w. world_grows x addr v w \<Longrightarrow> world_grows x addr v (snd (entry r w)) \<and>
      s_authed (snd (entry r w)) = s_authed w"
    and "world_grows x addr v w"
  shows "world_grows x addr v (snd (write_entries entry rs w)) \<and>
      s_authed (snd (write_entries entry rs w)) = s_authed w"
  using assms(2)
proof (induction rs arbitrary: w)
  case (Cons r rs)
  with assms(1) show ?case by (simp add: split_beta)
qed simp

lemma entry_grows:
  assumes "world_grows x addr v w"
  shows "world_grows x addr v (snd (vanilla_entry x s a c r w)) \<and> s_authed (snd (vanilla_entry x s a c r w)) = s_authed w"
    and "world_grows x addr v (snd (modern_entry x s a c r w)) \<and> s_authed (snd (modern_entry x s a c r w)) = s_authed w"
proof -
  have "world_grows x addr v (snd (AmountOfCharacters x r a w)) \<and> s_authed (snd (AmountOfCharacters x r a w)) = s_authed w"
  proof -
    let ?q = "PQuery x (sql_numchars, [SqlD (sint (m_ID r)), SqlU a]) w"
    have "snd (AmountOfCharacters x r a w) = snd ?q"
      by (simp add: AmountOfCharacters_def split: prod.split option.split)
    then show ?thesis using assms by (simp add: sql_safe_def)
  qed
  then show "world_grows x addr v (snd (vanilla_entry x s a c r w)) \<and> s_authed (snd (vanilla_entry x s a c r w)) = s_authed w"
    and "world_grows x addr v (snd (modern_entry x s a c r w)) \<and> s_authed (snd (modern_entry x s a c r w)) = s_authed w"
    by (simp_all add: vanilla_entry_def modern_entry_def Let_def split_beta)
qed

lemma LoadRealmlist_grows:
  assumes "world_grows x addr v w"
  shows "world_grows x addr v (snd (LoadRealmlist x a s w)) \<and> s_authed (snd (LoadRealmlist x a s w)) = s_authed w"
  using write_entries_grows [OF entry_grows(1) assms] write_entries_grows [OF entry_grows(2) assms]
  by (simp add: LoadRealmlist_def Let_def split_beta)

lemma realm_list_ok:
  assumes so: "session_ok x dl s0 w0 s w" and st: "status s = STATUS_AUTHED"
    and run: "realm_list_body x s w = Inr (ok, s', w')"
  shows "session_ok x dl s0 w0 s' w'"
proof -
  let ?q = "PQuery x (sql_account_id, [SqlS (c_string (safelogin s))]) w"
  have "safelogin s = db_escape_string x (login s)" "world_grows x (remote_address s0) w0 w"
    using so st by (simp_all add: session_ok_def inv_def inv_name_def named_status_def)
  then have g: "world_grows x (remote_address s0) w0 (snd ?q)" "s_authed (snd ?q) = s_authed w"
    by (simp_all add: sql_safe_def)
  define w1 where "w1 = snd ?q\<lparr>realm_list :=
      UpdateIfNeed x (login_db (snd ?q)) (wall_time (snd ?q)) (realm_list (snd ?q))\<rparr>"
  have g1: "world_grows x (remote_address s0) w0 w1" "s_authed w1 = s_authed w"
    using g by (simp_all add: w1_def)
  from run consider "s' = close_connection s" "w' = snd ?q"
    | pkt id where "s' = snd (send pkt s)" "w' = snd (LoadRealmlist x id s w1)"
    by (auto simp: realm_list_body_def Let_def split_beta w1_def split: prod.splits option.splits)
  then show ?thesis
  proof cases
    case 1
    have "session_ok x dl s0 w0 s (snd ?q)" using so g by (simp add: session_ok_def)
    then show ?thesis unfolding 1 by (rule session_ok_close)
  next
    case 2
    with so g1 LoadRealmlist_grows [OF g1(1)] show ?thesis by (simp add: session_ok_def snd_send)
  qed
qed

lemma xfer_ok:
  assumes so: "session_ok x dl s0 w0 s w" and st: "status s = STATUS_PATCH"
    and run: "xfer_body off s w = Inr (ok, s', w')"
  shows "session_ok x dl s0 w0 s' w'"
proof -
  obtain a where a: "m_patchArtifact s = Some a"
    using so st by (auto simp: session_ok_def inv_def inv_patch_def)
  define s1 where "s1 = s\<lparr>status := STATUS_CLOSED, m_patchArtifact := None\<rparr>"
  have t: "transfers s = []" "\<not> m_active (m_authDeadline s)"
    using so st by (auto simp: session_ok_def inv_def inv_patch_def inv_deadline_def)
  from run a consider "s' = close_connection s1" "w' = w"
    | j where "s' = s1\<lparr>transfers := [j]\<rparr>" "w' = w" "job_sender j = m_sender s" "job_closer j = m_closer s"
        "job_flow j = m_flowControl s"
    by (auto simp: xfer_body_def BeginPatchStream_def StartPatchTransfer_def Let_def s1_def t
        split: option.splits if_splits prod.splits)
  then show ?thesis
  proof cases
    case 1
    from so st t show ?thesis unfolding 1 close_connection_eq s1_def
      by (clarsimp simp: session_ok_def inv_def inv_defs split: if_splits)
  next
    case 2
    from so st t 2(3-5) show ?thesis unfolding 2(1,2) s1_def by (clarsimp simp: session_ok_def inv_def inv_defs)
  qed
qed

text \<open>
  The frames a session handles: each kind with the status that admits it and the body that
  runs.  The transfer can be started in two ways, with and without an offset.
\<close>
lemma run_frame_cases [consumes 2, case_names challenge reconnect prove reprove realms xfer cancel]:
  assumes "frame_state f = stream_state (status s)" and "run_frame x (encode f) s w = r"
  obtains e mid acc where "f = ChallengeFrame False e mid acc" and "status s = STATUS_CHALLENGE"
    and "logon_challenge_body x (encode (ChallengeFrame False e mid acc) @ [0]) s w = r"
  | e mid acc where "f = ChallengeFrame True e mid acc" and "status s = STATUS_CHALLENGE"
    and "reconnect_challenge_body x (encode (ChallengeFrame True e mid acc) @ [0]) s w = r"
  | d e where "f = LogonProofFrame d e" and "status s = STATUS_LOGON_PROOF" and "logon_proof_body x (encode f) s w = r"
  | d where "f = ReconnectProofFrame d" and "status s = STATUS_RECON_PROOF" and "reconnect_proof_body x (encode f) s w = r"
  | d where "f = RealmListFrame d" and "status s = STATUS_AUTHED" and "realm_list_body x s w = r"
  | off where "frame_cmd f \<in> {CMD_XFER_ACCEPT, CMD_XFER_RESUME}" and "status s = STATUS_PATCH" and "xfer_body off s w = r"
  | "f = XferCancelFrame" and "status s = STATUS_PATCH" and "cancel_body s w = r"
proof (cases f)
  case (ChallengeFrame rc e mid acc)
  with assms that(1,2) show thesis
    by (cases "status s"; cases rc) (auto simp: run_frame_def Let_def encode_0 simp del: encode_def)
qed (use assms that in \<open>cases "status s"; simp add: run_frame_def Let_def\<close>)+

lemma run_frame_ok:
  assumes so: "session_ok x dl s0 w0 s w" and op: "\<not> m_closed s" and f: "frame_ok f"
    and st: "frame_state f = stream_state (status s)"
    and run: "run_frame x (encode f) s w = Inr (ok, s', w')"
  shows "session_ok x dl s0 w0 s' w'"
  using st run
proof (cases rule: run_frame_cases)
  case (challenge e mid acc)
  show ?thesis by (rule logon_challenge_ok [OF so f [unfolded challenge(1)] challenge(2) op challenge(3)])
next
  case (reconnect e mid acc)
  show ?thesis by (rule reconnect_challenge_ok [OF so f [unfolded reconnect(1)] reconnect(2) op reconnect(3)])
next
  case (prove d e)
  show ?thesis by (rule logon_proof_ok [OF so prove(2) op prove(3)])
next
  case (reprove d)
  show ?thesis by (rule reconnect_proof_ok [OF so reprove(2) op reprove(3)])
next
  case (realms d)
  show ?thesis by (rule realm_list_ok [OF so realms(2,3)])
next
  case (xfer off)
  show ?thesis by (rule xfer_ok [OF so xfer(2,3)])
next
  case cancel
  then have "s' = close_connection s" "w' = w" by (simp_all add: cancel_body_def)
  with so show ?thesis by (simp add: session_ok_close)
qed

section \<open>The numbers of the challenge\<close>

lemma srp_prime_bounds: "0 < hex_val srp_prime" "hex_val srp_prime < 256 ^ 32"
  by (simp_all add: hex_val_def srp_prime_def hex_digit_def)

lemma challenge_srp_no_fault:
  assumes laws: "BigNumber_laws x val" and N: "srp_N s = bn_SetHexStr x srp_prime"
  shows "challenge_srp x acct loc s w \<noteq> Inl e"
proof -
  note L = BigNumber_lawsD [OF laws]
  have pos: "0 < val (bn_SetHexStr x srp_prime)" using srp_prime_bounds(1) by (simp add: L)
  have small: "bn_GetNumBytes x (bn_ModExp x g b (bn_SetHexStr x srp_prime)) \<le> 32" for g b
    using mod_less_divisor [OF pos, of "val g ^ val b"] srp_prime_bounds(2)
    by (simp add: L(10) L(8) [OF pos]) (simp add: L)
  have "srp_N (fst (SetVSFields x rI s w)) = srp_N s" for rI
    by (simp add: SetVSFields_def Let_def split_beta)
  with small N show ?thesis
    by (auto simp: challenge_srp_def Let_def split_beta)
qed

lemma challenge_answer_no_fault:
  assumes "BigNumber_laws x val" and "srp_N s = bn_SetHexStr x srp_prime"
  shows "challenge_answer x loc s w \<noteq> Inl e"
  using challenge_srp_no_fault [OF assms]
  by (auto simp: challenge_answer_def challenge_account_def Let_def split_beta
      split: option.splits sum.splits if_splits)

lemma run_frame_no_fault:
  assumes laws: "BigNumber_laws x val" and i: "inv x dl s" and f: "frame_ok f"
  shows "run_frame x (encode f) s w \<noteq> Inl e"
proof -
  have N: "srp_N s = bn_SetHexStr x srp_prime" using i by (simp add: inv_def inv_group_def)
  have chall: "logon_challenge_body x (encode f @ [0]) s w \<noteq> Inl e \<and>
      reconnect_challenge_body x (encode f @ [0]) s w \<noteq> Inl e"
    if "f = ChallengeFrame r er mid acc" for r er mid acc
    using ch_login_encode(1) [OF f [unfolded that]] ch_text_encode [OF f [unfolded that]] challenge_answer_no_fault [OF laws] N unfolding that
    by (auto simp: logon_challenge_body_def reconnect_challenge_body_def Let_def split_beta
        split: option.splits)
  show ?thesis
  proof (cases f)
    case ChallengeFrame
    with chall show ?thesis by (auto simp: run_frame_def Let_def)
  qed (auto simp: run_frame_def Let_def logon_proof_body_def reconnect_proof_body_def
      realm_list_body_def xfer_body_def cancel_body_def split_beta split: prod.splits option.splits)
qed

section \<open>From frames to input\<close>

lemma onData_outcome [consumes 1, case_names same closed processed]:
  assumes "onData x data rb s w = Inr (rb', s', w')"
  obtains "s' = s" "w' = w" | "s' = close_connection s" "w' = w"
    | "process x (m_readBuf rb @ data) s w = Inr (m_readBuf rb', s', w')"
proof -
  let ?rb = "\<lparr>m_readBuf = m_readBuf rb @ data, m_readPos = 0\<rparr>"
  have "buf_ok ?rb" "pending ?rb = m_readBuf rb @ data" by (simp_all add: buf_ok_def pending_def)
  with onData_loop_refines [of ?rb x s w, unfolded refines_process_def] assms that show ?thesis
    by (auto simp: onData_def crunch_ok split: sum.splits if_splits)
qed

lemma onData_fault:
  assumes "onData x data rb s w = Inl e"
  shows "process x (m_readBuf rb @ data) s w = Inl e"
proof -
  let ?rb = "\<lparr>m_readBuf = m_readBuf rb @ data, m_readPos = 0\<rparr>"
  have "buf_ok ?rb" "pending ?rb = m_readBuf rb @ data" by (simp_all add: buf_ok_def pending_def)
  with onData_loop_refines [of ?rb x s w, unfolded refines_process_def] assms show ?thesis
    by (auto simp: onData_def split: sum.splits if_splits)
qed

lemma session_ok_inv: "session_ok x dl s0 w0 s w \<Longrightarrow> inv x dl s"
  by (simp add: session_ok_def)

text \<open>
  A property of session and world that every well-formed frame keeps, in the state that
  admits the frame, and that closing keeps.  The receive loop then keeps it for any input
  whatsoever.
\<close>

locale frame_property =
  fixes x :: "('bn, 'db) ext" and P :: "'bn sock \<Rightarrow> 'db world \<Rightarrow> bool"
  assumes frame_keeps:
      "P s w \<Longrightarrow> \<not> m_closed s \<Longrightarrow> frame_ok f \<Longrightarrow> frame_state f = stream_state (status s) \<Longrightarrow>
       run_frame x (encode f) s w = Inr (ok, s', w') \<Longrightarrow> P s' w'"
    and close_keeps: "P s w \<Longrightarrow> P (close_connection s) w"
begin

lemma process_keeps: "P s w \<Longrightarrow> process x bs s w = Inr (bs', s', w') \<Longrightarrow> P s' w'"
proof (induction "length bs" arbitrary: bs s w rule: less_induct)
  case less
  define d where "d = InspectFrame (stream_state (status s)) (Some bs) (length bs)"
  note p = process.simps [of x bs s w, folded d_def, unfolded Let_def]
  show ?case
  proof (cases "m_closed s \<or> fd_status d \<noteq> Complete")
    case True
    with less.prems close_keeps show ?thesis by (cases "fd_status d") (auto simp: p split: if_splits)
  next
    case False
    then have c: "fd_status d = Complete" by simp
    from InspectFrame_decode [OF c [unfolded d_def]] obtain f
      where f: "frame_ok f" "frame_state f = stream_state (status s)" "encode f = take (frameSize d) bs"
      unfolding d_def by auto
    from False c less.prems(2) obtain ok s1 w1
      where r: "run_frame x (encode f) s w = Inr (ok, s1, w1)"
      unfolding f(3) by (auto simp: p split: sum.splits)
    have P1: "P s1 w1" using frame_keeps [OF less.prems(1) _ f(1,2) r] False by simp
    show ?thesis
    proof (cases ok)
      case True
      with less.prems(2) r False c have "process x (drop (frameSize d) bs) s1 w1 = Inr (bs', s', w')"
        by (simp add: p f(3))
      moreover have "length (drop (frameSize d) bs) < length bs"
        using guard.complete_shrinks c unfolding d_def by blast
      ultimately show ?thesis using less.hyps P1 by blast
    next
      case False
      with less.prems(2) r \<open>\<not> (m_closed s \<or> fd_status d \<noteq> Complete)\<close> close_keeps [OF P1] show ?thesis
        by (auto simp: p f(3))
    qed
  qed
qed

lemma onData_keeps:
  assumes "P s w" and "onData x data rb s w = Inr (rb', s', w')"
  shows "P s' w'"
proof -
  consider "s' = s" "w' = w" | "s' = close_connection s" "w' = w"
    | "process x (m_readBuf rb @ data) s w = Inr (m_readBuf rb', s', w')"
    using assms(2) by (rule onData_outcome)
  then show ?thesis using assms(1) close_keeps process_keeps by cases auto
qed

end

text \<open>When in addition no frame faults, neither does the loop.\<close>

locale frame_safety = frame_property x P
  for x :: "('bn, 'db) ext" and P :: "'bn sock \<Rightarrow> 'db world \<Rightarrow> bool" +
  assumes frame_total: "P s w \<Longrightarrow> frame_ok f \<Longrightarrow> run_frame x (encode f) s w \<noteq> Inl e"
begin

lemma process_total: "P s w \<Longrightarrow> process x bs s w \<noteq> Inl e"
proof (induction "length bs" arbitrary: bs s w rule: less_induct)
  case less
  define d where "d = InspectFrame (stream_state (status s)) (Some bs) (length bs)"
  note p = process.simps [of x bs s w, folded d_def, unfolded Let_def]
  show ?case
  proof (cases "m_closed s \<or> fd_status d \<noteq> Complete")
    case True
    then show ?thesis by (cases "fd_status d") (auto simp: p)
  next
    case False
    then have c: "fd_status d = Complete" by simp
    from InspectFrame_decode [OF c [unfolded d_def]] obtain f
      where f: "frame_ok f" "frame_state f = stream_state (status s)" "encode f = take (frameSize d) bs"
      unfolding d_def by auto
    obtain ok s1 w1 where r: "run_frame x (encode f) s w = Inr (ok, s1, w1)"
      using frame_total [OF less.prems f(1)] by (cases "run_frame x (encode f) s w") (metis, metis prod_cases3)
    have "P s1 w1" using frame_keeps [OF less.prems _ f(1,2) r] False by simp
    moreover have "length (drop (frameSize d) bs) < length bs"
      using guard.complete_shrinks c unfolding d_def by blast
    ultimately have "process x (drop (frameSize d) bs) s1 w1 \<noteq> Inl e" using less.hyps by blast
    with r False c show ?thesis by (simp add: p f(3))
  qed
qed

lemma onData_total: "P s w \<Longrightarrow> onData x data rb s w \<noteq> Inl e"
  using process_total onData_fault by blast

end

interpretation session: frame_property x "session_ok x dl s0 w0" for x dl s0 w0
  by unfold_locales (blast intro: run_frame_ok session_ok_close)+

interpretation safe_session: frame_safety x "\<lambda>s w. BigNumber_laws x val \<and> session_ok x dl s0 w0 s w"
  for x val dl s0 w0
proof unfold_locales
  show "run_frame x (encode f) s w \<noteq> Inl e"
    if "BigNumber_laws x val \<and> session_ok x dl s0 w0 s w" and "frame_ok f" for s w f e
    using that session_ok_inv [of x dl s0 w0 s w] run_frame_no_fault [of x val dl s f w e] by simp
qed (blast intro: run_frame_ok session_ok_close)+

section \<open>Reachable sessions\<close>

text \<open>A new session, as the transport sets it up before any input.\<close>

definition connect ::
  "('bn, 'db) ext \<Rightarrow> int \<Rightarrow> int \<Rightarrow> PatchPolicy \<Rightarrow> string \<Rightarrow> (nat \<Rightarrow> bool) option \<Rightarrow> 'db world \<Rightarrow>
     readbuf \<times> 'bn sock \<times> 'db world" where
  "connect x now authTimeout policy addr fc w =
     (case mk_AuthSocket x now authTimeout policy w of (rb, s, w) \<Rightarrow>
        (rb, setFlowControl fc (setCloser True (setSender True (setPeerAddress addr s))), w))"

text \<open>
  What may happen to a session: input, the deadline sweep, the transport's own close, and
  any change of the shared state by the rest of the process.
\<close>

inductive reachable ::
  "('bn, 'db) ext \<Rightarrow> readbuf \<times> 'bn sock \<times> 'db world \<Rightarrow> readbuf \<times> 'bn sock \<times> 'db world \<Rightarrow> bool"
  for x c0 where
  start: "reachable x c0 c0"
| input: "reachable x c0 (rb, s, w) \<Longrightarrow> length data < 2 ^ 63 \<Longrightarrow>
    onData x data rb s w = Inr (rb', s', w') \<Longrightarrow> reachable x c0 (rb', s', w')"
| sweep: "reachable x c0 (rb, s, w) \<Longrightarrow> reachable x c0 (rb, snd (ExpireAuthentication now s), w)"
| disconnect: "reachable x c0 (rb, s, w) \<Longrightarrow> reachable x c0 (rb, onClose s, w)"
| others: "reachable x c0 (rb, s, w) \<Longrightarrow> reachable x c0 (rb, s, w')"

lemma inv_ExpireAuthentication: "inv x dl s \<Longrightarrow> inv x dl (snd (ExpireAuthentication now s))"
  by (simp add: ExpireAuthentication_def)

lemma inv_ExpireAuthentication_iff:
  assumes "inv x (mk_Deadline start timeout) s"
  shows "ExpireAuthentication now s =
           (if \<not> m_closed s \<and> status s \<noteq> STATUS_AUTHED \<and> status s \<noteq> STATUS_PATCH \<and> transfers s = [] \<and>
               0 < timeout \<and> start + timeout * ns_per_second \<le> now
            then (True, close_connection s) else (False, s))"
proof -
  have "transfers s = [] \<or> \<not> m_active (m_authDeadline s)"
    using assms by (auto simp: inv_def inv_deadline_def)
  with assms show ?thesis
    by (auto simp: inv_def inv_deadline_def ExpireAuthentication_def expired_def mk_Deadline_def)
qed

lemma inv_connect:
  "connect x now timeout pol addr fc w = (rb, s, w') \<Longrightarrow> inv x (mk_Deadline now timeout) s"
  by (auto simp: connect_def mk_AuthSocket_def setFlowControl_def setCloser_def setSender_def
      setPeerAddress_def inv_def inv_defs)

lemma reachable_inv:
  assumes "reachable x c0 c" and "inv x dl (fst (snd c0))"
  shows "inv x dl (fst (snd c))"
  using assms
proof (induction rule: reachable.induct)
  case (input rb s w data rb' s' w')
  from session.onData_keeps [OF session_ok_refl input.hyps(3)] input.IH input.prems
  show ?case by (auto dest: session_ok_inv)
qed (auto intro: inv_ExpireAuthentication inv_onClose)

text \<open>The channels that the transport set are never replaced.\<close>

lemma reachable_channels:
  assumes "reachable x c0 c" and "inv x dl (fst (snd c0))"
  shows "m_sender (fst (snd c)) = m_sender (fst (snd c0)) \<and> m_closer (fst (snd c)) = m_closer (fst (snd c0)) \<and>
    m_flowControl (fst (snd c)) = m_flowControl (fst (snd c0))"
  using assms
proof (induction rule: reachable.induct)
  case (input rb s w data rb' s' w')
  from reachable_inv [OF input.hyps(1) input.prems] have "inv x dl s" by simp
  from session.onData_keeps [OF session_ok_refl [OF this] input.hyps(3)] input.IH input.prems
  show ?case by (simp add: session_ok_def)
qed (simp_all add: ExpireAuthentication_def close_connection_eq onClose_def deactivate_auth_deadline_def)

lemma onData_bounded:
  assumes "length data < 2 ^ 63" and "length (m_readBuf rb) \<le> 65539" and "m_readPos rb = 0"
    and r: "onData x data rb s w = Inr (rb', s', w')"
  shows "length (m_readBuf rb') \<le> 65539 \<and> m_readPos rb' = 0"
proof -
  have "length (m_readBuf rb) + length data < 2 ^ 64" using assms by simp
  from r [unfolded onData_process [OF this]] assms(2,3) process_length [of x "m_readBuf rb @ data" s w]
  show ?thesis by (fastforce simp: empty_readbuf_def split: if_splits sum.splits)
qed

lemma reachable_buffer:
  assumes "reachable x c0 c" and "fst c0 = empty_readbuf"
  shows "length (m_readBuf (fst c)) \<le> 65539 \<and> m_readPos (fst c) = 0"
  using assms
proof (induction rule: reachable.induct)
  case (input rb s w data rb' s' w')
  then show ?case using onData_bounded [OF input.hyps(2) _ _ input.hyps(3)] by simp
qed (simp_all add: empty_readbuf_def)

definition example_connect :: "readbuf \<times> nat sock \<times> unit world" where
  "example_connect =
     connect (example_ext id (\<lambda>_. None) []) 100 30 default_PatchPolicy ''10.0.0.1'' None example_world"

lemma reachable_connect:
  assumes "reachable x (connect x now timeout pol addr fc w0) (rb, s, w)"
  shows "inv x (mk_Deadline now timeout) s"
proof -
  obtain r t v where c: "connect x now timeout pol addr fc w0 = (r, t, v)" by (cases "connect x now timeout pol addr fc w0") auto
  from reachable_inv [OF assms] inv_connect [OF c] show ?thesis by (simp add: c)
qed

lemma reachable_connect_channels:
  assumes "reachable x (connect x now timeout pol addr fc w0) (rb, s, w)"
  shows "m_sender s \<and> m_closer s \<and> m_flowControl s = fc"
proof -
  obtain r t v where c: "connect x now timeout pol addr fc w0 = (r, t, v)" by (cases "connect x now timeout pol addr fc w0") auto
  have "m_sender t \<and> m_closer t \<and> m_flowControl t = fc"
    using c by (auto simp: connect_def mk_AuthSocket_def setFlowControl_def setCloser_def setSender_def setPeerAddress_def)
  with reachable_channels [OF assms, of "mk_Deadline now timeout"] inv_connect [OF c] show ?thesis by (simp add: c)
qed

lemma example_reachable:
  assumes "example_connect = (rb, s, w)"
  shows "reachable (example_ext id (\<lambda>_. None) [])
    (connect (example_ext id (\<lambda>_. None) []) 100 30 default_PatchPolicy ''10.0.0.1'' None example_world) (rb, s, w)"
  unfolding assms [symmetric] example_connect_def by (rule reachable.start)

lemma reachable_onData_total:
  assumes "BigNumber_laws x val"
    and "reachable x (connect x now timeout pol addr fc w0) (rb, s, w)"
  shows "\<exists>rb' s' w'. onData x data rb s w = Inr (rb', s', w')"
proof -
  have "session_ok x (mk_Deadline now timeout) s w s w"
    using reachable_connect [OF assms(2)] by (rule session_ok_refl)
  with safe_session.onData_total [of x val _ s w s w data rb] assms(1)
  have "onData x data rb s w \<noteq> Inl e" for e by blast
  then show ?thesis by (cases "onData x data rb s w") auto
qed

lemma example_input:
  assumes "example_connect = (rb, s, w)"
  shows "\<exists>rb' s' w'. onData (example_ext id (\<lambda>_. None) []) data rb s w = Inr (rb', s', w')"
  by (rule reachable_onData_total [OF example_BigNumber_laws example_reachable [OF assms]])

text \<open>The calls of the closer by the threads of a session.\<close>

definition thread_closer_calls :: "'bn sock \<Rightarrow> nat" where
  "thread_closer_calls s = sum_list (map job_closer_calls (transfers s))"

lemma thread_closer_calls_bound:
  assumes "inv x dl s"
  shows "thread_closer_calls s \<le> 1 \<and>
    ((\<forall>j \<in> set (transfers s). healthy (m_stream (job_artifact j))) \<longrightarrow> thread_closer_calls s = 0)"
proof (cases "transfers s")
  case (Cons j js)
  with assms have "js = []" by (simp add: inv_def inv_patch_def)
  with Cons job_closer_calls_le [of j] job_closer_calls_healthy [of j] show ?thesis
    by (simp add: thread_closer_calls_def)
qed (simp add: thread_closer_calls_def)

section \<open>Properties\<close>

text \<open>
  C3: no input makes a session fault.  In every reachable state, whatever bytes arrive,
  the receive path returns: the reads whose extent depends on the input stay inside the
  buffer of the packet (the two C strings in a challenge, which only the terminator behind
  the packet is sure to end, and the account name, whose length byte the handlers themselves
  do not check), and the assertion on the width of \<open>g ^ b mod N\<close> holds, given the documented
  behaviour of \<open>BigNumber\<close>.
\<close>
theorem input_never_faults:
  assumes "BigNumber_laws x val"
    and "reachable x (connect x now timeout pol addr fc w0) (rb, s, w)"
  shows "\<exists>rb' s' w'. onData x data rb s w = Inr (rb', s', w')"
  using assms by (rule reachable_onData_total)

theorem input_never_faults_witness:
  "case example_connect of (rb, s, w) \<Rightarrow>
     \<exists>rb' s' w'. onData (example_ext id (\<lambda>_. None) []) [0, 0, 255, 0] rb s w = Inr (rb', s', w')"
proof -
  obtain rb s w where c: "example_connect = (rb, s, w)" by (cases example_connect) auto
  note rc = example_reachable [OF c]
  from input_never_faults [OF example_BigNumber_laws rc] show ?thesis by (simp add: c)
qed

text \<open>
  C19: the deadline closes exactly the sessions it should.  At any time, a session that has
  authenticated, was offered a patch or receives one is left alone by the sweep whatever
  the clock says; any other open session, a refused one included, is closed by the sweep
  if the timeout is positive and has passed since the connection was made, and not before.
\<close>
theorem deadline_closes_only_unauthenticated:
  assumes "reachable x (connect x start timeout pol addr fc w0) (rb, s, w)"
  shows "ExpireAuthentication now s =
           (if \<not> m_closed s \<and> status s \<noteq> STATUS_AUTHED \<and> status s \<noteq> STATUS_PATCH \<and> transfers s = [] \<and>
               0 < timeout \<and> start + timeout * ns_per_second \<le> now
            then (True, close_connection s) else (False, s))"
  by (rule inv_ExpireAuthentication_iff [OF reachable_connect [OF assms]])

theorem deadline_closes_only_unauthenticated_witness:
  "case example_connect of (rb, s, w) \<Rightarrow>
     ExpireAuthentication (100 + 29 * ns_per_second) s = (False, s) \<and>
     ExpireAuthentication (100 + 30 * ns_per_second) s = (True, close_connection s)"
proof -
  obtain rb s w where c: "example_connect = (rb, s, w)" by (cases example_connect) auto
  note rc = example_reachable [OF c]
  note d = deadline_closes_only_unauthenticated [OF rc]
  have "status s = STATUS_CHALLENGE" "\<not> m_closed s" "transfers s = []"
    using c by (auto simp: example_connect_def connect_def mk_AuthSocket_def setFlowControl_def
        setCloser_def setSender_def setPeerAddress_def)
  with d [of "100 + 29 * ns_per_second"] d [of "100 + 30 * ns_per_second"] show ?thesis
    by (simp add: c ns_per_second_def)
qed

text \<open>
  C9: no statement is built from unescaped client input.  Whatever a client sends to a
  reachable session, every string argument of every statement the session then gives to
  the database is the output of the escaping function, hexadecimal digits written by the
  server, or the peer address that the transport supplied.
\<close>
theorem statements_are_escaped:
  assumes "reachable x (connect x start timeout pol addr fc w0) (rb, s, w)"
    and "onData x data rb s w = Inr (rb', s', w')"
  shows "\<exists>qs. sql_log w' = sql_log w @ qs \<and>
           (\<forall>q \<in> set qs. \<forall>t. SqlS t \<in> set (snd q) \<longrightarrow>
              (\<exists>u. t = c_string (db_escape_string x u)) \<or> (\<exists>n. t = bn_AsHexStr x n) \<or>
              t = c_string (remote_address s))"
proof -
  have "session_ok x (mk_Deadline start timeout) s w s' w'"
    using session.onData_keeps [OF session_ok_refl [OF reachable_connect [OF assms(1)]] assms(2)] .
  then have "world_grows x (remote_address s) w w'" by (simp add: session_ok_def)
  then show ?thesis
    by (fastforce simp: world_grows_def sql_safe_def arg_safe_def)
qed

theorem statements_are_escaped_witness:
  "case example_connect of (rb, s, w) \<Rightarrow>
     \<exists>rb' s' w' qs. onData (example_ext id (\<lambda>_. None) []) [0xFF] rb s w = Inr (rb', s', w') \<and>
       sql_log w' = sql_log w @ qs"
proof -
  obtain rb s w where c: "example_connect = (rb, s, w)" by (cases example_connect) auto
  note rc = example_reachable [OF c]
  obtain rb' s' w' where r: "onData (example_ext id (\<lambda>_. None) []) [0xFF] rb s w = Inr (rb', s', w')"
    using example_input [OF c, of "[0xFF]"] by blast
  from statements_are_escaped [OF rc r] r show ?thesis by (auto simp: c)
qed

text \<open>
  C16: what one call of the receive path may do to a reachable session.  Once authenticated
  it stays so; the counter of authenticated sessions goes up by one exactly when the call
  authenticates the session and otherwise stays; the account name in use is non-empty, at
  most 255 bytes long, free of NUL, and the stored escaped name is its escape.  The session
  calls its closer at most once over its life, and starts at most one patch transfer, whose
  thread gets the channels that the transport had set.  That thread may call its copy of the
  closer once more, so that the connection can be closed twice, but only for an archive on
  which a read failed.
\<close>
theorem session_life:
  assumes "reachable x (connect x start timeout pol addr fc w0) (rb, s, w)"
    and "onData x data rb s w = Inr (rb', s', w')"
  shows "(status s = STATUS_AUTHED \<longrightarrow> status s' = STATUS_AUTHED) \<and>
         s_authed w' = s_authed w +
           (if status s' = STATUS_AUTHED \<and> status s \<noteq> STATUS_AUTHED then 1 else 0) \<and>
         (status s' \<in> {STATUS_LOGON_PROOF, STATUS_RECON_PROOF, STATUS_PATCH, STATUS_AUTHED} \<longrightarrow>
            safelogin s' = db_escape_string x (login s') \<and> login s' \<noteq> [] \<and>
            length (login s') \<le> 255 \<and> CHR 0x00 \<notin> set (login s')) \<and>
         closer_calls s' \<le> 1 \<and> (\<not> m_closed s' \<longrightarrow> closer_calls s' = 0) \<and> length (transfers s') \<le> 1 \<and>
         (\<forall>j \<in> set (transfers s'). job_sender j \<and> job_closer j \<and> job_flow j = fc \<and> status s' = STATUS_CLOSED) \<and>
         closer_calls s' + thread_closer_calls s' \<le> 2 \<and>
         ((\<forall>j \<in> set (transfers s'). healthy (m_stream (job_artifact j))) \<longrightarrow>
            closer_calls s' + thread_closer_calls s' \<le> 1)"
proof -
  have ok: "session_ok x (mk_Deadline start timeout) s w s' w'"
    using session.onData_keeps [OF session_ok_refl [OF reachable_connect [OF assms(1)]] assms(2)] .
  then have i: "inv x (mk_Deadline start timeout) s'" by (rule session_ok_inv)
  have channels: "m_sender s' \<and> m_closer s' \<and> m_flowControl s' = fc"
    using ok reachable_connect_channels [OF assms(1)] by (simp add: session_ok_def)
  have closer: "closer_calls s' \<le> 1" "\<not> m_closed s' \<longrightarrow> closer_calls s' = 0"
    using i by (simp_all add: inv_def inv_close_def split: if_splits)
  have "transfers s' \<noteq> [] \<longrightarrow> length (transfers s') = 1 \<and> status s' = STATUS_CLOSED"
    and jobs: "\<forall>j \<in> set (transfers s'). job_sender j \<and> job_closer j \<and> job_flow j = fc"
    using i channels by (simp_all add: inv_def inv_patch_def)
  then have "length (transfers s') \<le> 1"
    "\<forall>j \<in> set (transfers s'). job_sender j \<and> job_closer j \<and> job_flow j = fc \<and> status s' = STATUS_CLOSED"
    by (cases "transfers s'"; simp)+
  moreover have "status s' \<in> {STATUS_LOGON_PROOF, STATUS_RECON_PROOF, STATUS_PATCH, STATUS_AUTHED} \<longrightarrow>
      safelogin s' = db_escape_string x (login s') \<and> login s' \<noteq> [] \<and>
      length (login s') \<le> 255 \<and> CHR 0x00 \<notin> set (login s')"
    using i by (simp only: inv_def inv_name_def named_status_def valid_name_def) blast
  moreover have "(status s = STATUS_AUTHED \<longrightarrow> status s' = STATUS_AUTHED) \<and>
      s_authed w' = s_authed w + (if status s' = STATUS_AUTHED \<and> status s \<noteq> STATUS_AUTHED then 1 else 0)"
    using ok by (simp only: session_ok_def) blast
  moreover have "closer_calls s' + thread_closer_calls s' \<le> 2"
    using closer(1) thread_closer_calls_bound [OF i] by simp
  moreover have "(\<forall>j \<in> set (transfers s'). healthy (m_stream (job_artifact j))) \<longrightarrow>
      closer_calls s' + thread_closer_calls s' \<le> 1"
    using closer(1) thread_closer_calls_bound [OF i] by simp
  ultimately show ?thesis using closer by blast
qed

theorem session_life_witness:
  "case example_connect of (rb, s, w) \<Rightarrow>
     \<exists>rb' s' w'. onData (example_ext id (\<lambda>_. None) []) [0xFF] rb s w = Inr (rb', s', w') \<and> closer_calls s' \<le> 1"
proof -
  obtain rb s w where c: "example_connect = (rb, s, w)" by (cases example_connect) auto
  note rc = example_reachable [OF c]
  obtain rb' s' w' where r: "onData (example_ext id (\<lambda>_. None) []) [0xFF] rb s w = Inr (rb', s', w')"
    using example_input [OF c, of "[0xFF]"] by blast
  from session_life [OF rc r] r show ?thesis by (auto simp: c)
qed

text \<open>
  C21: the memory a client can make a session hold is bounded: in every reachable state at
  most 65539 bytes are pending, and the cursor is back at the start of the buffer.
\<close>
theorem pending_input_bounded:
  assumes "reachable x (connect x start timeout pol addr fc w0) (rb, s, w)"
  shows "length (m_readBuf rb) \<le> 65539 \<and> m_readPos rb = 0"
proof -
  have "fst (connect x start timeout pol addr fc w0) = empty_readbuf"
    by (simp add: connect_def mk_AuthSocket_def empty_readbuf_def)
  with reachable_buffer [OF assms] show ?thesis by simp
qed

theorem pending_input_bounded_witness:
  "case example_connect of (rb, s, w) \<Rightarrow> length (m_readBuf rb) \<le> 65539 \<and> m_readPos rb = 0"
proof -
  obtain rb s w where c: "example_connect = (rb, s, w)" by (cases example_connect) auto
  note rc = example_reachable [OF c]
  from pending_input_bounded [OF rc] show ?thesis by (simp add: c)
qed

end
