(* ===== verification/SrpAgreement.thy ===== *)
theory SrpAgreement
  imports SessionSteps
begin

text \<open>
  The login handshake as a protocol: an honest client, written down over natural numbers
  and byte strings after the SRP6 rules, against the server's handlers.  The client knows
  the account name and the password digest, and answers the server's challenge.
\<close>

section \<open>The client\<close>

definition prime_N :: nat where
  "prime_N = hex_val srp_prime"

definition client_x :: "('bn, 'db) ext \<Rightarrow> nat \<Rightarrow> bytes \<Rightarrow> nat" where
  "client_x x salt digest = le_val (sha1 x [le_bytes 32 salt @ digest])"

definition client_A :: "nat \<Rightarrow> nat" where
  "client_A a = 7 ^ a mod prime_N"

definition client_u :: "('bn, 'db) ext \<Rightarrow> nat \<Rightarrow> nat \<Rightarrow> nat" where
  "client_u x A B = le_val (sha1 x [le_bytes 32 A @ le_bytes 32 B])"

text \<open>\<open>S = (B - 3 g\<^sup>x) \<^sup>(a + u x) mod N\<close>, the difference taken modulo \<open>N\<close>.\<close>

definition client_S :: "('bn, 'db) ext \<Rightarrow> nat \<Rightarrow> bytes \<Rightarrow> nat \<Rightarrow> nat \<Rightarrow> nat" where
  "client_S x salt digest B a =
     (let X = client_x x salt digest; u = client_u x (client_A a) B
      in ((B + 3 * (prime_N - 7 ^ X mod prime_N)) mod prime_N) ^ (a + u * X) mod prime_N)"

text \<open>
  The interleaved hash of SRP6: the bytes at even and at odd places are hashed apart and the
  two digests are merged byte by byte.
\<close>

fun alternate :: "'a list \<Rightarrow> 'a list" where
  "alternate [] = []"
| "alternate [a] = [a]"
| "alternate (a # b # r) = a # alternate r"

definition client_K :: "('bn, 'db) ext \<Rightarrow> nat \<Rightarrow> bytes \<Rightarrow> nat \<Rightarrow> nat \<Rightarrow> bytes" where
  "client_K x salt digest B a =
     (let t = le_bytes 32 (client_S x salt digest B a)
      in splice (sha1 x [alternate t]) (sha1 x [alternate (tl t)]))"

definition client_M1 :: "('bn, 'db) ext \<Rightarrow> string \<Rightarrow> nat \<Rightarrow> bytes \<Rightarrow> nat \<Rightarrow> nat \<Rightarrow> bytes" where
  "client_M1 x name salt digest B a =
     (let hN = sha1 x [le_bytes 32 prime_N]; hg = sha1 x [[7]]
      in sha1 x [map (\<lambda>i. hN ! i XOR hg ! i) [0..<20] @ sha1 x [of_string name] @
                 le_bytes 32 salt @ le_bytes 32 (client_A a) @ le_bytes 32 B @
                 client_K x salt digest B a])"

text \<open>The answer the client expects, and the proof packet it sends.\<close>

definition client_M2 :: "('bn, 'db) ext \<Rightarrow> string \<Rightarrow> nat \<Rightarrow> bytes \<Rightarrow> nat \<Rightarrow> nat \<Rightarrow> bytes" where
  "client_M2 x name salt digest B a =
     sha1 x [le_bytes 32 (client_A a) @ client_M1 x name salt digest B a @ client_K x salt digest B a]"

definition client_packet ::
  "('bn, 'db) ext \<Rightarrow> string \<Rightarrow> nat \<Rightarrow> bytes \<Rightarrow> nat \<Rightarrow> nat \<Rightarrow> bytes \<Rightarrow> byte \<Rightarrow> bytes" where
  "client_packet x name salt digest B a crc sec =
     encode (LogonProofFrame (le_bytes 32 (client_A a) @ client_M1 x name salt digest B a @ crc) sec)"

section \<open>Arithmetic of the group\<close>

lemma prime_N_bounds: "0 < prime_N" "prime_N < 256 ^ 32" "1 < prime_N"
  by (simp_all add: prime_N_def hex_val_def srp_prime_def hex_digit_def)

lemma mod_prime_N_less: "n mod prime_N < 256 ^ 32"
  by (rule less_trans [OF mod_less_divisor [OF prime_N_bounds(1)] prime_N_bounds(2)])

lemma coprime_7_N: "coprime (7 :: nat) prime_N"
proof -
  have m: "prime_N mod 7 = 4" by (simp add: prime_N_def hex_val_def srp_prime_def hex_digit_def)
  have "gcd prime_N 7 = gcd 7 (prime_N mod 7)" by (rule gcd_red_nat)
  also have "\<dots> = 1" unfolding m by (simp add: gcd_non_0_nat)
  finally show ?thesis by (simp add: coprime_iff_gcd_eq_1 gcd.commute)
qed

lemma client_A_nonzero: "client_A a mod prime_N \<noteq> 0"
proof
  assume "client_A a mod prime_N = 0"
  then have "prime_N dvd 7 ^ a" by (simp add: client_A_def dvd_eq_mod_eq_0)
  moreover have "coprime (7 ^ a) prime_N" using coprime_7_N by simp
  ultimately have "prime_N = 1" by (metis coprime_absorb_right nat_dvd_1_iff_1)
  with prime_N_bounds(3) show False by simp
qed

text \<open>The two sides compute the same secret.\<close>

lemma srp_secret_agrees:
  fixes N g a b X u :: nat
  assumes "0 < N"
  defines "v \<equiv> g ^ X mod N"
  defines "B \<equiv> (v * 3 + g ^ b mod N) mod N"
  shows "((g ^ a mod N) * (v ^ u mod N)) ^ b mod N =
         ((B + 3 * (N - g ^ X mod N)) mod N) ^ (a + u * X) mod N"
proof -
  have "v \<le> N" using assms(1) by (simp add: v_def less_imp_le)
  then have "v * 3 + g ^ b mod N + 3 * (N - v) = g ^ b mod N + 3 * N" by simp
  then have base: "(B + 3 * (N - v)) mod N = g ^ b mod N"
    unfolding B_def by (metis mod_add_left_eq mod_mod_trivial mod_mult_self1 mod_mult_self2 add.commute mult.commute)
  have "((g ^ a mod N) * (v ^ u mod N)) ^ b mod N = (g ^ a * (g ^ X) ^ u) ^ b mod N"
    unfolding v_def by (metis mod_mult_eq power_mod)
  also have "(g ^ a * (g ^ X) ^ u) ^ b = (g ^ b) ^ (a + u * X)"
    by (simp add: power_add power_mult_distrib power_mult [symmetric] algebra_simps)
  also have "\<dots> mod N = (g ^ b mod N) ^ (a + u * X) mod N" by (simp add: power_mod)
  finally show ?thesis using base by (simp add: v_def)
qed

section \<open>The server's side\<close>

text \<open>The state of a session after a challenge was answered for an account with password digest \<open>digest\<close>.\<close>

definition srp_ready :: "('bn, 'db) ext \<Rightarrow> ('bn \<Rightarrow> nat) \<Rightarrow> 'bn sock \<Rightarrow> bytes \<Rightarrow> bool" where
  "srp_ready x val s digest \<longleftrightarrow>
     srp_N s = bn_SetHexStr x srp_prime \<and> srp_g s = bn_SetDword x 7 \<and>
     val (srp_s s) < 256 ^ 32 \<and>
     val (srp_v s) = 7 ^ client_x x (val (srp_s s)) digest mod prime_N \<and>
     val (srp_B s) = (val (srp_v s) * 3 + 7 ^ val (srp_b s) mod prime_N) mod prime_N"

lemma AsByteArray_val:
  "BigNumber_laws x val \<Longrightarrow> val v < 256 ^ w \<Longrightarrow> AsByteArray x v w = le_bytes w (val v)"
  by (simp add: AsByteArray_def BigNumber_lawsD)

lemma AsByteArray_SetBinary:
  assumes "BigNumber_laws x val" and "length bs = w"
  shows "AsByteArray x (bn_SetBinary x bs) w = bs"
proof -
  have v: "val (bn_SetBinary x bs) = le_val bs" using BigNumber_lawsD(3) [OF assms(1)] .
  have "val (bn_SetBinary x bs) < 256 ^ w" using le_val_less [of bs] assms(2) by (simp add: v)
  from AsByteArray_val [OF assms(1) this] assms(2) show ?thesis by (simp add: v le_bytes_le_val)
qed

lemma Sha1_concat: "Sha1_laws x \<Longrightarrow> sha1 x cs = sha1 x [concat cs]"
  by (simp only: Sha1_laws_def)

lemma alternate_nth:
  "length xs = 2 * n \<Longrightarrow> map (\<lambda>i. xs ! (i * 2)) [0..<n] = alternate xs"
proof (induction n arbitrary: xs)
  case (Suc n)
  then obtain a b r where xs: "xs = a # b # r" by (cases xs; cases "tl xs") auto
  with Suc show ?case by (simp add: upt_conv_Cons map_Suc_upt [symmetric] comp_def del: upt_Suc)
qed simp

lemma alternate_nth_odd:
  "length xs = 2 * n \<Longrightarrow> map (\<lambda>i. xs ! (i * 2 + 1)) [0..<n] = alternate (tl xs)"
proof (induction n arbitrary: xs)
  case (Suc n)
  then obtain a b r where xs: "xs = a # b # r" by (cases xs; cases "tl xs") auto
  with Suc have "map (\<lambda>i. r ! (i * 2 + 1)) [0..<n] = alternate (tl r)" by simp
  moreover have "alternate (b # r) = b # alternate (tl r)" by (cases r) simp_all
  ultimately show ?case
    using xs by (simp add: upt_conv_Cons map_Suc_upt [symmetric] comp_def del: upt_Suc)
qed simp

lemma concat_pairs_splice:
  "length xs = n \<Longrightarrow> length ys = n \<Longrightarrow>
     concat (map (\<lambda>i. [xs ! i, ys ! i]) [0..<n]) = splice xs ys"
proof (induction n arbitrary: xs ys)
  case (Suc n)
  then obtain a r b q where "xs = a # r" "ys = b # q" by (cases xs; cases ys) auto
  with Suc show ?case
    by (simp add: upt_conv_Cons map_Suc_upt [symmetric] comp_def del: upt_Suc)
qed simp

lemma SHA_Interleave_alternate:
  assumes sha: "Sha1_laws x" and t: "length t = 32"
  shows "SHA_Interleave x t = splice (sha1 x [alternate t]) (sha1 x [alternate (tl t)])"
proof -
  have l: "length (sha1 x cs) = 20" for cs using sha by (simp add: Sha1_laws_def)
  have t': "length t = 2 * 16" using t by simp
  show ?thesis
    unfolding SHA_Interleave_def Let_def alternate_nth [OF t'] alternate_nth_odd [OF t']
    by (rule concat_pairs_splice) (rule l)+
qed

text \<open>Everything the agreement rests on: the laws of the library and the state of the session.\<close>

definition handshake :: "('bn, 'db) ext \<Rightarrow> ('bn \<Rightarrow> nat) \<Rightarrow> 'bn sock \<Rightarrow> bytes \<Rightarrow> bool" where
  "handshake x val s digest \<longleftrightarrow> BigNumber_laws x val \<and> Sha1_laws x \<and> srp_ready x val s digest"

lemma handshakeD:
  assumes "handshake x val s digest"
  shows "BigNumber_laws x val" and "Sha1_laws x" and "val (srp_N s) = prime_N" and "val (srp_g s) = 7"
    and "val (srp_s s) < 256 ^ 32" and "val (srp_B s) < 256 ^ 32"
    and "val (srp_v s) = 7 ^ client_x x (val (srp_s s)) digest mod prime_N"
    and "val (srp_B s) = (val (srp_v s) * 3 + 7 ^ val (srp_b s) mod prime_N) mod prime_N"
proof -
  from assms have bn: "BigNumber_laws x val" and sha: "Sha1_laws x" and r: "srp_ready x val s digest"
    by (simp_all only: handshake_def)
  show "BigNumber_laws x val" "Sha1_laws x" by (rule bn, rule sha)
  show "val (srp_N s) = prime_N" "val (srp_g s) = 7"
    using r by (simp_all add: srp_ready_def prime_N_def BigNumber_lawsD(1,2) [OF bn])
  show "val (srp_s s) < 256 ^ 32" "val (srp_v s) = 7 ^ client_x x (val (srp_s s)) digest mod prime_N"
    and B: "val (srp_B s) = (val (srp_v s) * 3 + 7 ^ val (srp_b s) mod prime_N) mod prime_N"
    using r by (simp_all only: srp_ready_def)
  show "val (srp_B s) < 256 ^ 32" unfolding B by (rule mod_prime_N_less)
qed

text \<open>The number the server reads from the client's packet.\<close>

definition client_bn :: "('bn, 'db) ext \<Rightarrow> nat \<Rightarrow> 'bn" where
  "client_bn x a = bn_SetBinary x (le_bytes 32 (client_A a))"

lemma client_A_less: "client_A a < 256 ^ 32"
  unfolding client_A_def by (rule mod_prime_N_less)

lemma val_client_bn: "BigNumber_laws x val \<Longrightarrow> val (client_bn x a) = client_A a"
  unfolding client_bn_def BigNumber_lawsD(3) le_val_le_bytes using client_A_less by (rule mod_less)

lemma client_bn_nonzero:
  assumes "handshake x val s digest"
  shows "\<not> bn_isZero x (bn_mod x (client_bn x a) (srp_N s))"
  using client_A_nonzero [of a] prime_N_bounds(1) handshakeD [OF assms]
  by (simp add: BigNumber_lawsD(7,9) val_client_bn)

lemma hashed_widths:
  assumes h: "handshake x val s digest"
  shows "UpdateFixed x (client_bn x a) 32 = le_bytes 32 (client_A a)"
    and "UpdateFixed x (srp_B s) 32 = le_bytes 32 (val (srp_B s))"
    and "UpdateFixed x (srp_s s) 32 = le_bytes 32 (val (srp_s s))"
    and "UpdateFixed x (srp_N s) 32 = le_bytes 32 prime_N"
    and "UpdateFixed x (srp_g s) 1 = [7]"
proof -
  note bn = handshakeD(1) [OF h] and N = handshakeD(3) [OF h] and g = handshakeD(4) [OF h]
  show "UpdateFixed x (client_bn x a) 32 = le_bytes 32 (client_A a)"
    "UpdateFixed x (srp_B s) 32 = le_bytes 32 (val (srp_B s))"
    "UpdateFixed x (srp_s s) 32 = le_bytes 32 (val (srp_s s))"
    "UpdateFixed x (srp_N s) 32 = le_bytes 32 prime_N"
    unfolding UpdateFixed_def
    using AsByteArray_val [OF bn, of "client_bn x a" 32] AsByteArray_val [OF bn, of "srp_B s" 32]
      AsByteArray_val [OF bn, of "srp_s s" 32] AsByteArray_val [OF bn, of "srp_N s" 32]
      client_A_less prime_N_bounds(2) handshakeD(5,6) [OF h]
    by (simp_all only: val_client_bn [OF bn] N)
  show "UpdateFixed x (srp_g s) 1 = [7]"
    unfolding UpdateFixed_def using AsByteArray_val [OF bn, of "srp_g s" 1] by (simp add: g)
qed

lemma val_scrambler:
  assumes h: "handshake x val s digest"
  shows "val (scrambler x (client_bn x a) (srp_B s)) = client_u x (client_A a) (val (srp_B s))"
  using BigNumber_lawsD(3) [OF handshakeD(1) [OF h]]
  by (simp add: scrambler_def hashed_widths [OF h] client_u_def)
     (subst Sha1_concat [OF handshakeD(2) [OF h]], simp)

lemma val_server_secret:
  assumes h: "handshake x val s digest"
  shows "val (server_secret x s (client_bn x a)) =
         client_S x (val (srp_s s)) digest (val (srp_B s)) a"
proof -
  note bn = handshakeD(1) [OF h] and N = handshakeD(3) [OF h]
  note v = handshakeD(7) [OF h] and B = handshakeD(8) [OF h, unfolded handshakeD(7) [OF h]]
  have "val (server_secret x s (client_bn x a)) =
      (client_A a * (val (srp_v s) ^ client_u x (client_A a) (val (srp_B s)) mod prime_N)) ^ val (srp_b s)
        mod prime_N"
    using prime_N_bounds(1)
    by (simp add: server_secret_def val_scrambler [OF h] BigNumber_lawsD(6,8) [OF bn] N val_client_bn [OF bn])
  also have "\<dots> = client_S x (val (srp_s s)) digest (val (srp_B s)) a"
    unfolding v client_A_def client_S_def Let_def
    using srp_secret_agrees [OF prime_N_bounds(1), of 7 a "client_x x (val (srp_s s)) digest"
        "client_u x (7 ^ a mod prime_N) (val (srp_B s))" "val (srp_b s)"]
    by (simp only: B [symmetric])
  finally show ?thesis .
qed

lemma key_agrees:
  assumes h: "handshake x val s digest"
  shows "interleave x (server_secret x s (client_bn x a)) =
         client_K x (val (srp_s s)) digest (val (srp_B s)) a"
proof -
  have "client_S x (val (srp_s s)) digest (val (srp_B s)) a < 256 ^ 32"
    unfolding client_S_def Let_def by (rule mod_prime_N_less)
  then show ?thesis
    unfolding interleave_def client_K_def Let_def
    using AsByteArray_val [OF handshakeD(1) [OF h], of "server_secret x s (client_bn x a)" 32]
    by (simp add: val_server_secret [OF h] SHA_Interleave_alternate [OF handshakeD(2) [OF h]])
qed

lemma length_client_K: "Sha1_laws x \<Longrightarrow> length (client_K x salt digest B a) = 40"
  by (simp add: client_K_def Let_def Sha1_laws_def)

lemma key_bytes:
  assumes h: "handshake x val s digest"
  shows "UpdateFixed x (session_key x (server_secret x s (client_bn x a))) 40 =
         client_K x (val (srp_s s)) digest (val (srp_B s)) a"
  unfolding UpdateFixed_def session_key_def
  by (subst AsByteArray_SetBinary [OF handshakeD(1) [OF h]])
     (simp_all add: key_agrees [OF h] length_client_K [OF handshakeD(2) [OF h]])

lemma group_hash_bytes:
  assumes h: "handshake x val s digest"
  shows "UpdateFixed x (group_hash x (srp_N s) (srp_g s)) 20 =
      map (\<lambda>i. sha1 x [le_bytes 32 prime_N] ! i XOR sha1 x [[7]] ! i) [0..<20]"
  unfolding UpdateFixed_def group_hash_def Let_def
  using hashed_widths(4,5) [OF h]
  by (subst AsByteArray_SetBinary [OF handshakeD(1) [OF h]]) (simp_all add: UpdateFixed_def)

lemma proof_agrees:
  assumes h: "handshake x val s digest"
  shows "AsByteArray x (client_proof x (srp_N s) (srp_g s) name (srp_s s) (client_bn x a) (srp_B s)
           (session_key x (server_secret x s (client_bn x a)))) 20 =
         client_M1 x name (val (srp_s s)) digest (val (srp_B s)) a"
proof -
  note sha = handshakeD(2) [OF h]
  have "sha1 x [UpdateFixed x (group_hash x (srp_N s) (srp_g s)) 20, sha1 x [of_string name],
      UpdateFixed x (srp_s s) 32, UpdateFixed x (client_bn x a) 32, UpdateFixed x (srp_B s) 32,
      UpdateFixed x (session_key x (server_secret x s (client_bn x a))) 40] =
      client_M1 x name (val (srp_s s)) digest (val (srp_B s)) a"
    by (subst Sha1_concat [OF sha])
       (simp add: hashed_widths [OF h] key_bytes [OF h] group_hash_bytes [OF h] client_M1_def Let_def)
  moreover have "length (client_M1 x name (val (srp_s s)) digest (val (srp_B s)) a) = 20"
    using sha by (simp add: client_M1_def Let_def)
  ultimately show ?thesis
    unfolding client_proof_def by (simp add: AsByteArray_SetBinary [OF handshakeD(1) [OF h]])
qed

lemma server_proof_agrees:
  assumes h: "handshake x val s digest"
  shows "server_proof x (client_bn x a)
           (client_proof x (srp_N s) (srp_g s) name (srp_s s) (client_bn x a) (srp_B s)
             (session_key x (server_secret x s (client_bn x a))))
           (session_key x (server_secret x s (client_bn x a))) =
         client_M2 x name (val (srp_s s)) digest (val (srp_B s)) a"
  unfolding server_proof_def client_M2_def UpdateFixed_def [of x "client_proof _ _ _ _ _ _ _ _"]
  by (subst Sha1_concat [OF handshakeD(2) [OF h]])
     (simp add: hashed_widths [OF h] key_bytes [OF h] proof_agrees [OF h])

section \<open>The challenge makes the session ready\<close>

text \<open>
  The stored salt and verifier fit the stored password digest, when there are any of the
  right size.
\<close>

definition stored_consistent :: "('bn, 'db) ext \<Rightarrow> ('bn \<Rightarrow> nat) \<Rightarrow> row \<Rightarrow> bool" where
  "stored_consistent x val acct \<longleftrightarrow>
     (length (GetString (acct ! 5)) = 64 \<and> length (GetString (acct ! 6)) = 64 \<longrightarrow>
        val (bn_SetHexStr x (c_string (GetString (acct ! 6)))) < 256 ^ 32 \<and>
        val (bn_SetHexStr x (c_string (GetString (acct ! 5)))) =
          7 ^ client_x x (val (bn_SetHexStr x (c_string (GetString (acct ! 6)))))
                (stored_digest x (GetString (acct ! 0))) mod prime_N)"

lemma SetVSFields_verifier:
  assumes bn: "BigNumber_laws x val" and sha: "Sha1_laws x" and g: "inv_group x s"
    and r: "SetVSFields x rI s w = (s', w')"
  shows "val (srp_s s') < 256 ^ 32 \<and>
         val (srp_v s') = 7 ^ client_x x (val (srp_s s')) (stored_digest x rI) mod prime_N"
proof -
  let ?salt = "bn_SetRand x (rand_calls w) 256"
  have "(2 :: nat) ^ 256 = 256 ^ 32" by simp
  then have salt: "val ?salt < 256 ^ 32" using BigNumber_lawsD(4) [OF bn, of "rand_calls w" 256] by simp
  have key: "val (private_key x ?salt rI) = client_x x (val ?salt) (stored_digest x rI)"
    unfolding private_key_def BigNumber_lawsD(3) [OF bn] client_x_def AsByteArray_val [OF bn salt]
    by (subst Sha1_concat [OF sha]) simp
  have N: "val (bn_SetHexStr x srp_prime) = prime_N" and "val (bn_SetDword x 7) = 7"
    by (simp_all add: BigNumber_lawsD(1,2) [OF bn] prime_N_def)
  then have "val (bn_ModExp x (bn_SetDword x 7) (private_key x ?salt rI) (bn_SetHexStr x srp_prime)) =
      7 ^ client_x x (val ?salt) (stored_digest x rI) mod prime_N"
    using BigNumber_lawsD(8) [OF bn, of "bn_SetHexStr x srp_prime"] prime_N_bounds(1) by (simp add: key)
  moreover have "srp_s s' = ?salt"
    "srp_v s' = bn_ModExp x (bn_SetDword x 7) (private_key x ?salt rI) (bn_SetHexStr x srp_prime)"
    using r g by (auto simp: SetVSFields_def Let_def SetRand_def inv_group_def)
  ultimately show ?thesis using salt by simp
qed

end
