(* ===== verification/LoginProtocol.thy ===== *)
theory LoginProtocol
  imports SrpAgreement
begin

text \<open>
  What the login handlers answer, branch by branch, and the whole login of an honest
  client.
\<close>

section \<open>The verdict on a challenge\<close>

definition name_args :: "('bn, 'db) ext \<Rightarrow> string \<Rightarrow> sql_arg list" where
  "name_args x name = [SqlS (c_string (db_escape_string x name))]"

definition challenge_verdict ::
  "('bn, 'db) ext \<Rightarrow> 'db \<Rightarrow> string \<Rightarrow> string \<Rightarrow> uint16 \<Rightarrow> AuthResult" where
  "challenge_verdict x d addr name b =
     (if db_PQuery x d (sql_ip_banned, name_args x addr) \<noteq> None then WOW_FAIL_BANNED
      else (case db_PQuery x d (sql_account, name_args x name) of
        None \<Rightarrow> WOW_FAIL_UNKNOWN_ACCOUNT
      | Some acct \<Rightarrow>
          if GetUInt8 (acct ! 2) = 1 \<and> c_string (GetString (acct ! 3)) \<noteq> c_string addr
          then LockedAccountResultForBuild (ucast b)
          else (case db_PQuery x d (sql_account_banned, [SqlU (GetUInt32 (acct ! 1))]) of
            Some ban \<Rightarrow> if GetUInt64 (ban ! 0) = GetUInt64 (ban ! 1) then WOW_FAIL_BANNED
                         else WOW_FAIL_SUSPENDED
          | None \<Rightarrow> WOW_SUCCESS)))"

lemma Locked_not_success [simp]: "LockedAccountResultForBuild b \<noteq> WOW_SUCCESS"
  by (simp add: LockedAccountResultForBuild_def split: option.split)

lemma PQuery_simps [simp]:
  "fst (PQuery x q w) = db_PQuery x (login_db w) q" "login_db (snd (PQuery x q w)) = login_db w"
  by (simp_all add: PQuery_def)

lemma challenge_srp_result:
  assumes bn: "BigNumber_laws x val" and bb: "ByteBuffer_laws x" and N: "srp_N s = bn_SetHexStr x srp_prime"
    and sl: "safelogin s = db_escape_string x u"
  shows "\<exists>tail s' w'. challenge_srp x acct loc s w = Inr (0 # tail, s', w') \<and>
           challenge_keeps s s' \<and> status s' = STATUS_LOGON_PROOF"
proof (cases "challenge_srp x acct loc s w")
  case (Inl e)
  with challenge_srp_no_fault [OF bn N] show ?thesis by blast
next
  case (Inr r)
  obtain pkt s' w' where r: "r = (pkt, s', w')" by (cases r) auto
  have "\<exists>tail. pkt = 0 # tail"
    using Inr r by (clarsimp simp: challenge_srp_def Let_def split_beta ByteBuffer_lawsD [OF bb] split: if_splits)
  with challenge_srp_spec [OF Inr [unfolded r] sl world_grows_refl [of x "remote_address s"]] Inr r
  show ?thesis by blast
qed

lemma challenge_answer_verdict:
  fixes x :: "('bn, 'db) ext" and w :: "'db world"
  assumes bn: "BigNumber_laws x val" and bb: "ByteBuffer_laws x" and N: "srp_N s = bn_SetHexStr x srp_prime"
    and sl: "safelogin s = db_escape_string x (login s)"
  defines "v \<equiv> challenge_verdict x (login_db w) (remote_address s) (login s) (client_build s)"
  shows "\<exists>tail s1 w'. challenge_answer x loc s w = Inr (True, snd (send ([0, 0, result_code v] @ tail) s1), w') \<and>
           challenge_keeps s s1 \<and> (v \<noteq> WOW_SUCCESS \<longrightarrow> tail = []) \<and>
           status s1 = (if v = WOW_SUCCESS then STATUS_LOGON_PROOF else status s)"
proof -
  note B = ByteBuffer_lawsD(1) [OF bb]
  note defs = challenge_answer_def Let_def split_beta B sl name_args_def
  let ?ip = "db_PQuery x (login_db w) (sql_ip_banned, name_args x (remote_address s))"
  let ?acct = "db_PQuery x (login_db w) (sql_account, name_args x (login s))"
  show ?thesis
  proof (cases "?ip \<noteq> None \<or> ?acct = None")
    case True
    then show ?thesis
      by (cases ?ip) (auto simp: defs v_def challenge_verdict_def intro!: exI [of _ "[]"] exI [of _ s])
  next
    case False
    then obtain acct where ip: "?ip = None" and acct: "?acct = Some acct" by auto
    let ?ban = "db_PQuery x (login_db w) (sql_account_banned, [SqlU (GetUInt32 (acct ! 1))])"
    define w2 where "w2 = snd (PQuery x (sql_account, name_args x (login s))
        (snd (PQuery x (sql_ip_banned, name_args x (remote_address s)) w)))"
    have a: "challenge_answer x loc s w = (case challenge_account x acct loc s w2 of
        Inl e \<Rightarrow> Inl e | Inr (tail, s, w) \<Rightarrow> Inr (True, snd (send ([0, 0] @ tail) s), w))"
      using ip acct by (simp add: defs w2_def)
    have d: "login_db w2 = login_db w" by (simp add: w2_def)
    show ?thesis
    proof (cases "v = WOW_SUCCESS")
      case True
      then have "challenge_account x acct loc s w2 =
          challenge_srp x acct loc s (snd (PQuery x (sql_account_banned, [SqlU (GetUInt32 (acct ! 1))]) w2))"
        using ip acct by (auto simp: challenge_account_def Let_def split_beta d v_def challenge_verdict_def
            split: option.splits if_splits)
      with challenge_srp_result [OF bn bb N sl, of acct loc
          "snd (PQuery x (sql_account_banned, [SqlU (GetUInt32 (acct ! 1))]) w2)"]
      obtain tail s1 w' where "challenge_account x acct loc s w2 = Inr (0 # tail, s1, w')"
        "challenge_keeps s s1" "status s1 = STATUS_LOGON_PROOF" by metis
      with True a show ?thesis by (intro exI [of _ tail] exI [of _ s1] exI [of _ w']) simp
    next
      case False
      then have "\<exists>w'. challenge_account x acct loc s w2 = Inr ([result_code v], s, w')"
        using ip acct by (auto simp: challenge_account_def Let_def split_beta d v_def challenge_verdict_def B
            split: option.splits if_splits)
      with False a show ?thesis by (auto intro!: exI [of _ "[]"] exI [of _ s])
    qed
  qed
qed

text \<open>The state in which a well-formed challenge is answered.\<close>

definition named_by :: "('bn, 'db) ext \<Rightarrow> bytes \<Rightarrow> bytes \<Rightarrow> 'bn sock \<Rightarrow> 'bn sock" where
  "named_by x buf acc s =
     s\<lparr>status := STATUS_CLOSED, login := to_string acc, client_build := ch_build buf,
       client_os := rev (os_field buf), safelogin := db_escape_string x (to_string acc)\<rparr>"

lemma named_by_simps:
  "login (named_by x buf acc s) = to_string acc" "client_build (named_by x buf acc s) = ch_build buf"
  "remote_address (named_by x buf acc s) = remote_address s" "status (named_by x buf acc s) = STATUS_CLOSED"
  by (simp_all add: named_by_def)

lemma logon_challenge_body_encode:
  assumes "frame_ok (ChallengeFrame r e mid acc)"
  defines "buf \<equiv> encode (ChallengeFrame r e mid acc) @ [0]"
  assumes "length (os_field buf) \<le> 4"
  shows "logon_challenge_body x buf s w =
         challenge_answer x (ParseClientLocaleClaim (ch_country buf)) (named_by x buf acc s) w"
  using assms(3) ch_login_encode(1) [OF assms(1), folded buf_def] ch_text_encode [OF assms(1), folded buf_def]
  by (auto simp: logon_challenge_body_def Let_def named_by_def)

text \<open>An operating system of more than four letters: nothing is sent or looked up.\<close>

lemma logon_challenge_body_refuses:
  assumes "frame_ok (ChallengeFrame r e mid acc)"
  defines "buf \<equiv> encode (ChallengeFrame r e mid acc) @ [0]"
  assumes "\<not> length (os_field buf) \<le> 4"
  shows "logon_challenge_body x buf s w =
    Inr (False, s\<lparr>status := STATUS_CLOSED, login := to_string acc, client_build := ch_build buf, client_os := os_field buf\<rparr>, w)"
  using assms(3) ch_login_encode(1) [OF assms(1), folded buf_def] ch_text_encode [OF assms(1), folded buf_def]
  by (auto simp: logon_challenge_body_def Let_def)

lemma run_frame_challenge:
  "run_frame x (encode (ChallengeFrame False e mid acc)) s w =
   logon_challenge_body x (encode (ChallengeFrame False e mid acc) @ [0]) s w"
  unfolding run_frame_def Let_def encode_0 by simp

lemma challenged_os:
  assumes "frame_ok (ChallengeFrame False e mid acc)"
    and "run_frame x (encode (ChallengeFrame False e mid acc)) s w = Inr (ok, s1, w1)" and "status s1 = STATUS_LOGON_PROOF"
  shows "length (os_field (encode (ChallengeFrame False e mid acc) @ [0])) \<le> 4"
proof (rule ccontr)
  assume "\<not> length (os_field (encode (ChallengeFrame False e mid acc) @ [0])) \<le> 4"
  from logon_challenge_body_refuses [OF assms(1) this, of x s w] assms(2,3) show False
    by (auto simp: run_frame_challenge)
qed

lemma run_frame_proof:
  "run_frame x (encode (LogonProofFrame d e)) s w = logon_proof_body x (encode (LogonProofFrame d e)) s w"
  unfolding run_frame_def Let_def encode_0 by simp

lemma challenge_frame_verdict:
  fixes x :: "('bn, 'db) ext" and w :: "'db world"
  assumes "BigNumber_laws x val" and "ByteBuffer_laws x" and "inv x dl s"
    and "frame_ok (ChallengeFrame False e mid acc)"
  defines "buf \<equiv> encode (ChallengeFrame False e mid acc) @ [0]"
  assumes "length (os_field buf) \<le> 4"
  defines "v \<equiv> challenge_verdict x (login_db w) (remote_address s) (to_string acc) (ch_build buf)"
  shows "\<exists>tail s1 w'. run_frame x (encode (ChallengeFrame False e mid acc)) s w =
             Inr (True, snd (send ([0, 0, result_code v] @ tail) s1), w') \<and>
           challenge_keeps (named_by x buf acc s) s1 \<and> (v \<noteq> WOW_SUCCESS \<longrightarrow> tail = []) \<and>
           status s1 = (if v = WOW_SUCCESS then STATUS_LOGON_PROOF else STATUS_CLOSED)"
proof -
  let ?s = "named_by x buf acc s"
  have "srp_N ?s = bn_SetHexStr x srp_prime" "safelogin ?s = db_escape_string x (login ?s)"
    using assms(3) by (simp_all add: named_by_def inv_def inv_group_def)
  from challenge_answer_verdict [OF assms(1,2) this, where w = w and loc = "ParseClientLocaleClaim (ch_country buf)"]
  show ?thesis
    unfolding run_frame_challenge logon_challenge_body_encode [OF assms(4,6) [unfolded buf_def]] v_def buf_def
    by (simp only: named_by_simps)
qed

section \<open>The verdict on a proof\<close>

text \<open>Whether the client's packet proves knowledge of the password.\<close>

definition proof_matches :: "('bn, 'db) ext \<Rightarrow> bytes \<Rightarrow> 'bn sock \<Rightarrow> bool" where
  "proof_matches x lp s \<longleftrightarrow>
     (let A = bn_SetBinary x (subbytes 1 32 lp); K = session_key x (server_secret x s A)
      in \<not> bn_isZero x (bn_mod x A (srp_N s)) \<and>
         AsByteArray x (client_proof x (srp_N s) (srp_g s) (login s) (srp_s s) A (srp_B s) K) 20 =
           subbytes 33 20 lp)"

lemma server_secret_status [simp]: "server_secret x (s\<lparr>status := st\<rparr>) A = server_secret x s A"
  by (simp add: server_secret_def)

lemma proof_rejected_status [simp]:
  "status (fst (snd (proof_rejected x s w))) = status s"
  by (simp add: proof_rejected_def Let_def snd_send)

lemma OfferPatch_not_authed:
  "status s = STATUS_CLOSED \<Longrightarrow> status (fst (snd (OfferPatch x s w))) \<noteq> STATUS_AUTHED"
  by (simp add: OfferPatch_def Let_def snd_send SendInvalidVersion_def deactivate_auth_deadline_def
      split: option.split)

lemma proof_accepted_authed_iff:
  assumes "status s = STATUS_CLOSED"
  shows "status (fst (snd (proof_accepted x A M s w))) = STATUS_AUTHED \<longleftrightarrow>
     FindBuildInfo (client_build s) \<noteq> None \<and> \<not> ShouldPatch (patchPolicy s) (client_build s) True \<and>
     fst (DirectPExecute x (sql_publish_key,
       [SqlS (bn_AsHexStr x (srp_K s)), SqlS (c_string (remote_address s)),
        SqlU (GetLocaleByName x (localizationName s)),
        SqlS (c_string (db_escape_string x (localizationName s))),
        SqlS (c_string (db_escape_string x (client_os s))), SqlS (c_string (safelogin s))]) w)"
proof (cases "FindBuildInfo (client_build s)")
  case None
  then show ?thesis using assms OfferPatch_not_authed [OF assms, of x w]
    by (simp add: proof_accepted_def Let_def SendInvalidVersion_def snd_send)
next
  case (Some i)
  then show ?thesis using assms OfferPatch_not_authed [OF assms, of x w]
    by (simp add: proof_accepted_def Let_def split_beta session_simps)
qed

section \<open>The honest login\<close>

lemma challenge_srp_ready:
  assumes bn: "BigNumber_laws x val" and sha: "Sha1_laws x" and g: "inv_group x s"
    and st: "stored_consistent x val acct" and r: "challenge_srp x acct loc s w = Inr (pkt, s', w')"
  shows "handshake x val s' (stored_digest x (GetString (acct ! 0)))"
proof -
  let ?dg = "stored_digest x (GetString (acct ! 0))"
  define p where "p = (if length (GetString (acct ! 5)) \<noteq> s_BYTE_SIZE * 2 \<or>
      length (GetString (acct ! 6)) \<noteq> s_BYTE_SIZE * 2
      then SetVSFields x (GetString (acct ! 0)) s w
      else (s\<lparr>srp_s := bn_SetHexStr x (c_string (GetString (acct ! 6))),
               srp_v := bn_SetHexStr x (c_string (GetString (acct ! 5)))\<rparr>, w))"
  let ?s1 = "fst p" and ?b = "fst (SetRand x (19 * 8) (snd p))"
  have ver: "val (srp_s ?s1) < 256 ^ 32" "val (srp_v ?s1) = 7 ^ client_x x (val (srp_s ?s1)) ?dg mod prime_N"
    using SetVSFields_verifier [OF bn sha g, of "GetString (acct ! 0)" w "fst p" "snd p"] st
    unfolding p_def stored_consistent_def by (auto simp del: power_numeral)
  have grp: "srp_N ?s1 = bn_SetHexStr x srp_prime" "srp_g ?s1 = bn_SetDword x 7"
    using g unfolding p_def by (simp_all add: inv_group_def SetVSFields_def Let_def split_beta)
  have s': "srp_s s' = srp_s ?s1" "srp_v s' = srp_v ?s1" "srp_b s' = ?b"
      "srp_N s' = srp_N ?s1" "srp_g s' = srp_g ?s1"
      "srp_B s' = bn_mod x (bn_add x (bn_mul x (srp_v ?s1) (bn_SetDword x 3))
         (bn_ModExp x (srp_g ?s1) ?b (srp_N ?s1))) (srp_N ?s1)"
    using r unfolding challenge_srp_def Let_def p_def [symmetric]
    by (clarsimp simp: split_beta split: if_splits)+
  have N: "val (bn_SetHexStr x srp_prime) = prime_N" "0 < val (bn_SetHexStr x srp_prime)"
    using prime_N_bounds(1) by (simp_all add: BigNumber_lawsD(1) [OF bn] prime_N_def)
  have "val (srp_B s') = (val (srp_v s') * 3 + 7 ^ val (srp_b s') mod prime_N) mod prime_N"
    unfolding s' grp BigNumber_lawsD(7,8) [OF bn N(2)] BigNumber_lawsD(5,6) [OF bn]
    by (simp add: N(1) BigNumber_lawsD(2) [OF bn])
  with ver bn sha show ?thesis
    unfolding handshake_def srp_ready_def s' grp by simp
qed

lemma status_send [simp]: "status (snd (send b s)) = status s"
  by (simp add: snd_send)

lemma challenge_success_path:
  assumes r: "challenge_answer x loc s w = Inr (ok, s', w')" and st: "status s = STATUS_CLOSED"
    and lp: "status s' = STATUS_LOGON_PROOF"
    and acct: "db_PQuery x (login_db w) (sql_account, [SqlS (c_string (safelogin s))]) = Some acct"
  shows "\<exists>pkt tail w1 s1 w2. challenge_srp x acct loc s w1 = Inr (tail, s1, w2) \<and> s' = snd (send pkt s1)"
  using assms
  by (auto simp: challenge_answer_def challenge_account_def Let_def split_beta
      split: option.splits sum.splits if_splits) blast+

lemma client_packet_layout:
  assumes "Sha1_laws x" and "length crc = 20"
  shows "subbytes 1 32 (client_packet x name salt dg B a crc sec) = le_bytes 32 (client_A a)"
    and "subbytes 33 20 (client_packet x name salt dg B a crc sec) = client_M1 x name salt dg B a"
    and "client_packet x name salt dg B a crc sec ! 0 = cmd_code CMD_AUTH_LOGON_PROOF"
  using assms Sha1_laws_length [OF assms(1)]
  by (simp_all add: client_packet_def encode_def subbytes_def client_M1_def Let_def)

lemma honest_proof_accepted:
  fixes x :: "('bn, 'db) ext" and a :: nat
  assumes h: "handshake x val s digest" and crc: "length crc = 20"
  defines "K \<equiv> session_key x (server_secret x s (client_bn x a))"
  defines "M \<equiv> client_proof x (srp_N s) (srp_g s) (login s) (srp_s s) (client_bn x a) (srp_B s) K"
  shows "logon_proof_body x (client_packet x (login s) (val (srp_s s)) digest (val (srp_B s)) a crc sec) s w =
         Inr (proof_accepted x (client_bn x a) M (s\<lparr>status := STATUS_CLOSED, srp_K := K\<rparr>) w)"
  using client_packet_layout [OF handshakeD(2) [OF h] crc] client_bn_nonzero [OF h, of a]
    proof_agrees [OF h, of "login s" a]
  unfolding M_def K_def client_bn_def by (simp add: logon_proof_body_def Let_def)

lemma proof_accepted_supported:
  assumes "FindBuildInfo (client_build s) \<noteq> None"
    and "\<not> ShouldPatch (patchPolicy s) (client_build s) True"
    and "\<And>d q. fst (db_DirectPExecute x d q)" and "m_sender s" and "\<not> m_closed s"
  shows "\<exists>s' w' tail. proof_accepted x A M s w = (True, s', w') \<and> status s' = STATUS_AUTHED \<and>
           srp_K s' = srp_K s \<and> sent s' = sent s @ [[1, 0] @ server_proof x A M (srp_K s) @ tail]"
proof -
  have "fst (DirectPExecute x q w)" for q
    using assms(3) [of "login_db w" q] by (simp add: DirectPExecute_def split_beta)
  with assms(1,2,4,5) show ?thesis
    by (simp add: proof_accepted_def Let_def split_beta session_simps)
qed

lemma honest_login_frames:
  fixes x :: "('bn, 'db) ext" and w :: "'db world"
  assumes "BigNumber_laws x val" and "Sha1_laws x" and "inv x dl s" and "m_sender s" and "\<not> m_closed s"
    and "frame_ok (ChallengeFrame False e mid acc)"
    and "db_PQuery x (login_db w) (sql_account, name_args x (to_string acc)) = Some acct"
    and "stored_consistent x val acct"
    and "run_frame x (encode (ChallengeFrame False e mid acc)) s w = Inr (ok, s1, w1)"
    and "status s1 = STATUS_LOGON_PROOF"
    and "FindBuildInfo (client_build s1) \<noteq> None"
    and "\<not> ShouldPatch (patchPolicy s1) (client_build s1) True"
    and "\<And>d q. fst (db_DirectPExecute x d q)"
    and "length crc = 20"
  shows "let salt = val (srp_s s1); dg = stored_digest x (GetString (acct ! 0)); B = val (srp_B s1)
         in \<exists>s2 w2 tail. run_frame x (client_packet x (to_string acc) salt dg B a crc sec) s1 w1 =
                Inr (True, s2, w2) \<and> status s2 = STATUS_AUTHED \<and>
              AsByteArray x (srp_K s2) 40 = client_K x salt dg B a \<and>
              sent s2 = sent s1 @ [[1, 0] @ client_M2 x (to_string acc) salt dg B a @ tail]"
proof -
  let ?buf = "encode (ChallengeFrame False e mid acc) @ [0]"
  let ?s = "named_by x ?buf acc s"
  let ?dg = "stored_digest x (GetString (acct ! 0))"
  have os: "length (os_field ?buf) \<le> 4"
    by (rule challenged_os [OF assms(6,9,10)])
  from assms(9) have ans: "challenge_answer x (ParseClientLocaleClaim (ch_country ?buf)) ?s w = Inr (ok, s1, w1)"
    by (simp add: run_frame_challenge logon_challenge_body_encode [OF assms(6) os])
  have "db_PQuery x (login_db w) (sql_account, [SqlS (c_string (safelogin ?s))]) = Some acct"
    "status ?s = STATUS_CLOSED" "inv_group x ?s" "login ?s = to_string acc"
    "safelogin ?s = db_escape_string x (to_string acc)"
    using assms(3,7) by (simp_all add: named_by_def name_args_def inv_def inv_group_def)
  note ns = this
  obtain pkt tail w0 s3 w3 where srp: "challenge_srp x acct (ParseClientLocaleClaim (ch_country ?buf)) ?s w0 =
      Inr (tail, s3, w3)" and s1: "s1 = snd (send pkt s3)"
    using challenge_success_path [OF ans ns(2) assms(10) ns(1)] by blast
  have "challenge_keeps ?s s3"
    using challenge_srp_spec [OF srp ns(5) world_grows_refl] by blast
  then have k: "login s1 = to_string acc" "m_sender s1" "\<not> m_closed s1"
    using assms(4,5) by (simp_all add: s1 snd_send challenge_keeps_def named_by_def)
  have h: "handshake x val s1 ?dg"
    using challenge_srp_ready [OF assms(1,2) ns(3) assms(8) srp]
    by (simp add: s1 snd_send handshake_def srp_ready_def)
  define K where "K = session_key x (server_secret x s1 (client_bn x a))"
  define M where "M = client_proof x (srp_N s1) (srp_g s1) (login s1) (srp_s s1) (client_bn x a) (srp_B s1) K"
  obtain s2 w2 tl where "proof_accepted x (client_bn x a) M (s1\<lparr>status := STATUS_CLOSED, srp_K := K\<rparr>) w1 =
      (True, s2, w2)" "status s2 = STATUS_AUTHED" "srp_K s2 = K"
      "sent s2 = sent s1 @ [[1, 0] @ server_proof x (client_bn x a) M K @ tl]"
    using proof_accepted_supported [of "s1\<lparr>status := STATUS_CLOSED, srp_K := K\<rparr>" x "client_bn x a" M w1]
      assms(11-13) k(2,3) by auto
  moreover have "AsByteArray x K 40 = client_K x (val (srp_s s1)) ?dg (val (srp_B s1)) a"
    using key_bytes [OF h, of a] by (simp add: K_def UpdateFixed_def)
  moreover have "server_proof x (client_bn x a) M K =
      client_M2 x (to_string acc) (val (srp_s s1)) ?dg (val (srp_B s1)) a"
    using server_proof_agrees [OF h] by (simp add: M_def K_def k(1))
  moreover have "run_frame x (client_packet x (to_string acc) (val (srp_s s1)) ?dg (val (srp_B s1)) a crc sec) s1 w1 =
      Inr (proof_accepted x (client_bn x a) M (s1\<lparr>status := STATUS_CLOSED, srp_K := K\<rparr>) w1)"
    using honest_proof_accepted [OF h assms(14)] unfolding client_packet_def run_frame_proof K_def M_def k(1)
    by blast
  ultimately show ?thesis by (auto simp: Let_def)
qed

section \<open>Properties\<close>

text \<open>
  C6: a session is authenticated by a logon proof exactly when the proof is right.  The
  handler's body ends in \<open>STATUS_AUTHED\<close> if and only if the client's public number is not
  zero modulo \<open>N\<close>, its proof is the one the server computes from the verifier, the client's
  build is supported and is not to be patched, and the database took the session key.
\<close>
theorem logon_proof_authenticates_iff:
  assumes "logon_proof_body x lp s w = Inr (ok, s', w')" and "status s \<noteq> STATUS_AUTHED"
  shows "status s' = STATUS_AUTHED \<longleftrightarrow>
     proof_matches x lp s \<and>
     FindBuildInfo (client_build s) \<noteq> None \<and> \<not> ShouldPatch (patchPolicy s) (client_build s) True \<and>
     fst (db_DirectPExecute x (login_db w) (sql_publish_key,
       [SqlS (bn_AsHexStr x (session_key x (server_secret x s (bn_SetBinary x (subbytes 1 32 lp))))),
        SqlS (c_string (remote_address s)), SqlU (GetLocaleByName x (localizationName s)),
        SqlS (c_string (db_escape_string x (localizationName s))),
        SqlS (c_string (db_escape_string x (client_os s))), SqlS (c_string (safelogin s))]))"
proof -
  define A where "A = bn_SetBinary x (subbytes 1 32 lp)"
  define s1 where "s1 = s\<lparr>status := STATUS_CLOSED, srp_K := session_key x (server_secret x s A)\<rparr>"
  let ?M = "client_proof x (srp_N s) (srp_g s) (login s) (srp_s s) A (srp_B s) (srp_K s1)"
  have s': "s' = (if bn_isZero x (bn_mod x A (srp_N s)) then s\<lparr>status := STATUS_CLOSED\<rparr>
      else if AsByteArray x ?M 20 = subbytes 33 20 lp then fst (snd (proof_accepted x A ?M s1 w))
      else fst (snd (proof_rejected x s1 w)))"
    using assms(1) [unfolded logon_proof_body_def Let_def, folded A_def]
    by (auto simp: s1_def split: if_splits)
  have dir: "fst (DirectPExecute x q w) = fst (db_DirectPExecute x (login_db w) q)" for q
    by (simp add: DirectPExecute_def split_beta)
  have "status s1 = STATUS_CLOSED" by (simp add: s1_def)
  from proof_accepted_authed_iff [OF this, of x A ?M w] show ?thesis
    unfolding proof_matches_def Let_def s' dir A_def [symmetric] by (auto simp: s1_def)
qed

text \<open>
  C8: the answer to a logon challenge, on every branch.  For a well-formed challenge whose
  system name is at most four characters, the handler never fails; it sends one packet
  whose third byte is the code of the verdict (address banned, no such account, locked to
  another address, account banned or suspended, success, in this order of precedence),
  nothing follows the code unless the verdict is success, and the session waits for a
  proof exactly on success and is closed for further commands otherwise.
\<close>
theorem logon_challenge_verdict:
  fixes x :: "('bn, 'db) ext" and w :: "'db world"
  assumes "BigNumber_laws x val" and "ByteBuffer_laws x" and "inv x dl s"
    and "frame_ok (ChallengeFrame False e mid acc)"
    and "length (os_field (encode (ChallengeFrame False e mid acc) @ [0])) \<le> 4"
    and "m_sender s" and "\<not> m_closed s"
  shows "let v = challenge_verdict x (login_db w) (remote_address s) (to_string acc)
                   (ch_build (encode (ChallengeFrame False e mid acc) @ [0]))
         in \<exists>tail s' w'. run_frame x (encode (ChallengeFrame False e mid acc)) s w = Inr (True, s', w') \<and>
              sent s' = sent s @ [[0, 0, result_code v] @ tail] \<and> (v \<noteq> WOW_SUCCESS \<longrightarrow> tail = []) \<and>
              status s' = (if v = WOW_SUCCESS then STATUS_LOGON_PROOF else STATUS_CLOSED)"
  using challenge_frame_verdict [OF assms(1-5), where w = w] assms(6,7)
  by (auto simp: Let_def snd_send challenge_keeps_def named_by_def)

text \<open>
  C4: an honest client logs in.  When a challenge for an existing account was answered
  with success, the stored salt and verifier (if any) belong to the stored password
  digest, the build is supported and not to be patched and the database accepts the
  update, then the proof of any client that knows the password digest, for any secret
  \<open>a\<close>, is accepted: the session becomes authenticated, both sides hold the same
  forty-byte session key, and the server's answer carries the proof the client expects.
\<close>
theorem honest_login:
  fixes x :: "('bn, 'db) ext" and w :: "'db world"
  assumes "BigNumber_laws x val" and "Sha1_laws x" and "inv x dl s" and "m_sender s" and "\<not> m_closed s"
    and "frame_ok (ChallengeFrame False e mid acc)"
    and "db_PQuery x (login_db w) (sql_account, name_args x (to_string acc)) = Some acct"
    and "stored_consistent x val acct"
    and "run_frame x (encode (ChallengeFrame False e mid acc)) s w = Inr (ok, s1, w1)"
    and "status s1 = STATUS_LOGON_PROOF"
    and "FindBuildInfo (client_build s1) \<noteq> None"
    and "\<not> ShouldPatch (patchPolicy s1) (client_build s1) True"
    and "\<And>d q. fst (db_DirectPExecute x d q)"
    and "length crc = 20"
  shows "let salt = val (srp_s s1); dg = stored_digest x (GetString (acct ! 0)); B = val (srp_B s1)
         in \<exists>s2 w2 tail. run_frame x (client_packet x (to_string acc) salt dg B a crc sec) s1 w1 =
                Inr (True, s2, w2) \<and> status s2 = STATUS_AUTHED \<and>
              AsByteArray x (srp_K s2) 40 = client_K x salt dg B a \<and>
              sent s2 = sent s1 @ [[1, 0] @ client_M2 x (to_string acc) salt dg B a @ tail]"
  using assms by (rule honest_login_frames)

text \<open>
  The answer to a wrong password: 1.12.3 (build 6141) gets the four bytes of the later
  clients, although everywhere else it is treated as the last of the 1.12 family.
\<close>

lemma wrong_password_answer:
  assumes "m_sender s" and "\<not> m_closed s"
  shows "sent (fst (snd (proof_rejected x s w))) = sent s @
    [[1, result_code WOW_FAIL_UNKNOWN_ACCOUNT] @ (if client_build s \<le> 6005 then [] else [3, 0])]"
  using assms by (cases "6005 < client_build s") (auto simp: proof_rejected_def Let_def send_def not_le)

lemma wrong_password_answer_6141:
  assumes "m_sender s" and "\<not> m_closed s" and "client_build s = 6141"
  shows "is_vanilla_build (client_build s) \<and>
    sent (fst (snd (proof_rejected x s w))) = sent s @ [[1, result_code WOW_FAIL_UNKNOWN_ACCOUNT, 3, 0]]"
  using wrong_password_answer [OF assms(1,2)] assms(3) by (simp add: is_vanilla_build_def)

section \<open>A concrete login\<close>

definition example_account :: row where
  "example_account =
     [example_field 0 ''0123456789ABCDEF0123456789ABCDEF01234567'', example_field 7 [], example_field 0 [],
      example_field 0 ''10.0.0.2'', example_field 0 [], example_field 0 [], example_field 0 []]"

definition example_queries :: "sql \<Rightarrow> row option" where
  "example_queries q = (if fst q = sql_account then Some example_account else None)"

definition example_login_ext :: "(nat, unit) ext" where
  "example_login_ext = example_ext id example_queries []"

text \<open>The middle of a challenge of build 8606.\<close>

definition example_middle :: bytes where
  "example_middle = replicate 7 0 @ [0x9E, 0x21] @ replicate 20 0"

definition example_session :: "nat sock" where
  "example_session = fst (snd (connect example_login_ext 0 30 default_PatchPolicy ''10.0.0.1'' None example_world))"

lemma example_session_inv: "inv example_login_ext (mk_Deadline 0 30) example_session"
  unfolding example_session_def
  by (rule inv_connect [where rb = "fst (connect example_login_ext 0 30 default_PatchPolicy ''10.0.0.1'' None example_world)"
        and w' = "snd (snd (connect example_login_ext 0 30 default_PatchPolicy ''10.0.0.1'' None example_world))"]) simp

lemma example_session_simps [simp]:
  "m_sender example_session" "\<not> m_closed example_session" "status example_session = STATUS_CHALLENGE"
  "remote_address example_session = ''10.0.0.1''" "patchPolicy example_session = default_PatchPolicy"
  "sent example_session = []"
  by (simp_all add: example_session_def connect_def mk_AuthSocket_def setFlowControl_def setCloser_def
      setSender_def setPeerAddress_def)

lemma example_frame_ok: "frame_ok (ChallengeFrame False 0 example_middle [65])"
  by (simp add: example_middle_def)

lemma example_buf:
  "os_field (encode (ChallengeFrame False 0 example_middle [65]) @ [0]) = []"
  "ch_build (encode (ChallengeFrame False 0 example_middle [65]) @ [0]) = 8606"
  by code_simp+

lemma example_queries_simps [simp]:
  "db_PQuery example_login_ext d (sql_account, args) = Some example_account"
  "db_PQuery example_login_ext d (sql_ip_banned, args) = None"
  "db_PQuery example_login_ext d (sql_account_banned, args) = None"
  by (simp_all add: example_login_ext_def example_ext_def example_queries_def sql_account_def
      sql_ip_banned_def sql_account_banned_def)

lemma example_verdict: "challenge_verdict example_login_ext d addr name b = WOW_SUCCESS"
  by (simp add: challenge_verdict_def) (simp add: example_account_def example_field_def)

theorem logon_challenge_verdict_witness:
  "\<exists>tail s' w'. run_frame example_login_ext (encode (ChallengeFrame False 0 example_middle [65]))
       example_session example_world = Inr (True, s', w') \<and>
     sent s' = [[0, 0, 0] @ tail] \<and> status s' = STATUS_LOGON_PROOF"
  using logon_challenge_verdict [of example_login_ext id "mk_Deadline 0 30" example_session 0 example_middle
      "[65]" example_world] example_session_inv example_frame_ok
  by (simp add: example_buf example_verdict) (simp add: example_login_ext_def)

theorem logon_proof_authenticates_iff_witness:
  "\<exists>s' w'. logon_proof_body example_login_ext (replicate 75 0) example_session example_world = Inr (False, s', w') \<and>
     status s' \<noteq> STATUS_AUTHED \<and> \<not> proof_matches example_login_ext (replicate 75 0) example_session"
proof -
  have z: "bn_isZero example_login_ext (bn_mod example_login_ext
      (bn_SetBinary example_login_ext (subbytes 1 32 (replicate 75 0))) N)" for N
    by (simp add: subbytes_def example_login_ext_def example_ext_def)
  have r: "logon_proof_body example_login_ext (replicate 75 0) example_session example_world =
      Inr (False, example_session\<lparr>status := STATUS_CLOSED\<rparr>, example_world)"
    using z by (simp add: logon_proof_body_def Let_def)
  have no: "\<not> proof_matches example_login_ext (replicate 75 0) example_session"
    using z by (simp add: proof_matches_def Let_def)
  have "status example_session \<noteq> STATUS_AUTHED" by simp
  from logon_proof_authenticates_iff [OF r this] no
  have "status (example_session\<lparr>status := STATUS_CLOSED\<rparr>) \<noteq> STATUS_AUTHED" by blast
  with r no show ?thesis by blast
qed

theorem honest_login_witness:
  "\<exists>s1 w1 s2 w2. run_frame example_login_ext (encode (ChallengeFrame False 0 example_middle [65]))
       example_session example_world = Inr (True, s1, w1) \<and>
     run_frame example_login_ext (client_packet example_login_ext ''A'' (srp_s s1)
       (stored_digest example_login_ext (GetString (example_account ! 0))) (srp_B s1) 5 (replicate 20 0) 0) s1 w1 =
       Inr (True, s2, w2) \<and> status s2 = STATUS_AUTHED"
proof -
  let ?x = example_login_ext and ?f = "ChallengeFrame False 0 example_middle [65]"
  have laws: "BigNumber_laws ?x id" "Sha1_laws ?x" "ByteBuffer_laws ?x" by (simp_all add: example_login_ext_def)
  obtain tail s0 w1 where run: "run_frame ?x (encode ?f) example_session example_world =
      Inr (True, snd (send ([0, 0, 0] @ tail) s0), w1)"
      and keeps: "challenge_keeps (named_by ?x (encode ?f @ [0]) [65] example_session) s0"
      and st: "status s0 = STATUS_LOGON_PROOF"
    using challenge_frame_verdict [OF laws(1,3) example_session_inv example_frame_ok, of example_world]
    by (auto simp: example_buf example_verdict)
  let ?s1 = "snd (send ([0, 0, 0] @ tail) s0)"
  have s1: "client_build ?s1 = 8606" "patchPolicy ?s1 = default_PatchPolicy"
    using keeps by (simp_all add: snd_send challenge_keeps_def named_by_def example_buf)
  have sup: "FindBuildInfo 8606 \<noteq> None" by code_simp
  have "to_string [65] = ''A''" by code_simp
  then have q: "db_PQuery ?x (login_db example_world) (sql_account, name_args ?x (to_string [65])) = Some example_account"
    "client_packet ?x (to_string [65]) = client_packet ?x ''A''" by simp_all
  have cons: "stored_consistent ?x id example_account"
    by (simp add: stored_consistent_def example_account_def example_field_def)
  have pass: "FindBuildInfo (client_build ?s1) \<noteq> None" "\<not> ShouldPatch (patchPolicy ?s1) (client_build ?s1) True"
    unfolding s1 using sup by (simp_all add: ShouldPatch_def default_PatchPolicy_def)
  have db: "fst (db_DirectPExecute ?x d p)" for d p by (simp add: example_login_ext_def example_ext_def)
  have st1: "status ?s1 = STATUS_LOGON_PROOF" using st by (simp add: snd_send)
  have len: "length (replicate 20 (0 :: byte)) = 20" by simp
  from honest_login [OF laws(1,2) example_session_inv _ _ example_frame_ok q(1) cons run st1 pass db len,
      of 5 0] run
  show ?thesis by (auto simp: Let_def q(2))
qed

end
