(* ===== verification/ReconnectProtocol.thy ===== *)
theory ReconnectProtocol
  imports LoginProtocol
begin

text \<open>
  The reconnect handshake: exactly which proofs are accepted, and the whole handshake of a
  client that kept the session key of an earlier login.
\<close>

section \<open>The proof\<close>

lemma run_frame_reconnect:
  "run_frame x (encode (ChallengeFrame True e mid acc)) s w =
     reconnect_challenge_body x (encode (ChallengeFrame True e mid acc) @ [0]) s w"
  "run_frame x (encode (ReconnectProofFrame d)) s w = reconnect_proof_body x (encode (ReconnectProofFrame d)) s w"
  unfolding run_frame_def Let_def encode_0 by simp_all

definition identity_args :: "('bn, 'db) ext \<Rightarrow> 'bn sock \<Rightarrow> sql_arg list" where
  "identity_args x s =
     [SqlS (c_string (db_escape_string x (localizationName s))),
      SqlS (c_string (db_escape_string x (client_os s))), SqlS (c_string (safelogin s))]"

lemma reconnect_accepted_status:
  "status s \<noteq> STATUS_AUTHED \<Longrightarrow> status (fst (snd (reconnect_accepted x s w))) = STATUS_AUTHED \<longleftrightarrow>
     fst (db_DirectPExecute x (login_db w) (sql_publish_identity, identity_args x s))"
  by (simp add: reconnect_accepted_def identity_args_def Let_def split_beta DirectPExecute_def session_simps)

lemma reconnect_accepted_True:
  "fst (db_DirectPExecute x (login_db w) (sql_publish_identity, identity_args x s)) \<Longrightarrow>
   fst (reconnect_accepted x s w)"
  by (simp add: reconnect_accepted_def identity_args_def Let_def split_beta DirectPExecute_def)

lemma le_bytes_0: "le_bytes n 0 = replicate n 0"
  by (induction n) simp_all

section \<open>The client's side\<close>

text \<open>The proof of a client: its own sixteen bytes, and the hash over them, the server's and the key.\<close>

definition client_reconnect :: "('bn, 'db) ext \<Rightarrow> string \<Rightarrow> bytes \<Rightarrow> bytes \<Rightarrow> bytes \<Rightarrow> bytes \<Rightarrow> bytes" where
  "client_reconnect x name R1 challenge key R3 =
     encode (ReconnectProofFrame (R1 @ sha1 x [of_string name, R1, challenge, key] @ R3))"

lemma client_reconnect_layout:
  assumes "Sha1_laws x" and "length R1 = 16"
  shows "subbytes 1 16 (client_reconnect x name R1 challenge key R3) = R1"
    and "subbytes 17 20 (client_reconnect x name R1 challenge key R3) = sha1 x [of_string name, R1, challenge, key]"
  using assms by (simp_all add: client_reconnect_def encode_def subbytes_def)

lemma reconnect_digest_bytes:
  assumes "BigNumber_laws x val" and "length R1 = 16" and "val ch < 256 ^ 16" and "val K < 256 ^ 40"
  shows "reconnect_digest x name (bn_SetBinary x R1) ch K =
    sha1 x [of_string name, R1, le_bytes 16 (val ch), le_bytes 40 (val K)]"
  using AsByteArray_SetBinary [OF assms(1,2)] AsByteArray_val [OF assms(1,3)] AsByteArray_val [OF assms(1,4)]
  by (simp add: reconnect_digest_def UpdateFixed_def)

text \<open>The session after a reconnect challenge that found the account.\<close>

definition challenged_by :: "('bn, 'db) ext \<Rightarrow> bytes \<Rightarrow> bytes \<Rightarrow> row \<Rightarrow> 'db world \<Rightarrow> 'bn sock \<Rightarrow> 'bn sock" where
  "challenged_by x buf acc flds w s =
     s\<lparr>status := STATUS_RECON_PROOF, login := to_string acc, safelogin := db_escape_string x (to_string acc),
       client_build := ch_build buf,
       localizationName := (case ParseClientLocaleClaim (ch_country buf) of None \<Rightarrow> [] | Some l \<Rightarrow> l),
       client_os := rev (os_field buf), srp_K := bn_SetHexStr x (c_string (GetString (flds ! 0))),
       reconnectProof := bn_SetRand x (rand_calls w) 128\<rparr>"

lemma reconnect_challenge_answer:
  assumes "frame_ok (ChallengeFrame True e mid acc)" and "m_sender s" and "\<not> m_closed s"
  defines "buf \<equiv> encode (ChallengeFrame True e mid acc) @ [0]"
  assumes "length (os_field buf) \<le> 4"
    and "db_PQuery x (login_db w) (sql_session_key, name_args x (to_string acc)) = Some flds"
    and "ByteBuffer_laws x"
  shows "\<exists>w1. run_frame x (encode (ChallengeFrame True e mid acc)) s w =
     Inr (True, (challenged_by x buf acc flds w s)\<lparr>sent := sent s @
       [[cmd_code CMD_AUTH_RECONNECT_CHALLENGE, 0] @ AsByteArray x (bn_SetRand x (rand_calls w) 128) 16 @
        le_bytes 8 0 @ le_bytes 8 0]\<rparr>, w1)"
proof -
  have login: "ch_login buf = Some (to_string acc)" using ch_login_encode(1) [OF assms(1)] by (simp add: buf_def)
  obtain t where strs: "ch_os buf = Some (os_field buf)" "ch_I buf = Some t"
    using ch_text_encode [OF assms(1)] by (auto simp: buf_def)
  have "reconnect_challenge_body x buf s w = Inr (True, (challenged_by x buf acc flds w s)\<lparr>sent := sent s @
       [[cmd_code CMD_AUTH_RECONNECT_CHALLENGE, 0] @ AsByteArray x (bn_SetRand x (rand_calls w) 128) 16 @
        le_bytes 8 0 @ le_bytes 8 0]\<rparr>, (w\<lparr>sql_log := sql_log w @ [(sql_session_key, name_args x (to_string acc))],
          rand_calls := rand_calls w + 1\<rparr>))"
    using assms(2,3,5,6) ByteBuffer_lawsD [OF assms(7)]
    by (simp add: reconnect_challenge_body_def login strs Let_def name_args_def challenged_by_def PQuery_def
        SetRand_def send_def)
  then show ?thesis unfolding run_frame_reconnect buf_def by blast
qed

section \<open>Properties\<close>

text \<open>
  C11: a reconnect proof authenticates exactly when it should: the session has an account
  name, a challenge and a stored key that is not zero, the digest is the one over the
  name, the client's number, the challenge and the key, and the database took the
  client's identity.
\<close>
theorem reconnect_authenticates_iff:
  assumes "reconnect_proof_body x lp s w = Inr (ok, s', w')" and "status s \<noteq> STATUS_AUTHED"
  shows "status s' = STATUS_AUTHED \<longleftrightarrow>
    login s \<noteq> [] \<and> bn_GetNumBytes x (reconnectProof s) \<noteq> 0 \<and> bn_GetNumBytes x (srp_K s) \<noteq> 0 \<and>
    subbytes 17 20 lp =
      reconnect_digest x (login s) (bn_SetBinary x (subbytes 1 16 lp)) (reconnectProof s) (srp_K s) \<and>
    fst (db_DirectPExecute x (login_db w) (sql_publish_identity,
      [SqlS (c_string (db_escape_string x (localizationName s))),
       SqlS (c_string (db_escape_string x (client_os s))), SqlS (c_string (safelogin s))]))"
proof -
  have "identity_args x (s\<lparr>status := STATUS_CLOSED\<rparr>) = identity_args x s" by (simp add: identity_args_def)
  with reconnect_accepted_status [of "s\<lparr>status := STATUS_CLOSED\<rparr>" x w] assms show ?thesis
    by (auto simp: reconnect_proof_body_def Let_def identity_args_def close_connection_eq split: if_splits)
qed

text \<open>
  C10: a client that kept its session key reconnects.  When the account's row holds the
  hexadecimal text of a key \<open>k\<close> that is not zero, the challenge is answered with sixteen
  random bytes, and any client that knows the forty bytes of \<open>k\<close>, with any sixteen bytes of
  its own, is authenticated by its proof (unless the random number is zero).
\<close>
theorem honest_reconnect:
  fixes x :: "('bn, 'db) ext" and w :: "'db world"
  assumes "BigNumber_laws x val" and "Sha1_laws x" and "ByteBuffer_laws x"
    and "m_sender s" and "\<not> m_closed s"
    and "frame_ok (ChallengeFrame True e mid acc)"
    and "length (os_field (encode (ChallengeFrame True e mid acc) @ [0])) \<le> 4"
    and "db_PQuery x (login_db w) (sql_session_key, name_args x (to_string acc)) = Some flds"
    and "c_string (GetString (flds ! 0)) = bn_AsHexStr x k" and "0 < val k" and "val k < 256 ^ 40"
    and "0 < val (bn_SetRand x (rand_calls w) 128)"
    and "\<And>d q. fst (db_DirectPExecute x d q)"
    and "length R1 = 16" and "length R3 = 20"
  shows "\<exists>s1 w1 R s2 w2.
    run_frame x (encode (ChallengeFrame True e mid acc)) s w = Inr (True, s1, w1) \<and> length R = 16 \<and>
    sent s1 = sent s @ [[2, 0] @ R @ replicate 16 0] \<and>
    run_frame x (client_reconnect x (to_string acc) R1 R (le_bytes 40 (val k)) R3) s1 w1 = Inr (True, s2, w2) \<and>
    status s2 = STATUS_AUTHED"
proof -
  let ?r = "bn_SetRand x (rand_calls w) 128" and ?buf = "encode (ChallengeFrame True e mid acc) @ [0]"
  have r: "val ?r < 256 ^ 16" using BigNumber_lawsD(4) [OF assms(1), of "rand_calls w" 128] by simp
  define R where "R = le_bytes 16 (val ?r)"
  have R: "AsByteArray x ?r 16 = R" using AsByteArray_val [OF assms(1) r] by (simp add: R_def)
  define s1 where "s1 = (challenged_by x ?buf acc flds w s)\<lparr>sent := sent s @ [[2, 0] @ R @ replicate 16 0]\<rparr>"
  have "[cmd_code CMD_AUTH_RECONNECT_CHALLENGE, 0] @ R @ le_bytes 8 0 @ le_bytes 8 0 = [2, 0] @ R @ replicate 16 0"
    using replicate_add [of 8 8 "0 :: byte"] by (simp add: le_bytes_0)
  with reconnect_challenge_answer [OF assms(6,4,5,7,8,3)] obtain w1
    where run: "run_frame x (encode (ChallengeFrame True e mid acc)) s w = Inr (True, s1, w1)"
    unfolding R s1_def by auto
  let ?p = "client_reconnect x (to_string acc) R1 R (le_bytes 40 (val k)) R3"
  have K: "val (srp_K s1) = val k"
    using BigNumber_lawsD(1) [OF assms(1) BigNumber_lawsD(13) [OF assms(1)], of k] BigNumber_lawsD(12) [OF assms(1)] assms(9) by (simp add: s1_def challenged_by_def)
  have f: "login s1 = to_string acc" "reconnectProof s1 = ?r" "status s1 \<noteq> STATUS_AUTHED"
      "sent s1 = sent s @ [[2, 0] @ R @ replicate 16 0]"
    by (simp_all add: s1_def challenged_by_def)
  have name: "login s1 \<noteq> []" using ch_login_encode(2) [OF assms(6)] by (simp add: f(1) valid_name_def)
  have nz: "bn_GetNumBytes x ?r \<noteq> 0" "bn_GetNumBytes x (srp_K s1) \<noteq> 0"
    using BigNumber_lawsD(10) [OF assms(1), of _ 0] assms(10,12) K by auto
  have dig: "reconnect_digest x (login s1) (bn_SetBinary x (subbytes 1 16 ?p)) (reconnectProof s1) (srp_K s1) =
      subbytes 17 20 ?p"
    unfolding client_reconnect_layout [OF assms(2,14)] f
    using reconnect_digest_bytes [OF assms(1,14) r, of "srp_K s1"] assms(11) by (simp add: K R_def)
  have body: "reconnect_proof_body x ?p s1 w1 = Inr (reconnect_accepted x (s1\<lparr>status := STATUS_CLOSED\<rparr>) w1)"
    using name nz dig by (simp add: reconnect_proof_body_def Let_def f(2))
  moreover have "run_frame x ?p s1 w1 = reconnect_proof_body x ?p s1 w1"
    by (simp add: client_reconnect_def run_frame_reconnect)
  moreover have "status (fst (snd (reconnect_accepted x (s1\<lparr>status := STATUS_CLOSED\<rparr>) w1))) = STATUS_AUTHED"
    using reconnect_accepted_status [of "s1\<lparr>status := STATUS_CLOSED\<rparr>" x w1] assms(13) by simp
  moreover have "fst (reconnect_accepted x (s1\<lparr>status := STATUS_CLOSED\<rparr>) w1)"
    by (rule reconnect_accepted_True [OF assms(13)])
  ultimately have "\<exists>s2 w2. run_frame x ?p s1 w1 = Inr (True, s2, w2) \<and> status s2 = STATUS_AUTHED"
    by (cases "reconnect_accepted x (s1\<lparr>status := STATUS_CLOSED\<rparr>) w1") auto
  moreover have "length R = 16" by (simp add: R_def)
  ultimately show ?thesis using run f(4) by blast
qed

section \<open>A concrete reconnect\<close>

definition reconnect_ext :: "(nat, unit) ext" where
  "reconnect_ext = example_ext (\<lambda>_. 9) (\<lambda>_. Some [example_field 0 ''5'']) []"

theorem reconnect_authenticates_iff_witness:
  "\<exists>s'. reconnect_proof_body reconnect_ext (replicate 58 0) (example_sock STATUS_RECON_PROOF) example_world =
     Inr (False, s', example_world) \<and> status s' \<noteq> STATUS_AUTHED"
proof -
  let ?s = "example_sock STATUS_RECON_PROOF"
  have n: "login ?s = []" by (simp add: example_sock_def mk_AuthSocket_def)
  then have r: "reconnect_proof_body reconnect_ext (replicate 58 0) ?s example_world =
      Inr (False, ?s\<lparr>status := STATUS_CLOSED\<rparr>, example_world)"
    by (simp add: reconnect_proof_body_def)
  have "status ?s \<noteq> STATUS_AUTHED" by simp
  from reconnect_authenticates_iff [OF r this] n
  have "status (?s\<lparr>status := STATUS_CLOSED\<rparr>) \<noteq> STATUS_AUTHED" by blast
  with r show ?thesis by blast
qed

theorem honest_reconnect_witness:
  "\<exists>s1 w1 R s2 w2. run_frame reconnect_ext (encode (ChallengeFrame True 0 example_middle [65]))
      (example_sock STATUS_CHALLENGE) example_world = Inr (True, s1, w1) \<and>
    run_frame reconnect_ext (client_reconnect reconnect_ext (to_string [65]) (replicate 16 3) R (le_bytes 40 5)
      (replicate 20 0)) s1 w1 = Inr (True, s2, w2) \<and> status s2 = STATUS_AUTHED"
proof -
  have laws: "BigNumber_laws reconnect_ext id" "Sha1_laws reconnect_ext" "ByteBuffer_laws reconnect_ext"
    by (simp_all add: reconnect_ext_def)
  have os: "length (os_field (encode (ChallengeFrame True 0 example_middle [65]) @ [0])) \<le> 4" by code_simp
  have fr: "frame_ok (ChallengeFrame True 0 example_middle [65])" by (simp add: example_middle_def)
  have q: "db_PQuery reconnect_ext (login_db example_world) (sql_session_key, name_args reconnect_ext (to_string [65])) =
      Some [example_field 0 ''5'']" by (simp add: reconnect_ext_def example_ext_def)
  have "hex_char 5 = CHR ''5''" by code_simp
  then have k: "c_string (GetString ([example_field 0 ''5''] ! 0)) = bn_AsHexStr reconnect_ext 5"
    by (simp add: example_field_def c_string_def reconnect_ext_def example_ext_def to_hex.simps)
  have rnd: "0 < id (bn_SetRand reconnect_ext (rand_calls example_world) 128)"
    by (simp add: reconnect_ext_def example_ext_def)
  have db: "fst (db_DirectPExecute reconnect_ext d p)" for d p by (simp add: reconnect_ext_def example_ext_def)
  have s: "m_sender (example_sock STATUS_CHALLENGE)" "\<not> m_closed (example_sock STATUS_CHALLENGE)" by simp_all
  have len: "length (replicate 16 (3 :: byte)) = 16" "length (replicate 20 (0 :: byte)) = 20" by simp_all
  have v: "0 < id (5 :: nat)" "id (5 :: nat) < 256 ^ 40" by simp_all
  from honest_reconnect [OF laws s fr os q k v rnd db len] show ?thesis unfolding id_apply by blast
qed

end
