(* ===== verification/SessionProtocol.thy ===== *)
theory SessionProtocol
  imports ReconnectProtocol
begin

text \<open>
  The protocol of a session as an automaton over its status, and the log of a session: the
  frames its handlers have run, each with the state it found.  Every session, in whatever
  way the network cuts its input and whatever the rest of the process does, runs through
  this automaton.
\<close>

section \<open>The automaton\<close>

text \<open>
  A session is connected or not, and has a status.  A connection may be lost at any time;
  a session that is not connected handles no command.
\<close>

datatype phase = Open eStatus | Gone eStatus

inductive protocol :: "phase \<Rightarrow> eAuthCmd \<Rightarrow> phase \<Rightarrow> bool" where
  challenged: "protocol (Open STATUS_CHALLENGE) CMD_AUTH_LOGON_CHALLENGE (Open STATUS_LOGON_PROOF)"
| refused: "protocol (Open STATUS_CHALLENGE) CMD_AUTH_LOGON_CHALLENGE (Open STATUS_CLOSED)"
| rechallenged: "protocol (Open STATUS_CHALLENGE) CMD_AUTH_RECONNECT_CHALLENGE (Open STATUS_RECON_PROOF)"
| unknown: "protocol (Open STATUS_CHALLENGE) CMD_AUTH_RECONNECT_CHALLENGE (Open STATUS_CLOSED)"
| proven: "protocol (Open STATUS_LOGON_PROOF) CMD_AUTH_LOGON_PROOF (Open STATUS_AUTHED)"
| outdated: "protocol (Open STATUS_LOGON_PROOF) CMD_AUTH_LOGON_PROOF (Open STATUS_PATCH)"
| unproven: "protocol (Open STATUS_LOGON_PROOF) CMD_AUTH_LOGON_PROOF (Open STATUS_CLOSED)"
| reproven: "protocol (Open STATUS_RECON_PROOF) CMD_AUTH_RECONNECT_PROOF (Open STATUS_AUTHED)"
| unreproven: "protocol (Open STATUS_RECON_PROOF) CMD_AUTH_RECONNECT_PROOF (Open STATUS_CLOSED)"
| listed: "protocol (Open STATUS_AUTHED) CMD_REALM_LIST (Open STATUS_AUTHED)"
| accepted: "protocol (Open STATUS_PATCH) CMD_XFER_ACCEPT (Open STATUS_CLOSED)"
| resumed: "protocol (Open STATUS_PATCH) CMD_XFER_RESUME (Open STATUS_CLOSED)"
| cancelled: "protocol (Open STATUS_PATCH) CMD_XFER_CANCEL (Gone STATUS_PATCH)"

declare protocol.intros [intro]

inductive_cases protocol_openE: "protocol (Open st) c p"
inductive_cases protocol_goneE [elim!]: "protocol (Gone st) c p"

inductive run_of :: "phase \<Rightarrow> eAuthCmd list \<Rightarrow> phase \<Rightarrow> bool" where
  none [intro]: "run_of p [] p"
| command [intro]: "run_of p cs p1 \<Longrightarrow> protocol p1 c p2 \<Longrightarrow> run_of p (cs @ [c]) p2"
| lost [intro]: "run_of p cs (Open st) \<Longrightarrow> run_of p cs (Gone st)"

code_pred protocol .

text \<open>The words that lead to each phase.\<close>

definition logon_word :: "eAuthCmd list" where
  "logon_word = [CMD_AUTH_LOGON_CHALLENGE, CMD_AUTH_LOGON_PROOF]"

definition reconnect_word :: "eAuthCmd list" where
  "reconnect_word = [CMD_AUTH_RECONNECT_CHALLENGE, CMD_AUTH_RECONNECT_PROOF]"

fun word_of_status :: "eStatus \<Rightarrow> eAuthCmd list \<Rightarrow> bool" where
  "word_of_status STATUS_CHALLENGE cs = (cs = [])"
| "word_of_status STATUS_LOGON_PROOF cs = (cs = take 1 logon_word)"
| "word_of_status STATUS_RECON_PROOF cs = (cs = take 1 reconnect_word)"
| "word_of_status STATUS_AUTHED cs =
     ((take 2 cs = logon_word \<or> take 2 cs = reconnect_word) \<and> list_all (\<lambda>c. c = CMD_REALM_LIST) (drop 2 cs))"
| "word_of_status STATUS_PATCH cs = (cs = logon_word)"
| "word_of_status STATUS_CLOSED cs =
     (cs \<in> {take 1 logon_word, take 1 reconnect_word, logon_word, reconnect_word,
             logon_word @ [CMD_XFER_ACCEPT], logon_word @ [CMD_XFER_RESUME]})"

fun word_of :: "phase \<Rightarrow> eAuthCmd list \<Rightarrow> bool" where
  "word_of (Open st) cs = word_of_status st cs"
| "word_of (Gone st) cs =
     (word_of_status st cs \<or> st = STATUS_PATCH \<and> cs = logon_word @ [CMD_XFER_CANCEL])"

lemma word_step: "word_of p cs \<Longrightarrow> protocol p c q \<Longrightarrow> word_of q (cs @ [c])"
proof -
  have len: "length cs \<ge> 2" if "take 2 cs = [a, b]" for a b :: eAuthCmd
    using arg_cong [OF that, of length] by simp
  assume "protocol p c q" and "word_of p cs"
  then show ?thesis
    using len by (cases rule: protocol.cases) (auto simp: logon_word_def reconnect_word_def)
qed

lemma run_of_word: "run_of (Open STATUS_CHALLENGE) cs p \<Longrightarrow> word_of p cs"
  by (induction "Open STATUS_CHALLENGE" cs p rule: run_of.induct) (auto intro: word_step)

definition phase_of :: "'bn sock \<Rightarrow> phase" where
  "phase_of s = (if m_closed s then Gone (status s) else Open (status s))"

section \<open>The history of a session\<close>

text \<open>An entry has the bytes of a frame, and the session and the shared state its handler found.\<close>

type_synonym ('bn, 'db) entry = "bytes \<times> 'bn sock \<times> 'db world"

text \<open>The frames that the receive loop hands to the handlers, in order.\<close>

function process_log ::
  "('bn, 'db) ext \<Rightarrow> bytes \<Rightarrow> 'bn sock \<Rightarrow> 'db world \<Rightarrow> ('bn, 'db) entry list"
where
  "process_log x bs s w =
     (let decision = InspectFrame (stream_state (status s)) (Some bs) (length bs);
          frame = take (frameSize decision) bs
      in if m_closed s \<or> fd_status decision \<noteq> Complete then []
         else (frame, s, w) #
           (case run_frame x frame s w of
              Inl e \<Rightarrow> []
            | Inr (handled, s', w') \<Rightarrow>
                if handled then process_log x (drop (frameSize decision) bs) s' w' else []))"
  by pat_completeness auto
termination
  by (relation "measure (\<lambda>(x, bs, s, w). length bs)") (auto dest: guard.complete_shrinks)

declare process_log.simps [simp del]

definition input_log ::
  "('bn, 'db) ext \<Rightarrow> bytes \<Rightarrow> readbuf \<Rightarrow> 'bn sock \<Rightarrow> 'db world \<Rightarrow> ('bn, 'db) entry list" where
  "input_log x data rb s w =
     (if 65539 < length (m_readBuf rb) + length data then [] else process_log x (m_readBuf rb @ data) s w)"

text \<open>
  The runs of a session, as \<open>reachable\<close>, with the frames handled so far: the log of a run is
  determined by the run, with the states of the session and of the database of that run.
\<close>

inductive logged ::
  "('bn, 'db) ext \<Rightarrow> readbuf \<times> 'bn sock \<times> 'db world \<Rightarrow> ('bn, 'db) entry list \<Rightarrow>
     readbuf \<times> 'bn sock \<times> 'db world \<Rightarrow> bool"
  for x c0 where
  start: "logged x c0 [] c0"
| input: "logged x c0 h (rb, s, w) \<Longrightarrow> length data < 2 ^ 63 \<Longrightarrow>
    onData x data rb s w = Inr (rb', s', w') \<Longrightarrow> logged x c0 (h @ input_log x data rb s w) (rb', s', w')"
| sweep: "logged x c0 h (rb, s, w) \<Longrightarrow> logged x c0 h (rb, snd (ExpireAuthentication now s), w)"
| disconnect: "logged x c0 h (rb, s, w) \<Longrightarrow> logged x c0 h (rb, onClose s, w)"
| others: "logged x c0 h (rb, s, w) \<Longrightarrow> logged x c0 h (rb, s, w')"

lemma reachable_iff_logged: "reachable x c0 c \<longleftrightarrow> (\<exists>h. logged x c0 h c)"
proof
  assume "reachable x c0 c"
  then show "\<exists>h. logged x c0 h c"
    by (induction rule: reachable.induct) (blast intro: logged.intros)+
next
  assume "\<exists>h. logged x c0 h c"
  then obtain h where "logged x c0 h c" by blast
  then show "reachable x c0 c"
    by (induction rule: logged.induct) (blast intro: reachable.intros)+
qed

text \<open>
  What a log looks like, frame by frame: each frame is well-formed and its command belongs to
  the status it finds; between two frames the session may be closed and the shared state may
  change in any way.
\<close>

inductive history :: "('bn, 'db) ext \<Rightarrow> 'bn sock \<Rightarrow> ('bn, 'db) entry list \<Rightarrow> 'bn sock \<Rightarrow> bool"
  for x s0 where
  begins: "history x s0 [] s0"
| handled: "history x s0 h s \<Longrightarrow> \<not> m_closed s \<Longrightarrow> frame_ok f \<Longrightarrow> frame_state f = stream_state (status s) \<Longrightarrow>
    run_frame x (encode f) s w = Inr (ok, s', w') \<Longrightarrow> history x s0 (h @ [(encode f, s, w)]) s'"
| closes: "history x s0 h s \<Longrightarrow> history x s0 h (close_connection s)"
| hangs_up: "history x s0 h s \<Longrightarrow> history x s0 h (onClose s)"

lemma process_history:
  "history x s0 h s \<Longrightarrow> process x bs s w = Inr (bs', s', w') \<Longrightarrow> history x s0 (h @ process_log x bs s w) s'"
proof (induction "length bs" arbitrary: bs s w h rule: less_induct)
  case less
  define d where "d = InspectFrame (stream_state (status s)) (Some bs) (length bs)"
  note p = process.simps [of x bs s w, folded d_def, unfolded Let_def]
    process_log.simps [of x bs s w, folded d_def, unfolded Let_def]
  show ?case
  proof (cases "m_closed s \<or> fd_status d \<noteq> Complete")
    case True
    then have log: "process_log x bs s w = []" by (simp add: p(2))
    from True less.prems show ?thesis unfolding log
      by (cases "fd_status d") (auto simp: p(1) split: if_splits intro: history.closes)
  next
    case False
    then have c: "fd_status d = Complete" by simp
    from InspectFrame_decode [OF c [unfolded d_def]] obtain f
      where f: "frame_ok f" "frame_state f = stream_state (status s)" "encode f = take (frameSize d) bs"
      unfolding d_def by auto
    from False c less.prems(2) obtain ok s1 w1
      where r: "run_frame x (encode f) s w = Inr (ok, s1, w1)"
      unfolding f(3) by (auto simp: p split: sum.splits)
    have h1: "history x s0 (h @ [(encode f, s, w)]) s1"
      using False by (intro history.handled [OF less.prems(1) _ f(1,2) r]) simp
    show ?thesis
    proof (cases ok)
      case True
      with less.prems(2) r False c have "process x (drop (frameSize d) bs) s1 w1 = Inr (bs', s', w')"
        by (simp add: p f(3))
      moreover have "length (drop (frameSize d) bs) < length bs"
        using guard.complete_shrinks c unfolding d_def by blast
      ultimately show ?thesis
        using less.hyps [OF _ h1] True r False by (simp add: p f(3))
    next
      case ok: False
      with less.prems(2) r False history.closes [OF h1] show ?thesis by (auto simp: p f(3))
    qed
  qed
qed

lemma onData_history:
  assumes "history x s0 h s" and "length (m_readBuf rb) + length data < 2 ^ 64"
    and "onData x data rb s w = Inr (rb', s', w')"
  shows "history x s0 (h @ input_log x data rb s w) s'"
  using assms(1,3) process_history [OF assms(1), of "m_readBuf rb @ data" w]
  by (auto simp: onData_process [OF assms(2)] input_log_def process_log.simps [of x "m_readBuf rb @ data" s] Let_def
      split: if_splits sum.splits intro: history.closes)

lemma logged_history:
  assumes "logged x c0 h c" and "fst c0 = empty_readbuf"
  shows "history x (fst (snd c0)) h (fst (snd c))"
  using assms
proof (induction rule: logged.induct)
  case (input h rb s w data rb' s' w')
  have "reachable x c0 (rb, s, w)" using input.hyps(1) reachable_iff_logged by blast
  from reachable_buffer [OF this input.prems] input.hyps(2)
  have "length (m_readBuf rb) + length data < 2 ^ 64" by simp
  from onData_history [OF _ this input.hyps(3)] input.IH [OF input.prems] show ?case by simp
next
  case (sweep h rb s w now)
  then show ?case by (auto simp: ExpireAuthentication_def intro: history.closes)
qed (auto intro: history.intros)

lemma history_inv:
  assumes "history x s0 h s" and "inv x dl s0"
  shows "inv x dl s"
  using assms
proof (induction rule: history.induct)
  case (handled h s f w ok s' w')
  from run_frame_ok [OF session_ok_refl handled.hyps(2,3,4,5)] handled.IH handled.prems
  show ?case by (auto dest: session_ok_inv)
qed (auto intro: inv_onClose)

section \<open>Every frame is a step of the automaton\<close>

lemma challenge_answer_status:
  assumes "challenge_answer x loc s w = Inr (ok, s', w')" and "safelogin s = db_escape_string x u"
  shows "status s' \<in> {status s, STATUS_LOGON_PROOF}"
  using challenge_answer_spec [OF assms world_grows_refl] by auto

lemma logon_challenge_status:
  assumes "frame_ok (ChallengeFrame r e mid acc)"
    and "logon_challenge_body x (encode (ChallengeFrame r e mid acc) @ [0]) s w = Inr (ok, s', w')"
  shows "status s' \<in> {STATUS_LOGON_PROOF, STATUS_CLOSED}"
proof (cases "length (os_field (encode (ChallengeFrame r e mid acc) @ [0])) \<le> 4")
  case True
  from challenge_answer_status [OF assms(2) [unfolded logon_challenge_body_encode [OF assms(1) True]]]
  show ?thesis by (auto simp: named_by_def)
next
  case False
  with assms(2) logon_challenge_body_refuses [OF assms(1) False, of x s w] show ?thesis by auto
qed

lemma reconnect_challenge_status:
  "reconnect_challenge_body x buf s w = Inr (ok, s', w') \<Longrightarrow> status s' \<in> {STATUS_RECON_PROOF, STATUS_CLOSED}"
  by (auto simp: reconnect_challenge_body_def Let_def split_beta session_simps split: option.splits if_splits)

lemma logon_proof_status:
  "logon_proof_body x lp s w = Inr (ok, s', w') \<Longrightarrow> status s' \<in> {STATUS_AUTHED, STATUS_PATCH, STATUS_CLOSED}"
  by (auto simp: logon_proof_body_def proof_accepted_def proof_rejected_def OfferPatch_def SendInvalidVersion_def
      Let_def split_beta session_simps split: option.splits if_splits)

lemma reconnect_proof_status:
  "reconnect_proof_body x lp s w = Inr (ok, s', w') \<Longrightarrow> status s' \<in> {STATUS_AUTHED, STATUS_CLOSED}"
  by (auto simp: reconnect_proof_body_def reconnect_accepted_def Let_def split_beta session_simps split: if_splits)

lemma realm_list_status: "realm_list_body x s w = Inr (ok, s', w') \<Longrightarrow> status s' = status s"
  by (auto simp: realm_list_body_def Let_def split_beta session_simps split: option.splits prod.splits)

lemma xfer_status:
  "m_patchArtifact s \<noteq> None \<Longrightarrow> xfer_body off s w = Inr (ok, s', w') \<Longrightarrow> status s' = STATUS_CLOSED"
  by (auto simp: xfer_body_def BeginPatchStream_def Let_def session_simps split: option.splits)

lemma run_frame_protocol:
  assumes "inv x dl s" and "frame_ok f" and "frame_state f = stream_state (status s)"
    and "run_frame x (encode f) s w = Inr (ok, s', w')"
  shows "\<exists>p. protocol (Open (status s)) (frame_cmd f) p \<and> p \<in> {Open (status s'), phase_of s'}"
  using assms(3,4)
proof (cases rule: run_frame_cases)
  case (challenge e mid acc)
  with assms(2) logon_challenge_status [of False e mid acc x s w ok s' w'] show ?thesis by auto
next
  case (reconnect e mid acc)
  with reconnect_challenge_status [OF reconnect(3)] show ?thesis by auto
next
  case (prove d e)
  with logon_proof_status [OF prove(3)] show ?thesis by auto
next
  case (reprove d)
  with reconnect_proof_status [OF reprove(3)] show ?thesis by auto
next
  case (realms d)
  with realm_list_status [OF realms(3)] show ?thesis by auto
next
  case (xfer off)
  then have "m_patchArtifact s \<noteq> None" using assms(1) by (auto simp: inv_def inv_patch_def)
  then have "status s' = STATUS_CLOSED" by (rule xfer_status) (rule xfer(3))
  with xfer(1,2) show ?thesis by (auto intro!: exI [of _ "Open STATUS_CLOSED"])
next
  case cancel
  then show ?thesis by (auto simp: cancel_body_def phase_of_def close_connection_eq)
qed

lemma history_run:
  assumes "history x s0 h s" and "inv x dl s0" and "status s0 = STATUS_CHALLENGE" and "\<not> m_closed s0"
  shows "\<exists>cs. map (\<lambda>e. fst e ! 0) h = map cmd_code cs \<and> run_of (Open STATUS_CHALLENGE) cs (phase_of s)"
  using assms
proof (induction rule: history.induct)
  case begins
  then show ?case by (auto simp: phase_of_def)
next
  case (handled h s f w ok s' w')
  from run_frame_protocol [OF history_inv [OF handled.hyps(1) handled.prems(1)] handled.hyps(3-5)]
  obtain p where p: "protocol (Open (status s)) (frame_cmd f) p" "p = Open (status s') \<or> p = phase_of s'" by blast
  from handled.IH [OF handled.prems] obtain cs
    where cs: "map (\<lambda>e. fst e ! 0) h = map cmd_code cs" "run_of (Open STATUS_CHALLENGE) cs (phase_of s)" by blast
  have "run_of (Open STATUS_CHALLENGE) cs (Open (status s))" using cs(2) handled.hyps(2) by (simp add: phase_of_def)
  from run_of.command [OF this p(1)] p(2) have "run_of (Open STATUS_CHALLENGE) (cs @ [frame_cmd f]) (phase_of s')"
    by (auto simp: phase_of_def split: if_splits)
  then show ?case using cs(1) by (intro exI [of _ "cs @ [frame_cmd f]"]) simp
next
  case (closes h s)
  then show ?case by (auto simp: phase_of_def close_connection_eq split: if_splits)
next
  case (hangs_up h s)
  then show ?case by (auto simp: phase_of_def onClose_def deactivate_auth_deadline_def split: if_splits)
qed

definition entry_ok :: "('bn, 'db) entry \<Rightarrow> bool" where
  "entry_ok e \<longleftrightarrow>
     (\<exists>f. frame_ok f \<and> fst e = encode f \<and> frame_state f = stream_state (status (fst (snd e)))) \<and>
     \<not> m_closed (fst (snd e))"

lemma history_entries: "history x s0 h s \<Longrightarrow> list_all entry_ok h"
  by (induction rule: history.induct) (auto simp: entry_ok_def)

lemma connect_fresh:
  "status (fst (snd (connect x now timeout pol addr fc w))) = STATUS_CHALLENGE"
  "\<not> m_closed (fst (snd (connect x now timeout pol addr fc w)))"
  "remote_address (fst (snd (connect x now timeout pol addr fc w))) = addr"
  "inv x (mk_Deadline now timeout) (fst (snd (connect x now timeout pol addr fc w)))"
  "fst (connect x now timeout pol addr fc w) = empty_readbuf"
  using inv_connect [of x now timeout pol addr fc w]
  by (auto simp: connect_def mk_AuthSocket_def setFlowControl_def setCloser_def setSender_def setPeerAddress_def
      empty_readbuf_def)

section \<open>Properties\<close>

text \<open>
  C7: every session follows the protocol.  Take any run of a session, however the network
  cuts the input and whatever the rest of the process does, and the log of the frames it
  handled.  Each frame is well-formed and its command belongs to the status it was handled
  in; the commands are a run of the protocol automaton from the challenge state to the
  state of the session, and a word of the language of that state: an authenticated session
  has handled one challenge, the proof of the same kind and after that only requests for
  the realm list.
\<close>
theorem sessions_follow_protocol:
  assumes "logged x (connect x start timeout pol addr fc w0) h (rb, s, w)"
  shows "list_all entry_ok h \<and>
    (\<exists>cs. map (\<lambda>e. fst e ! 0) h = map cmd_code cs \<and> run_of (Open STATUS_CHALLENGE) cs (phase_of s) \<and>
       word_of (phase_of s) cs)"
proof -
  from logged_history [OF assms connect_fresh(5)]
  have h: "history x (fst (snd (connect x start timeout pol addr fc w0))) h s" by simp
  from history_run [OF h connect_fresh(4,1,2)] history_entries [OF h] run_of_word show ?thesis by blast
qed

text \<open>A realm list request of a session that was just made is not handled at all.\<close>

theorem sessions_follow_protocol_witness:
  "case example_connect of (rb, s, w) \<Rightarrow>
     let x = example_ext id (\<lambda>_. None) []; h = input_log x [0x10, 0, 0, 0, 0] rb s w in
     \<exists>rb' s' w'. onData x [0x10, 0, 0, 0, 0] rb s w = Inr (rb', s', w') \<and>
       (\<exists>cs. map (\<lambda>e. fst e ! 0) h = map cmd_code cs \<and> word_of (phase_of s') cs)"
proof -
  obtain rb s w where c: "example_connect = (rb, s, w)" by (cases example_connect) auto
  let ?x = "example_ext id (\<lambda>_. None) []" and ?d = "[0x10, 0, 0, 0, 0] :: bytes"
  obtain rb' s' w' where r: "onData ?x ?d rb s w = Inr (rb', s', w')" using example_input [OF c, of ?d] by blast
  have len: "length ?d < 2 ^ 63" by simp
  have "logged ?x (connect ?x 100 30 default_PatchPolicy ''10.0.0.1'' None example_world) [] (rb, s, w)"
    unfolding c [symmetric] example_connect_def by (rule logged.start)
  from sessions_follow_protocol [OF logged.input [OF this len r]] r show ?thesis
    unfolding c Let_def prod.case append_Nil by blast
qed

end
