(* ===== verification/AuthServer.thy ===== *)
theory AuthServer
  imports SessionSteps
begin

text \<open>
  \<open>src/Auth/AuthServer.{h,cpp}\<close>: the owner of the network engine.  The engine
  (\<open>net::Server\<close>) is outside the repository: whether it can listen is a parameter of
  \<open>Start\<close>, and what it does afterwards (accepting connections through the socket factory,
  delivering input, reporting a close, releasing its reference) are the steps of the
  relation \<open>server_step\<close>.  The list of weak pointers is a list of object numbers; a number
  is never used twice, as the control block of a weak pointer outlives its object.
\<close>

section \<open>State\<close>

text \<open>A session object; \<open>obj_created\<close> is the clock at its construction, which no operation reads.\<close>

record 'bn object =
  obj_created :: int
  obj_buf :: readbuf
  obj_sock :: "'bn sock"

record Impl =
  sockets :: "nat list"
  authTimeout :: int
  impl_patchPolicy :: PatchPolicy

text \<open>The process as the server sees it: the engine, the live objects, the shared state.\<close>

record ('bn, 'db) system =
  m_impl :: Impl
  running :: bool
  live :: "nat \<rightharpoonup> 'bn object"
  next_object :: nat
  shared :: "'db world"

section \<open>Operations\<close>

definition mk_AuthServer :: "'db world \<Rightarrow> ('bn, 'db) system" where
  "mk_AuthServer w =
     \<lparr>m_impl = \<lparr>sockets = [], authTimeout = 30, impl_patchPolicy = default_PatchPolicy\<rparr>,
      running = False, live = Map.empty, next_object = 0, shared = w\<rparr>"

definition Start ::
  "(uint16 \<Rightarrow> string \<Rightarrow> bool) \<Rightarrow> uint16 \<Rightarrow> string \<Rightarrow> int \<Rightarrow> PatchPolicy \<Rightarrow> ('bn, 'db) system \<Rightarrow>
     bool \<times> ('bn, 'db) system" where
  "Start server_start listenPort bindIp timeout policy p =
     (let p = p\<lparr>m_impl := (m_impl p)\<lparr>authTimeout := timeout, impl_patchPolicy := policy\<rparr>\<rparr>;
          ok = server_start listenPort bindIp
      in (ok, p\<lparr>running := ok\<rparr>))"

text \<open>The factory given to the engine; it returns the new object's number.\<close>

definition socket_factory :: "('bn, 'db) ext \<Rightarrow> int \<Rightarrow> ('bn, 'db) system \<Rightarrow> nat \<times> ('bn, 'db) system" where
  "socket_factory x now p =
     (case mk_AuthSocket x now (authTimeout (m_impl p)) (impl_patchPolicy (m_impl p)) (shared p) of
        (rb, s, w) \<Rightarrow>
          let i = next_object p in
          (i, p\<lparr>m_impl := (m_impl p)\<lparr>sockets := sockets (m_impl p) @ [i]\<rparr>,
                live := (live p)(i \<mapsto> \<lparr>obj_created = now, obj_buf = rb, obj_sock = s\<rparr>),
                next_object := i + 1, shared := w\<rparr>))"

text \<open>
  The locked part of \<open>Update\<close>: the sockets that are still alive, and the list without the
  others.
\<close>

fun lock_sockets :: "(nat \<rightharpoonup> 'o) \<Rightarrow> nat list \<Rightarrow> nat list \<times> nat list" where
  "lock_sockets m [] = ([], [])"
| "lock_sockets m (i # js) =
     (case lock_sockets m js of (act, kept) \<Rightarrow>
        (case m i of Some _ \<Rightarrow> (i # act, i # kept) | None \<Rightarrow> (act, kept)))"

definition prune :: "('bn, 'db) system \<Rightarrow> nat list \<times> ('bn, 'db) system" where
  "prune p =
     (case lock_sockets (live p) (sockets (m_impl p)) of (act, kept) \<Rightarrow>
        (act, p\<lparr>m_impl := (m_impl p)\<lparr>sockets := kept\<rparr>\<rparr>))"

definition with_sock :: "('bn sock \<Rightarrow> 'bn sock) \<Rightarrow> nat \<Rightarrow> ('bn, 'db) system \<Rightarrow> ('bn, 'db) system" where
  "with_sock f i p =
     p\<lparr>live := (live p)(i := map_option (obj_sock_update f) (live p i))\<rparr>"

definition Update :: "int \<Rightarrow> ('bn, 'db) system \<Rightarrow> ('bn, 'db) system" where
  "Update now p =
     (case prune p of (act, p) \<Rightarrow>
        foldl (\<lambda>p i. with_sock (\<lambda>s. snd (ExpireAuthentication now s)) i p) p act)"

definition Stop :: "('bn, 'db) system \<Rightarrow> ('bn, 'db) system" where
  "Stop p = p\<lparr>running := False, m_impl := (m_impl p)\<lparr>sockets := []\<rparr>\<rparr>"

section \<open>What the engine does\<close>

text \<open>The engine configures a new session, and later drops its reference, which destroys it.\<close>

definition accept :: "('bn, 'db) ext \<Rightarrow> int \<Rightarrow> string \<Rightarrow> (nat \<Rightarrow> bool) option \<Rightarrow> ('bn, 'db) system \<Rightarrow>
    ('bn, 'db) system" where
  "accept x now addr fc p =
     (case socket_factory x now p of (i, p) \<Rightarrow>
        with_sock (\<lambda>s. setFlowControl fc (setCloser True (setSender True (setPeerAddress addr s)))) i p)"

definition release :: "nat \<Rightarrow> ('bn, 'db) system \<Rightarrow> ('bn, 'db) system" where
  "release i p =
     (case live p i of
        None \<Rightarrow> p
      | Some ob \<Rightarrow> p\<lparr>live := (live p)(i := None), shared := destroy_AuthSocket (obj_sock ob) (shared p)\<rparr>)"

text \<open>A call of a live session: input, the transport's close, the deadline sweep.\<close>

inductive session_call ::
  "('bn, 'db) ext \<Rightarrow> 'bn object \<Rightarrow> 'db world \<Rightarrow> 'bn object \<Rightarrow> 'db world \<Rightarrow> bool" for x where
  input: "length data < 2 ^ 63 \<Longrightarrow> onData x data (obj_buf ob) (obj_sock ob) w = Inr (rb, s, w') \<Longrightarrow>
    session_call x ob w (ob\<lparr>obj_buf := rb, obj_sock := s\<rparr>) w'"
| disconnect: "session_call x ob w (obj_sock_update onClose ob) w"
| expire: "session_call x ob w (obj_sock_update (\<lambda>s. snd (ExpireAuthentication now s)) ob) w"

text \<open>
  One step of the running server.  The two parts of \<open>Update\<close> are steps of their own, so
  that other threads may act between them; \<open>others\<close> is the rest of the process, which does
  not touch the counters.
\<close>

inductive server_step :: "('bn, 'db) ext \<Rightarrow> ('bn, 'db) system \<Rightarrow> ('bn, 'db) system \<Rightarrow> bool" for x where
  accept: "running p \<Longrightarrow> server_step x p (accept x now addr fc p)"
| call: "live p i = Some ob \<Longrightarrow> session_call x ob (shared p) ob' w' \<Longrightarrow>
    server_step x p (p\<lparr>live := (live p)(i \<mapsto> ob'), shared := w'\<rparr>)"
| release: "server_step x p (release i p)"
| prune: "server_step x p (snd (prune p))"
| stop: "server_step x p (Stop p)"
| others: "s_connections w' = s_connections (shared p) \<Longrightarrow> s_authed w' = s_authed (shared p) \<Longrightarrow>
    server_step x p (p\<lparr>shared := w'\<rparr>)"

definition server_reachable :: "('bn, 'db) ext \<Rightarrow> ('bn, 'db) system \<Rightarrow> ('bn, 'db) system \<Rightarrow> bool" where
  "server_reachable x = (server_step x)\<^sup>*\<^sup>*"

section \<open>The contract of a session, as the server relies on it\<close>

text \<open>
  \<open>ok t\<close> is what holds of a session constructed at time \<open>t\<close>; a call keeps it, leaves
  \<open>authed\<close> only upwards, and moves the counter exactly then.
\<close>

locale session_contract =
  fixes ok :: "'o \<Rightarrow> bool" and authed :: "'o \<Rightarrow> bool" and counter :: "'w \<Rightarrow> uint32"
    and call :: "'o \<Rightarrow> 'w \<Rightarrow> 'o \<Rightarrow> 'w \<Rightarrow> bool"
  assumes call_ok: "ok ob \<Longrightarrow> call ob w ob' w' \<Longrightarrow> ok ob'"
    and call_authed: "ok ob \<Longrightarrow> call ob w ob' w' \<Longrightarrow> authed ob \<Longrightarrow> authed ob'"
    and call_counter: "ok ob \<Longrightarrow> call ob w ob' w' \<Longrightarrow>
      counter w' = counter w + (if authed ob' \<and> \<not> authed ob then 1 else 0)"
begin

lemma call_keeps_ok:
  assumes "\<forall>ob \<in> ran m. ok ob" and "m i = Some ob" and "call ob w ob' w'"
  shows "\<forall>ob \<in> ran (m(i \<mapsto> ob')). ok ob"
  using assms call_ok [OF _ assms(3)] by (auto simp: ran_def)

lemma call_keeps_count:
  assumes "\<forall>ob \<in> ran m. ok ob" and "m i = Some ob" and "call ob w ob' w'" and "finite (dom m)"
    and "counter w = word_of_nat (card {j. \<exists>ob. m j = Some ob \<and> authed ob})"
  shows "counter w' = word_of_nat (card {j. \<exists>ob. (m(i \<mapsto> ob')) j = Some ob \<and> authed ob})"
proof -
  let ?A = "{j. \<exists>ob. m j = Some ob \<and> authed ob}"
  let ?A' = "{j. \<exists>ob. (m(i \<mapsto> ob')) j = Some ob \<and> authed ob}"
  have ok: "ok ob" using assms(1,2) by (auto simp: ran_def)
  have fin: "finite ?A" by (rule finite_subset [OF _ assms(4)]) auto
  show ?thesis
  proof (cases "authed ob' \<and> \<not> authed ob")
    case True
    then have "?A' = insert i ?A" "i \<notin> ?A" using assms(2) by auto
    with fin True call_counter [OF ok assms(3)] assms(5) show ?thesis by simp
  next
    case False
    then have "?A' = ?A" using assms(2) call_authed [OF ok assms(3)] by auto
    with False call_counter [OF ok assms(3)] assms(5) show ?thesis by auto
  qed
qed

end

definition obj_ok :: "('bn, 'db) ext \<Rightarrow> int \<Rightarrow> 'bn object \<Rightarrow> bool" where
  "obj_ok x timeout ob \<longleftrightarrow>
     inv x (mk_Deadline (obj_created ob) timeout) (obj_sock ob) \<and>
     length (m_readBuf (obj_buf ob)) \<le> 65539 \<and> m_readPos (obj_buf ob) = 0"

definition obj_authed :: "'bn object \<Rightarrow> bool" where
  "obj_authed ob \<longleftrightarrow> status (obj_sock ob) = STATUS_AUTHED"

lemma status_calls [simp]:
  "status (snd (ExpireAuthentication now s)) = status s" "status (onClose s) = status s"
  by (simp_all add: ExpireAuthentication_def close_connection_eq onClose_def deactivate_auth_deadline_def)

lemma session_call_facts:
  assumes "session_call x ob w ob' w'" and "obj_ok x timeout ob"
  shows "obj_ok x timeout ob' \<and> obj_created ob' = obj_created ob \<and> s_connections w' = s_connections w \<and>
    (obj_authed ob \<longrightarrow> obj_authed ob') \<and>
    s_authed w' = s_authed w + (if obj_authed ob' \<and> \<not> obj_authed ob then 1 else 0)"
  using assms(1)
proof cases
  case (input data rb s)
  have b: "length (m_readBuf rb) \<le> 65539 \<and> m_readPos rb = 0"
    using onData_bounded [OF input(2) _ _ input(3)] assms(2) by (simp add: obj_ok_def)
  have "session_ok x (mk_Deadline (obj_created ob) timeout) (obj_sock ob) w s w'"
    using session.onData_keeps [OF session_ok_refl input(3)] assms(2) by (simp add: obj_ok_def)
  then show ?thesis using b input(1)
    by (auto simp: session_ok_def world_grows_def obj_ok_def obj_authed_def)
next
  case disconnect
  then show ?thesis using assms(2) inv_onClose
    by (auto simp: obj_ok_def obj_authed_def)
next
  case (expire now)
  then show ?thesis using assms(2) inv_ExpireAuthentication
    by (auto simp: obj_ok_def obj_authed_def)
qed

interpretation server_session: session_contract "obj_ok x timeout" obj_authed s_authed "session_call x"
  for x timeout
  by unfold_locales (use session_call_facts in blast)+

section \<open>The invariant of the server\<close>

definition authed_ids :: "('bn, 'db) system \<Rightarrow> nat set" where
  "authed_ids p = {i. \<exists>ob. live p i = Some ob \<and> obj_authed ob}"

definition counters_ok :: "('bn, 'db) system \<Rightarrow> bool" where
  "counters_ok p \<longleftrightarrow>
     s_connections (shared p) = word_of_nat (card (dom (live p))) \<and>
     s_authed (shared p) = word_of_nat (card (authed_ids p))"

definition listed :: "('bn, 'db) system \<Rightarrow> bool" where
  "listed p \<longleftrightarrow>
     distinct (sockets (m_impl p)) \<and> (running p \<longrightarrow> dom (live p) \<subseteq> set (sockets (m_impl p))) \<and>
     (\<forall>i. live p i \<noteq> None \<or> i \<in> set (sockets (m_impl p)) \<longrightarrow> i < next_object p)"

definition server_ok :: "('bn, 'db) ext \<Rightarrow> int \<Rightarrow> ('bn, 'db) system \<Rightarrow> bool" where
  "server_ok x timeout p \<longleftrightarrow>
     authTimeout (m_impl p) = timeout \<and> finite (dom (live p)) \<and>
     (\<forall>ob \<in> ran (live p). obj_ok x timeout ob) \<and> listed p \<and> counters_ok p"

lemma accept_eq:
  "accept x now addr fc p =
     (case connect x now (authTimeout (m_impl p)) (impl_patchPolicy (m_impl p)) addr fc (shared p) of
        (rb, s, w) \<Rightarrow>
          p\<lparr>m_impl := (m_impl p)\<lparr>sockets := sockets (m_impl p) @ [next_object p]\<rparr>,
            live := (live p)(next_object p \<mapsto> \<lparr>obj_created = now, obj_buf = rb, obj_sock = s\<rparr>),
            next_object := next_object p + 1, shared := w\<rparr>)"
  by (simp add: accept_def socket_factory_def with_sock_def connect_def split_beta Let_def)

lemma accept_object:
  "\<exists>ob. live (accept x now addr fc p) (next_object p) = Some ob \<and> obj_created ob = now"
  by (auto simp: accept_eq split: prod.splits)

lemma authed_ids_subset: "authed_ids p \<subseteq> dom (live p)"
  by (auto simp: authed_ids_def)

lemma counters_insert:
  assumes "counters_ok p" and "finite (dom (live p))" and "live p i = None" and "\<not> obj_authed ob"
    and "s_connections w' = s_connections (shared p) + 1" and "s_authed w' = s_authed (shared p)"
    and "live p' = (live p)(i \<mapsto> ob)" and "shared p' = w'"
  shows "counters_ok p'"
proof -
  have "dom (live p') = insert i (dom (live p))" "authed_ids p' = authed_ids p" "i \<notin> dom (live p)"
    using assms(3,4,7) by (auto simp: authed_ids_def)
  with assms show ?thesis by (simp add: counters_ok_def del: fun_upd_apply)
qed

lemma server_ok_accept:
  assumes "server_ok x timeout p"
  shows "server_ok x timeout (accept x now addr fc p)"
proof -
  obtain rb s w where c: "connect x now (authTimeout (m_impl p)) (impl_patchPolicy (m_impl p)) addr fc (shared p) =
      (rb, s, w)" by (cases "connect x now (authTimeout (m_impl p)) (impl_patchPolicy (m_impl p)) addr fc (shared p)")
  have new: "rb = empty_readbuf" "status s = STATUS_CHALLENGE" "s_connections w = s_connections (shared p) + 1"
      "s_authed w = s_authed (shared p)"
    using c by (auto simp: connect_def mk_AuthSocket_def empty_readbuf_def setFlowControl_def setCloser_def
        setSender_def setPeerAddress_def)
  let ?ob = "\<lparr>obj_created = now, obj_buf = rb, obj_sock = s\<rparr>"
  have acc: "live (accept x now addr fc p) = (live p)(next_object p \<mapsto> ?ob)" "shared (accept x now addr fc p) = w"
      "next_object (accept x now addr fc p) = next_object p + 1" "running (accept x now addr fc p) = running p"
      "m_impl (accept x now addr fc p) = (m_impl p)\<lparr>sockets := sockets (m_impl p) @ [next_object p]\<rparr>"
    by (simp_all add: accept_eq c)
  have fresh: "live p (next_object p) = None" "next_object p \<notin> set (sockets (m_impl p))"
    using assms by (fastforce simp: server_ok_def listed_def)+
  have "obj_ok x timeout ?ob"
    using inv_connect [OF c] assms by (simp add: obj_ok_def new empty_readbuf_def server_ok_def)
  moreover have "counters_ok (accept x now addr fc p)"
    by (rule counters_insert [where p = p and ob = ?ob and w' = w and i = "next_object p"])
      (use assms new fresh in \<open>simp_all add: server_ok_def acc obj_authed_def\<close>)
  ultimately show ?thesis using assms fresh
    by (auto simp: server_ok_def listed_def acc ran_def less_Suc_eq)
qed

lemma server_ok_call:
  assumes "server_ok x timeout p" and "live p i = Some ob" and "session_call x ob (shared p) ob' w'"
  shows "server_ok x timeout (p\<lparr>live := (live p)(i \<mapsto> ob'), shared := w'\<rparr>)"
proof -
  have ok: "\<forall>ob \<in> ran (live p). obj_ok x timeout ob" using assms(1) by (simp add: server_ok_def)
  then have "obj_ok x timeout ob" using assms(2) by (auto simp: ran_def)
  note facts = session_call_facts [OF assms(3) this]
  have "\<forall>ob \<in> ran ((live p)(i \<mapsto> ob')). obj_ok x timeout ob"
    by (rule server_session.call_keeps_ok [OF ok assms(2,3)])
  moreover have "s_authed w' = word_of_nat (card {j. \<exists>ob. ((live p)(i \<mapsto> ob')) j = Some ob \<and> obj_authed ob})"
    by (rule server_session.call_keeps_count [OF ok assms(2,3)])
      (use assms(1) in \<open>simp_all add: server_ok_def counters_ok_def authed_ids_def\<close>)
  moreover have "dom ((live p)(i \<mapsto> ob')) = dom (live p)" using assms(2) by auto
  moreover have "listed (p\<lparr>live := (live p)(i \<mapsto> ob'), shared := w'\<rparr>)"
    using assms(1,2) by (auto simp: server_ok_def listed_def)
  ultimately show ?thesis using assms(1) facts
    by (simp add: server_ok_def counters_ok_def authed_ids_def del: fun_upd_apply dom_fun_upd)
qed

lemma server_ok_release:
  assumes "server_ok x timeout p"
  shows "server_ok x timeout (release i p)"
proof (cases "live p i")
  case None
  with assms show ?thesis by (simp add: release_def)
next
  case (Some ob)
  let ?p = "release i p"
  have fin: "finite (dom (live p))" "finite (authed_ids p)"
    using assms finite_subset [OF authed_ids_subset] by (auto simp: server_ok_def)
  have sets: "dom (live ?p) = dom (live p) - {i}" "authed_ids ?p = authed_ids p - {i}"
      "i \<in> dom (live p)" "i \<in> authed_ids p \<longleftrightarrow> obj_authed ob"
    using Some by (auto simp: release_def authed_ids_def)
  from sets(3) fin(1) have "0 < card (dom (live p))" by (auto simp: card_gt_0_iff)
  moreover have "0 < card (authed_ids p)" if "obj_authed ob"
    using that sets(4) fin(2) by (auto simp: card_gt_0_iff)
  ultimately have "counters_ok ?p"
    using assms Some unfolding counters_ok_def sets(1,2)
    by (auto simp: server_ok_def counters_ok_def release_def destroy_AuthSocket_def Let_def sets(3,4)
        obj_authed_def [symmetric] fin of_nat_diff)
  with assms Some show ?thesis by (auto simp: server_ok_def listed_def release_def ran_def)
qed

lemma lock_sockets_eq:
  "lock_sockets m js = (filter (\<lambda>i. m i \<noteq> None) js, filter (\<lambda>i. m i \<noteq> None) js)"
  by (induction js) (auto split: option.splits)

lemma prune_eq:
  "prune p = (filter (\<lambda>i. live p i \<noteq> None) (sockets (m_impl p)),
     p\<lparr>m_impl := (m_impl p)\<lparr>sockets := filter (\<lambda>i. live p i \<noteq> None) (sockets (m_impl p))\<rparr>\<rparr>)"
  by (simp add: prune_def lock_sockets_eq)

lemma server_ok_step:
  assumes "server_step x p p'" and "server_ok x timeout p"
  shows "server_ok x timeout p'"
  using assms(1)
proof cases
  case (accept now addr fc)
  with assms(2) show ?thesis by (simp add: server_ok_accept)
next
  case (call i ob ob' w')
  with assms(2) show ?thesis by (simp add: server_ok_call)
next
  case (release i)
  with assms(2) show ?thesis by (simp add: server_ok_release)
next
  case prune
  with assms(2) show ?thesis
    by (auto simp: server_ok_def listed_def counters_ok_def authed_ids_def prune_eq)
next
  case stop
  with assms(2) show ?thesis
    by (auto simp: server_ok_def listed_def counters_ok_def authed_ids_def Stop_def)
next
  case (others w')
  with assms(2) show ?thesis
    by (auto simp: server_ok_def listed_def counters_ok_def authed_ids_def)
qed

lemma server_ok_reachable:
  assumes "server_reachable x p p'" and "server_ok x timeout p"
  shows "server_ok x timeout p'"
  using assms unfolding server_reachable_def
  by (induction rule: rtranclp_induct) (auto intro: server_ok_step)

lemma server_ok_Start:
  assumes "s_connections w = 0" and "s_authed w = 0"
  shows "server_ok x timeout (snd (Start server_start listenPort bindIp timeout policy (mk_AuthServer w)))"
  using assms
  by (simp add: Start_def mk_AuthServer_def Let_def server_ok_def listed_def counters_ok_def authed_ids_def)

section \<open>The sweep\<close>

lemma with_sock_simps [simp]:
  "m_impl (with_sock f i p) = m_impl p" "running (with_sock f i p) = running p"
  "shared (with_sock f i p) = shared p" "next_object (with_sock f i p) = next_object p"
  "live (with_sock f i p) j =
     (if j = i then map_option (obj_sock_update f) (live p i) else live p j)"
  by (simp_all add: with_sock_def)

lemma with_socks_simps [simp]:
  "m_impl (foldl (\<lambda>p i. with_sock f i p) p js) = m_impl p"
  "running (foldl (\<lambda>p i. with_sock f i p) p js) = running p"
  "shared (foldl (\<lambda>p i. with_sock f i p) p js) = shared p"
  "next_object (foldl (\<lambda>p i. with_sock f i p) p js) = next_object p"
  by (induction js arbitrary: p) simp_all

lemma with_socks_live:
  "distinct js \<Longrightarrow> live (foldl (\<lambda>p i. with_sock f i p) p js) j =
     (if j \<in> set js then map_option (obj_sock_update f) (live p j) else live p j)"
  by (induction js arbitrary: p) auto

lemma Update_simps [simp]:
  "running (Update now p) = running p" "shared (Update now p) = shared p"
  "next_object (Update now p) = next_object p"
  "m_impl (Update now p) =
     (m_impl p)\<lparr>sockets := filter (\<lambda>i. live p i \<noteq> None) (sockets (m_impl p))\<rparr>"
  by (simp_all add: Update_def prune_eq)

lemma Update_live:
  assumes "listed p" and "running p"
  shows "live (Update now p) i =
    map_option (obj_sock_update (\<lambda>s. snd (ExpireAuthentication now s))) (live p i)"
proof -
  have "live p i \<noteq> None \<Longrightarrow> i \<in> set (sockets (m_impl p))" using assms by (auto simp: listed_def)
  then show ?thesis using assms
    by (cases "live p i") (auto simp: Update_def prune_eq with_socks_live listed_def)
qed

text \<open>A session the deadline no longer concerns.\<close>

definition settled :: "'bn sock \<Rightarrow> bool" where
  "settled s \<longleftrightarrow>
     m_closed s \<or> status s = STATUS_AUTHED \<or> status s = STATUS_PATCH \<or> transfers s \<noteq> []"

lemma Update_object:
  assumes "server_ok x timeout p" and "running p" and "live p i = Some ob"
  shows "live (Update now p) i = Some (if \<not> settled (obj_sock ob) \<and> 0 < timeout \<and>
      obj_created ob + timeout * ns_per_second \<le> now then obj_sock_update close_connection ob else ob)"
proof -
  have "obj_ok x timeout ob" "listed p" using assms(1,3) by (auto simp: server_ok_def ran_def)
  then show ?thesis
    using inv_ExpireAuthentication_iff [of x "obj_created ob" timeout "obj_sock ob" now]
    by (cases ob) (auto simp: Update_live [OF _ assms(2)] assms(3) obj_ok_def settled_def)
qed

lemma sweep_steps: "server_reachable x p (foldl (\<lambda>p i. with_sock (\<lambda>s. snd (ExpireAuthentication now s)) i p) p js)"
proof (induction js arbitrary: p)
  case Nil
  then show ?case by (simp add: server_reachable_def)
next
  case (Cons i js)
  let ?f = "\<lambda>s. snd (ExpireAuthentication now s)"
  have "(server_step x)\<^sup>*\<^sup>* p (with_sock ?f i p)"
  proof (cases "live p i")
    case None
    then have "with_sock ?f i p = p" by (cases p) (auto simp: with_sock_def)
    then show ?thesis by simp
  next
    case (Some ob)
    from server_step.call [of p i ob x, OF Some session_call.expire]
    have "server_step x p (with_sock ?f i p)" using Some by (simp add: with_sock_def)
    then show ?thesis ..
  qed
  with Cons.IH [of "with_sock ?f i p"] show ?case by (simp add: server_reachable_def)
qed

lemma server_reachable_trans:
  "server_reachable x p q \<Longrightarrow> server_reachable x q r \<Longrightarrow> server_reachable x p r"
  unfolding server_reachable_def by (rule rtranclp_trans)

lemma Update_reachable: "server_reachable x p (Update now p)"
proof -
  have "server_reachable x p (snd (prune p))"
    by (simp add: server_reachable_def r_into_rtranclp server_step.prune)
  with server_reachable_trans [OF _ sweep_steps] show ?thesis by (simp add: Update_def split_beta)
qed

section \<open>Settled sessions stay settled\<close>

lemma settled_close [simp]: "settled (close_connection s)"
  by (simp add: settled_def close_connection_eq)

lemma xfer_settled: "xfer_body off s w = Inr (ok, s', w') \<Longrightarrow> settled s'"
  by (auto simp: xfer_body_def BeginPatchStream_def settled_def close_connection_eq Let_def
      split: option.splits)

lemma settled_frame:
  assumes so: "session_ok x dl s0 w0 s w" and "settled s" and op: "\<not> m_closed s" and f: "frame_ok f"
    and st: "frame_state f = stream_state (status s)"
    and run: "run_frame x (encode f) s w = Inr (ok, s', w')"
  shows "settled s'"
proof (cases "status s = STATUS_AUTHED")
  case True
  have "session_ok x dl s w s' w'"
    by (rule run_frame_ok [OF session_ok_refl op f st run]) (use so in \<open>simp add: session_ok_def\<close>)
  with True show ?thesis by (simp add: session_ok_def settled_def)
next
  case False
  have "status s \<noteq> STATUS_CLOSED" using st by (cases f) auto
  moreover have "transfers s \<noteq> [] \<longrightarrow> status s = STATUS_CLOSED" "status s = STATUS_PATCH \<longrightarrow> m_patchArtifact s \<noteq> None"
    using so by (auto simp: session_ok_def inv_def inv_patch_def)
  ultimately have p: "status s = STATUS_PATCH" "m_patchArtifact s \<noteq> None"
    using assms(2) op False by (auto simp: settled_def)
  from st run show ?thesis
  proof (cases rule: run_frame_cases)
    case (xfer off)
    with p(2) show ?thesis by (auto dest: xfer_settled)
  next
    case cancel
    then show ?thesis by (auto simp: cancel_body_def settled_def close_connection_eq)
  qed (use p in auto)
qed

interpretation settled_session: frame_property x "\<lambda>s w. session_ok x dl s0 w0 s w \<and> settled s"
  for x dl s0 w0
proof unfold_locales
  show "session_ok x dl s0 w0 s' w' \<and> settled s'"
    if "session_ok x dl s0 w0 s w \<and> settled s" and "\<not> m_closed s" and "frame_ok f"
      and "frame_state f = stream_state (status s)" and "run_frame x (encode f) s w = Inr (ok, s', w')"
    for s w f ok s' w'
    using that run_frame_ok settled_frame by blast
  show "session_ok x dl s0 w0 (close_connection s) w \<and> settled (close_connection s)"
    if "session_ok x dl s0 w0 s w \<and> settled s" for s w
    using that by (auto intro: session_ok_close)
qed

lemma settled_call:
  assumes "session_call x ob w ob' w'" and "obj_ok x timeout ob" and "settled (obj_sock ob)"
  shows "settled (obj_sock ob')"
  using assms(1)
proof cases
  case (input data rb s)
  have "session_ok x (mk_Deadline (obj_created ob) timeout) (obj_sock ob) w (obj_sock ob) w"
    using assms(2) by (intro session_ok_refl) (simp add: obj_ok_def)
  with settled_session.onData_keeps [of x _ _ _ "obj_sock ob" w, OF _ input(3)] assms(3) input(1)
  show ?thesis by simp
qed (use assms(3) in \<open>auto simp: settled_def onClose_def deactivate_auth_deadline_def
      ExpireAuthentication_def close_connection_eq\<close>)

text \<open>All sessions with a number below \<open>n\<close> that were due at \<open>now\<close> are settled.\<close>

definition swept :: "int \<Rightarrow> int \<Rightarrow> nat \<Rightarrow> ('bn, 'db) system \<Rightarrow> bool" where
  "swept timeout now n p \<longleftrightarrow> n \<le> next_object p \<and>
     (\<forall>i ob. i < n \<and> live p i = Some ob \<and> obj_created ob + timeout * ns_per_second \<le> now \<longrightarrow>
        settled (obj_sock ob))"

lemma swept_step:
  assumes "server_step x p p'" and "server_ok x timeout p" and "swept timeout now n p"
  shows "swept timeout now n p'"
  using assms(1)
proof cases
  case (accept t addr fc)
  with assms(3) show ?thesis by (auto simp: swept_def accept_eq split: prod.splits)
next
  case (call i ob ob' w')
  have ok: "obj_ok x timeout ob" using assms(2) call(2) by (auto simp: server_ok_def ran_def)
  from settled_call [OF call(3) ok] session_call_facts [OF call(3) ok] assms(3) call(1,2)
  show ?thesis by (auto simp: swept_def)
next
  case (release i)
  with assms(3) show ?thesis by (auto simp: swept_def release_def split: option.splits if_splits)
qed (use assms(3) in \<open>auto simp: swept_def prune_eq Stop_def\<close>)

lemma swept_reachable:
  assumes "server_reachable x p q" and "server_ok x timeout p" and "swept timeout now n p"
  shows "swept timeout now n q"
proof -
  from assms have "server_ok x timeout q \<and> swept timeout now n q"
    unfolding server_reachable_def
    by (induction rule: rtranclp_induct) (auto intro: server_ok_step swept_step)
  then show ?thesis ..
qed

lemma Update_swept:
  assumes "server_ok x timeout p" and "running p" and "0 < timeout"
  shows "swept timeout now (next_object p) (Update now p)"
proof -
  have "settled (obj_sock ob')" if "live (Update now p) i = Some ob'"
      "obj_created ob' + timeout * ns_per_second \<le> now" for i ob'
  proof -
    have "live p i \<noteq> None"
      using that(1) Update_live [of p now i] assms(1,2) by (cases "live p i") (auto simp: server_ok_def)
    then obtain ob where "live p i = Some ob" by blast
    with Update_object [OF assms(1,2) this, of now] that assms(3) show ?thesis
      by (auto simp: settled_def close_connection_eq split: if_splits)
  qed
  then show ?thesis by (auto simp: swept_def)
qed

section \<open>Properties\<close>

definition started ::
  "(uint16 \<Rightarrow> string \<Rightarrow> bool) \<Rightarrow> uint16 \<Rightarrow> string \<Rightarrow> int \<Rightarrow> PatchPolicy \<Rightarrow> 'db world \<Rightarrow> ('bn, 'db) system" where
  "started server_start listenPort bindIp timeout policy w =
     snd (Start server_start listenPort bindIp timeout policy (mk_AuthServer w))"

lemma server_ok_started:
  assumes "server_reachable x (started server_start listenPort bindIp timeout policy w) p"
    and "s_connections w = 0" and "s_authed w = 0"
  shows "server_ok x timeout p"
  by (rule server_ok_reachable [OF assms(1)]) (simp add: started_def server_ok_Start assms)

text \<open>
  No connection stays unauthenticated for ever.  After a sweep at or after a session's
  deadline, and whatever happens from then on, the session is closed, authenticated, being
  offered a patch or receiving one, for as long as it lives.
\<close>
lemma overdue_settled:
  assumes "server_reachable x (started server_start listenPort bindIp timeout policy w) p"
    and "s_connections w = 0" and "s_authed w = 0" and "running p" and "0 < timeout"
    and "live p i \<noteq> None" and "server_reachable x (Update now p) q" and "live q i = Some ob"
    and "obj_created ob + timeout * ns_per_second \<le> now"
  shows "m_closed (obj_sock ob) \<or> status (obj_sock ob) = STATUS_AUTHED \<or>
    status (obj_sock ob) = STATUS_PATCH \<or> transfers (obj_sock ob) \<noteq> []"
proof -
  note ok = server_ok_started [OF assms(1-3)]
  have "server_ok x timeout (Update now p)" using server_ok_reachable [OF Update_reachable ok] .
  then have "swept timeout now (next_object p) q"
    using swept_reachable [OF assms(7)] Update_swept [OF ok assms(4,5)] by blast
  moreover have "i < next_object p" using ok assms(6) by (simp add: server_ok_def listed_def)
  ultimately show ?thesis using assms(8,9) by (auto simp: swept_def settled_def)
qed

text \<open>
  C22: the two counters of the title bar are exact.  However connections are accepted, fed,
  closed, swept and released, the number of connections is the number of live session
  objects and the number of authenticated ones the number of live objects in
  \<open>STATUS_AUTHED\<close>, both at their width of 32 bits.
\<close>
theorem server_counters:
  assumes "server_reachable x (started server_start listenPort bindIp timeout policy w) p"
    and "s_connections w = 0" and "s_authed w = 0"
  shows "finite (dom (live p)) \<and>
    GetConnectionCount (shared p) = word_of_nat (card (dom (live p))) \<and>
    GetAuthWaitingCount (shared p) =
      word_of_nat (card {i. \<exists>ob. live p i = Some ob \<and> status (obj_sock ob) = STATUS_AUTHED})"
  using server_ok_started [OF assms]
  by (simp add: server_ok_def counters_ok_def authed_ids_def obj_authed_def GetConnectionCount_def
      GetAuthWaitingCount_def)

text \<open>
  C26: what one sweep does.  The list of weak pointers becomes exactly the live sessions;
  no session appears or disappears; a session is closed exactly when it is open, not
  authenticated, neither offered nor receiving a patch, and older than the timeout; every
  other session is left as it is.
\<close>
theorem sweep_effect:
  assumes "server_reachable x (started server_start listenPort bindIp timeout policy w) p"
    and "s_connections w = 0" and "s_authed w = 0" and "running p"
  shows "set (sockets (m_impl (Update now p))) = dom (live p) \<and>
    live (Update now p) i = map_option (\<lambda>ob.
      if \<not> m_closed (obj_sock ob) \<and> status (obj_sock ob) \<noteq> STATUS_AUTHED \<and>
         status (obj_sock ob) \<noteq> STATUS_PATCH \<and> transfers (obj_sock ob) = [] \<and>
         0 < timeout \<and> obj_created ob + timeout * ns_per_second \<le> now
      then obj_sock_update close_connection ob else ob) (live p i)"
proof -
  note ok = server_ok_started [OF assms(1-3)]
  then have l: "listed p" by (simp add: server_ok_def)
  have "set (sockets (m_impl (Update now p))) = dom (live p)"
    using l assms(4) by (auto simp: listed_def)
  moreover have "live (Update now p) i = None" if "live p i = None"
    using that Update_live [OF l assms(4)] by simp
  ultimately show ?thesis
    using Update_object [OF ok assms(4), of i _ now] by (cases "live p i") (simp_all add: settled_def)
qed

section \<open>A concrete server\<close>

definition idle_world :: "unit world" where
  "idle_world = example_world\<lparr>s_connections := 0\<rparr>"

definition example_started :: "(nat, unit) system" where
  "example_started = started (\<lambda>_ _. True) 3724 ''0.0.0.0'' 30 default_PatchPolicy idle_world"

definition example_server :: "(nat, unit) system" where
  "example_server = accept (example_ext id (\<lambda>_. None) []) 100 ''10.0.0.1'' None example_started"

lemma example_started_simps [simp]:
  "running example_started" "next_object example_started = 0" "live example_started = Map.empty"
  by (simp_all add: example_started_def started_def Start_def mk_AuthServer_def Let_def)

lemma example_server_reachable:
  "server_reachable (example_ext id (\<lambda>_. None) []) (started (\<lambda>_ _. True) 3724 ''0.0.0.0'' 30
     default_PatchPolicy idle_world) example_server"
  unfolding server_reachable_def example_server_def
  by (rule r_into_rtranclp) (simp add: server_step.accept example_started_def [symmetric])

lemma example_server_simps:
  "running example_server" "dom (live example_server) = {0}"
  "\<exists>ob. live example_server 0 = Some ob \<and> obj_created ob = 100"
  by (auto simp: example_server_def accept_eq split: prod.splits)

lemma example_counters [simp]: "s_connections idle_world = 0" "s_authed idle_world = 0"
  by (simp_all add: idle_world_def example_world_def)

theorem server_counters_witness: "GetConnectionCount (shared example_server) = 1"
  using server_counters [OF example_server_reachable] by (simp add: example_server_simps)

theorem sweep_effect_witness: "set (sockets (m_impl (Update 200 example_server))) = {0}"
  using sweep_effect [OF example_server_reachable, of 200] by (simp add: example_server_simps)

end
