(* ===== verification/Authentication.thy ===== *)
theory Authentication
  imports SessionProtocol AuthServer
begin

text \<open>
  Who is authenticated, and why.  The log of a session justifies its status: an
  authenticated session was granted a challenge for an account that exists and may log in
  from its address, and then showed a proof that belongs to that challenge.  The runs of the
  server carry the logs of their sessions, so that this holds of every connection.
\<close>

section \<open>What a granted challenge establishes\<close>

text \<open>
  The numbers of the logon handshake: salt and verifier as stored, or made for the stored
  password digest when the stored ones do not have the right width; \<open>b\<close> is random and \<open>B\<close>
  belongs to both.
\<close>

definition numbers_of :: "('bn, 'db) ext \<Rightarrow> row \<Rightarrow> 'bn sock \<Rightarrow> bool" where
  "numbers_of x acct s \<longleftrightarrow>
     (if length (GetString (acct ! 5)) = 64 \<and> length (GetString (acct ! 6)) = 64
      then srp_s s = bn_SetHexStr x (c_string (GetString (acct ! 6))) \<and>
           srp_v s = bn_SetHexStr x (c_string (GetString (acct ! 5)))
      else (\<exists>i. srp_s s = bn_SetRand x i 256) \<and>
           srp_v s = bn_ModExp x (srp_g s) (private_key x (srp_s s) (GetString (acct ! 0))) (srp_N s)) \<and>
     (\<exists>j. srp_b s = bn_SetRand x j 152) \<and>
     srp_B s = bn_mod x (bn_add x (bn_mul x (srp_v s) (bn_SetDword x 3))
       (bn_ModExp x (srp_g s) (srp_b s) (srp_N s))) (srp_N s)"

text \<open>
  The session \<open>s\<close> waits for the proof that answers the logon challenge of the entry: when
  the challenge was handled, the address and the account were free of bans, the account
  existed and was not locked to another address.
\<close>

definition granted :: "('bn, 'db) ext \<Rightarrow> ('bn, 'db) entry \<Rightarrow> 'bn sock \<Rightarrow> bool" where
  "granted x c s \<longleftrightarrow>
     (\<exists>e mid acc acct. frame_ok (ChallengeFrame False e mid acc) \<and> fst c = encode (ChallengeFrame False e mid acc) \<and>
        (let d = login_db (snd (snd c)); b = ch_build (fst c @ [0]) in
         challenge_verdict x d (remote_address s) (to_string acc) b = WOW_SUCCESS \<and>
         db_PQuery x d (sql_account, name_args x (to_string acc)) = Some acct \<and>
         login s = to_string acc \<and> client_build s = b \<and> numbers_of x acct s))"

lemma grantedI:
  fixes e :: byte and mid acc :: bytes
  defines "fr \<equiv> encode (ChallengeFrame False e mid acc)"
  assumes "frame_ok (ChallengeFrame False e mid acc)"
    and "challenge_verdict x (login_db w) (remote_address s) (to_string acc) (ch_build (fr @ [0])) = WOW_SUCCESS"
    and "db_PQuery x (login_db w) (sql_account, name_args x (to_string acc)) = Some acct"
    and "login s = to_string acc" and "client_build s = ch_build (fr @ [0])" and "numbers_of x acct s"
  shows "granted x (fr, sc, w) s"
  using assms unfolding granted_def fst_conv snd_conv Let_def by blast

text \<open>The session \<open>s\<close> waits for the proof that answers the reconnect challenge of the entry.\<close>

definition regranted :: "('bn, 'db) ext \<Rightarrow> ('bn, 'db) entry \<Rightarrow> 'bn sock \<Rightarrow> bool" where
  "regranted x c s \<longleftrightarrow>
     (\<exists>e mid acc flds. frame_ok (ChallengeFrame True e mid acc) \<and> fst c = encode (ChallengeFrame True e mid acc) \<and>
        db_PQuery x (login_db (snd (snd c))) (sql_session_key, name_args x (to_string acc)) = Some flds \<and>
        login s = to_string acc \<and> client_build s = ch_build (fst c @ [0]) \<and>
        srp_K s = bn_SetHexStr x (c_string (GetString (flds ! 0))) \<and>
        (\<exists>i. reconnectProof s = bn_SetRand x i 128))"

lemma regrantedI:
  fixes e :: byte and mid acc :: bytes
  defines "fr \<equiv> encode (ChallengeFrame True e mid acc)"
  assumes "frame_ok (ChallengeFrame True e mid acc)"
    and "db_PQuery x (login_db w) (sql_session_key, name_args x (to_string acc)) = Some flds"
    and "login s = to_string acc" and "client_build s = ch_build (fr @ [0])"
    and "srp_K s = bn_SetHexStr x (c_string (GetString (flds ! 0)))" and "reconnectProof s = bn_SetRand x i 128"
  shows "regranted x (fr, sc, w) s"
  using assms unfolding regranted_def fst_conv snd_conv by blast

section \<open>What an accepted proof establishes\<close>

text \<open>
  The two ways into \<open>STATUS_AUTHED\<close>: the entry \<open>p\<close> holds the proof and the session that
  waited for it, which was granted the challenge \<open>c\<close>.
\<close>

definition key_args :: "('bn, 'db) ext \<Rightarrow> 'bn \<Rightarrow> 'bn sock \<Rightarrow> sql_arg list" where
  "key_args x K s =
     [SqlS (bn_AsHexStr x K), SqlS (c_string (remote_address s)), SqlU (GetLocaleByName x (localizationName s)),
      SqlS (c_string (db_escape_string x (localizationName s))),
      SqlS (c_string (db_escape_string x (client_os s))), SqlS (c_string (safelogin s))]"

definition logged_in :: "('bn, 'db) ext \<Rightarrow> ('bn, 'db) entry \<Rightarrow> ('bn, 'db) entry \<Rightarrow> 'bn sock \<Rightarrow> bool" where
  "logged_in x c p s \<longleftrightarrow>
     (\<exists>d e. fst p = encode (LogonProofFrame d e) \<and>
        (let lp = fst p; sp = fst (snd p); wp = snd (snd p);
             K = session_key x (server_secret x sp (bn_SetBinary x (subbytes 1 32 lp))) in
         granted x c sp \<and> proof_matches x lp sp \<and> FindBuildInfo (client_build sp) \<noteq> None \<and>
         \<not> ShouldPatch (patchPolicy sp) (client_build sp) True \<and>
         fst (db_DirectPExecute x (login_db wp) (sql_publish_key, key_args x K sp)) \<and>
         login s = login sp \<and> remote_address s = remote_address sp \<and> srp_K s = K))"

definition reconnected :: "('bn, 'db) ext \<Rightarrow> ('bn, 'db) entry \<Rightarrow> ('bn, 'db) entry \<Rightarrow> 'bn sock \<Rightarrow> bool" where
  "reconnected x c p s \<longleftrightarrow>
     (\<exists>d. fst p = encode (ReconnectProofFrame d) \<and>
        (let lp = fst p; sp = fst (snd p) in
         regranted x c sp \<and> bn_GetNumBytes x (reconnectProof sp) \<noteq> 0 \<and> bn_GetNumBytes x (srp_K sp) \<noteq> 0 \<and>
         subbytes 17 20 lp =
           reconnect_digest x (login sp) (bn_SetBinary x (subbytes 1 16 lp)) (reconnectProof sp) (srp_K sp) \<and>
         login s = login sp \<and> remote_address s = remote_address sp \<and> srp_K s = srp_K sp))"

text \<open>What the log of a session says of its status.\<close>

fun justified :: "('bn, 'db) ext \<Rightarrow> ('bn, 'db) entry list \<Rightarrow> 'bn sock \<Rightarrow> eStatus \<Rightarrow> bool" where
  "justified x h s STATUS_CHALLENGE = (h = [])"
| "justified x h s STATUS_LOGON_PROOF = (\<exists>c. h = [c] \<and> granted x c s)"
| "justified x h s STATUS_RECON_PROOF = (\<exists>c. h = [c] \<and> regranted x c s)"
| "justified x h s STATUS_AUTHED =
     (\<exists>c p rs. h = c # p # rs \<and> (logged_in x c p s \<or> reconnected x c p s) \<and>
        list_all (\<lambda>r. fst r ! 0 = cmd_code CMD_REALM_LIST) rs)"
| "justified x h s _ = True"

text \<open>The fields of a session that the handshakes rest on.\<close>

definition handshake_fields :: "'bn sock \<Rightarrow> (string \<times> string \<times> uint16) \<times> 'bn list" where
  "handshake_fields s = ((login s, remote_address s, client_build s),
     [srp_s s, srp_v s, srp_b s, srp_B s, srp_g s, srp_N s, srp_K s, reconnectProof s])"

lemma justified_cong:
  assumes "handshake_fields s' = handshake_fields s"
  shows "justified x h s' st = justified x h s st"
proof -
  have "granted x c s' = granted x c s" "regranted x c s' = regranted x c s"
    "logged_in x c p s' = logged_in x c p s" "reconnected x c p s' = reconnected x c p s" for c p
    using assms
    by (simp_all add: handshake_fields_def granted_def regranted_def logged_in_def reconnected_def numbers_of_def)
  then show ?thesis by (cases st) simp_all
qed

lemma handshake_fields_simps [simp]:
  "handshake_fields (close_connection s) = handshake_fields s" "handshake_fields (onClose s) = handshake_fields s"
  "handshake_fields (snd (send b s)) = handshake_fields s"
  by (simp_all add: handshake_fields_def session_simps)

section \<open>The handlers\<close>

lemma challenge_srp_numbers:
  assumes "challenge_srp x acct loc s w = Inr (pkt, s', w')"
  shows "numbers_of x acct s'"
  using assms
  by (auto simp: challenge_srp_def numbers_of_def SetVSFields_def SetRand_def Let_def split_beta
      split: if_splits)

lemma challenge_success:
  assumes r: "challenge_answer x loc s w = Inr (ok, s', w')" and st: "status s = STATUS_CLOSED"
    and lp: "status s' = STATUS_LOGON_PROOF" and sl: "safelogin s = db_escape_string x (login s)"
  shows "challenge_verdict x (login_db w) (remote_address s) (login s) (client_build s) = WOW_SUCCESS \<and>
    (\<exists>acct tail w1 s1 w2. db_PQuery x (login_db w) (sql_account, name_args x (login s)) = Some acct \<and>
       challenge_srp x acct loc s w1 = Inr (tail, s1, w2) \<and>
       s' = snd (send ((bb_uint8 x (cmd_code CMD_AUTH_LOGON_CHALLENGE) @ bb_uint8 x 0x00) @ tail) s1))"
  using assms
  by (auto simp: challenge_answer_def challenge_account_def challenge_verdict_def name_args_def Let_def split_beta
      split: option.splits sum.splits if_splits) blast+

lemma logon_challenge_granted:
  assumes f: "frame_ok (ChallengeFrame False e mid acc)"
    and r: "run_frame x (encode (ChallengeFrame False e mid acc)) s w = Inr (ok, s', w')"
    and lp: "status s' = STATUS_LOGON_PROOF"
  shows "granted x (encode (ChallengeFrame False e mid acc), s, w) s'"
proof -
  let ?buf = "encode (ChallengeFrame False e mid acc) @ [0]"
  let ?s = "named_by x ?buf acc s"
  have os: "length (os_field ?buf) \<le> 4"
    by (rule challenged_os [OF f r lp])
  note ans = r [unfolded run_frame_challenge logon_challenge_body_encode [OF f os]]
  have sl: "safelogin ?s = db_escape_string x (login ?s)" by (simp add: named_by_def)
  from challenge_success [OF ans named_by_simps(4) lp sl] obtain acct tail w1 s1 w2 pkt
    where v: "challenge_verdict x (login_db w) (remote_address s) (to_string acc) (ch_build ?buf) = WOW_SUCCESS"
      and acct: "db_PQuery x (login_db w) (sql_account, name_args x (to_string acc)) = Some acct"
      and srp: "challenge_srp x acct (ParseClientLocaleClaim (ch_country ?buf)) ?s w1 = Inr (tail, s1, w2)"
      and s': "s' = snd (send pkt s1)"
    unfolding named_by_simps by blast
  have "challenge_keeps ?s s1" using challenge_srp_spec [OF srp sl world_grows_refl] by blast
  then have k: "remote_address s' = remote_address s" "login s' = to_string acc" "client_build s' = ch_build ?buf"
    by (simp_all add: s' snd_send challenge_keeps_def named_by_def)
  have "numbers_of x acct s'" using challenge_srp_numbers [OF srp] by (simp add: s' snd_send numbers_of_def)
  with grantedI [OF f _ acct k(2,3)] v k(1) show ?thesis by simp
qed

lemma reconnect_challenge_regranted:
  assumes f: "frame_ok (ChallengeFrame True e mid acc)"
    and r: "run_frame x (encode (ChallengeFrame True e mid acc)) s w = Inr (ok, s', w')"
    and lp: "status s' = STATUS_RECON_PROOF"
  shows "regranted x (encode (ChallengeFrame True e mid acc), s, w) s'"
proof -
  obtain t where "ch_I (encode (ChallengeFrame True e mid acc) @ [0]) = Some t" using ch_text_encode(2) [OF f] by blast
  note run = r [unfolded run_frame_reconnect reconnect_challenge_body_def this ch_text_encode(1) [OF f]
      ch_login_encode(1) [OF f] Let_def, simplified]
  from run lp obtain flds i where
    "db_PQuery x (login_db w) (sql_session_key, name_args x (to_string acc)) = Some flds"
    "login s' = to_string acc" "client_build s' = ch_build (encode (ChallengeFrame True e mid acc) @ [0])"
    "srp_K s' = bn_SetHexStr x (c_string (GetString (flds ! 0)))" "reconnectProof s' = bn_SetRand x i 128"
    by (auto simp: name_args_def SetRand_def split_beta session_simps split: if_splits option.splits)
  then show ?thesis by (rule regrantedI [OF f])
qed

lemma logon_proof_logged_in:
  assumes r: "run_frame x (encode (LogonProofFrame d e)) s w = Inr (ok, s', w')"
    and "status s' = STATUS_AUTHED" and "granted x c s"
  shows "logged_in x c (encode (LogonProofFrame d e), s, w) s'"
proof -
  define lp where "lp = encode (LogonProofFrame d e)"
  define A where "A = bn_SetBinary x (subbytes 1 32 lp)"
  define K where "K = session_key x (server_secret x s A)"
  define M where "M = client_proof x (srp_N s) (srp_g s) (login s) (srp_s s) A (srp_B s) K"
  define s1 where "s1 = s\<lparr>status := STATUS_CLOSED, srp_K := K\<rparr>"
  have rej: "proof_rejected x s1 w \<noteq> (ok, s', w')"
  proof
    assume eq: "proof_rejected x s1 w = (ok, s', w')"
    show False using proof_rejected_status [of x s1 w, unfolded eq] assms(2) by (simp add: s1_def)
  qed
  from r [unfolded run_frame_proof, folded lp_def] assms(2)
  have z: "\<not> bn_isZero x (bn_mod x A (srp_N s))" and M: "AsByteArray x M 20 = subbytes 33 20 lp"
    and acc: "proof_accepted x A M s1 w = (ok, s', w')"
    using rej by (auto simp: logon_proof_body_def Let_def A_def K_def M_def s1_def split: if_splits)
  have "proof_matches x lp s"
    using z M by (simp add: proof_matches_def Let_def A_def K_def M_def)
  moreover have "status s1 = STATUS_CLOSED" by (simp add: s1_def)
  note ac = proof_accepted_authed_iff [OF this, of x A M w, unfolded acc] assms(2)
  then have "FindBuildInfo (client_build s) \<noteq> None" "\<not> ShouldPatch (patchPolicy s) (client_build s) True"
    "fst (db_DirectPExecute x (login_db w) (sql_publish_key, key_args x K s))"
    by (simp_all add: s1_def key_args_def DirectPExecute_def split_beta)
  moreover from this acc have "handshake_fields s' = handshake_fields s1"
    by (auto simp: proof_accepted_def s1_def Let_def split_beta session_simps handshake_fields_def split: if_splits)
  then have "login s' = login s" "remote_address s' = remote_address s" "srp_K s' = K"
    by (simp_all add: handshake_fields_def s1_def)
  ultimately show ?thesis
    using assms(3) by (auto simp: logged_in_def Let_def lp_def A_def K_def)
qed

lemma reconnect_proof_reconnected:
  assumes r: "run_frame x (encode (ReconnectProofFrame d)) s w = Inr (ok, s', w')"
    and "status s' = STATUS_AUTHED" and "regranted x c s"
  shows "reconnected x c (encode (ReconnectProofFrame d), s, w) s'"
  using r assms(2,3)
  by (auto simp: run_frame_reconnect reconnect_proof_body_def reconnect_accepted_def reconnected_def Let_def
      split_beta session_simps split: if_splits)

lemma realm_list_fields:
  "realm_list_body x s w = Inr (ok, s', w') \<Longrightarrow> handshake_fields s' = handshake_fields s"
  by (auto simp: realm_list_body_def Let_def split_beta split: option.splits prod.splits)

lemma run_frame_justified:
  assumes j: "justified x h s (status s)" and f: "frame_ok f" and st: "frame_state f = stream_state (status s)"
    and r: "run_frame x (encode f) s w = Inr (ok, s', w')" and "inv x dl s"
  shows "justified x (h @ [(encode f, s, w)]) s' (status s')"
  using st r
proof (cases rule: run_frame_cases)
  case (challenge e mid acc)
  with f j logon_challenge_status [of False e mid acc x s w ok s' w'] logon_challenge_granted [of e mid acc x s w ok s' w'] r
  show ?thesis by auto
next
  case (reconnect e mid acc)
  with f j reconnect_challenge_status [OF reconnect(3)] reconnect_challenge_regranted [of e mid acc x s w ok s' w'] r
  show ?thesis by auto
next
  case (prove d e)
  with j obtain c where "h = [c]" "granted x c s" by auto
  with prove logon_proof_logged_in [of x d e s w ok s' w' c] logon_proof_status [OF prove(3)] r show ?thesis by auto
next
  case (reprove d)
  with j obtain c where "h = [c]" "regranted x c s" by auto
  with reprove reconnect_proof_reconnected [of x d s w ok s' w' c] reconnect_proof_status [OF reprove(3)] r
  show ?thesis by auto
next
  case (realms d)
  with j justified_cong [OF realm_list_fields, of x s w ok s' w' x "h @ [(encode f, s, w)]" STATUS_AUTHED]
    realm_list_status [OF realms(3)] show ?thesis by auto
next
  case (xfer off)
  with assms(5) have "status s' = STATUS_CLOSED" by (auto simp: inv_def inv_patch_def intro: xfer_status)
  then show ?thesis by simp
next
  case cancel
  then show ?thesis by (auto simp: cancel_body_def close_connection_eq)
qed

lemma history_justified:
  assumes "history x s0 h s" and "inv x dl s0" and "status s0 = STATUS_CHALLENGE"
  shows "justified x h s (status s)"
  using assms
proof (induction rule: history.induct)
  case (handled h s f w ok s' w')
  from run_frame_justified [OF handled.IH [OF handled.prems] handled.hyps(3-5) history_inv [OF handled.hyps(1) handled.prems(1)]]
  show ?case .
next
  case (closes h s)
  then show ?case
    using justified_cong [OF handshake_fields_simps(1), of x h s "status s"] by (simp add: close_connection_eq)
next
  case (hangs_up h s)
  then show ?case using justified_cong [OF handshake_fields_simps(2), of x h s "status s"] by simp
qed simp

section \<open>The sessions of the server\<close>

text \<open>
  The runs of the server, step by step as \<open>server_step\<close>, with the frames that each object has
  handled so far: \<open>H i\<close> is the log of object \<open>i\<close>, with the states of the shared database that
  its handlers found in this run.
\<close>

inductive traced ::
  "('bn, 'db) ext \<Rightarrow> ('bn, 'db) system \<Rightarrow> (nat \<Rightarrow> ('bn, 'db) entry list) \<Rightarrow> ('bn, 'db) system \<Rightarrow> bool"
  for x p0 where
  start: "traced x p0 (\<lambda>_. []) p0"
| accept: "traced x p0 H p \<Longrightarrow> running p \<Longrightarrow> traced x p0 H (accept x now addr fc p)"
| input: "traced x p0 H p \<Longrightarrow> live p i = Some ob \<Longrightarrow> length data < 2 ^ 63 \<Longrightarrow>
    onData x data (obj_buf ob) (obj_sock ob) (shared p) = Inr (rb, s, w') \<Longrightarrow>
    traced x p0 (H(i := H i @ input_log x data (obj_buf ob) (obj_sock ob) (shared p)))
      (p\<lparr>live := (live p)(i \<mapsto> ob\<lparr>obj_buf := rb, obj_sock := s\<rparr>), shared := w'\<rparr>)"
| disconnect: "traced x p0 H p \<Longrightarrow> live p i = Some ob \<Longrightarrow>
    traced x p0 H (p\<lparr>live := (live p)(i \<mapsto> obj_sock_update onClose ob)\<rparr>)"
| expire: "traced x p0 H p \<Longrightarrow> live p i = Some ob \<Longrightarrow>
    traced x p0 H (p\<lparr>live := (live p)(i \<mapsto> obj_sock_update (\<lambda>s. snd (ExpireAuthentication now s)) ob)\<rparr>)"
| release: "traced x p0 H p \<Longrightarrow> traced x p0 H (release i p)"
| prune: "traced x p0 H p \<Longrightarrow> traced x p0 H (snd (prune p))"
| stop: "traced x p0 H p \<Longrightarrow> traced x p0 H (Stop p)"
| others: "traced x p0 H p \<Longrightarrow> s_connections w' = s_connections (shared p) \<Longrightarrow>
    s_authed w' = s_authed (shared p) \<Longrightarrow> traced x p0 H (p\<lparr>shared := w'\<rparr>)"

text \<open>Every run of the server has logs.\<close>

lemma traced_step:
  assumes "traced x p0 H p" and "server_step x p p'"
  shows "\<exists>H'. traced x p0 H' p'"
  using assms(2)
proof cases
  case (call i ob ob' w')
  from call(3) show ?thesis
  proof cases
    case (input data rb s)
    from traced.input [OF assms(1) call(2) input(2,3)] show ?thesis unfolding call(1) input(1) by blast
  next
    case disconnect
    then have "p' = p\<lparr>live := (live p)(i \<mapsto> obj_sock_update onClose ob)\<rparr>" by (simp add: call(1))
    with traced.disconnect [OF assms(1) call(2)] show ?thesis by auto
  next
    case (expire now)
    then have "p' = p\<lparr>live := (live p)(i \<mapsto> obj_sock_update (\<lambda>s. snd (ExpireAuthentication now s)) ob)\<rparr>"
      by (simp add: call(1))
    with traced.expire [OF assms(1) call(2)] show ?thesis by auto
  qed
next
  case accept
  then show ?thesis using traced.accept [OF assms(1)] by auto
next
  case release
  then show ?thesis using traced.release [OF assms(1)] by auto
next
  case prune
  then show ?thesis using traced.prune [OF assms(1)] by auto
next
  case stop
  then show ?thesis using traced.stop [OF assms(1)] by auto
next
  case others
  then show ?thesis using traced.others [OF assms(1)] by auto
qed

lemma server_reachable_traced:
  assumes "server_reachable x p0 p"
  shows "\<exists>H. traced x p0 H p"
  using assms unfolding server_reachable_def
  by (induction rule: rtranclp_induct) (auto intro: traced.start dest: traced_step)

text \<open>
  Each live object is a session that was connected with the server's settings, and its log is
  the log of that session.
\<close>

definition obj_logged ::
  "('bn, 'db) ext \<Rightarrow> int \<Rightarrow> PatchPolicy \<Rightarrow> ('bn, 'db) entry list \<Rightarrow> 'bn object \<Rightarrow> bool" where
  "obj_logged x timeout pol h ob \<longleftrightarrow>
     (\<exists>addr fc w0 w. logged x (connect x (obj_created ob) timeout pol addr fc w0) h (obj_buf ob, obj_sock ob, w))"

definition sessions_logged ::
  "('bn, 'db) ext \<Rightarrow> int \<Rightarrow> PatchPolicy \<Rightarrow> (nat \<Rightarrow> ('bn, 'db) entry list) \<Rightarrow> ('bn, 'db) system \<Rightarrow> bool" where
  "sessions_logged x timeout pol H p \<longleftrightarrow>
     authTimeout (m_impl p) = timeout \<and> impl_patchPolicy (m_impl p) = pol \<and>
     (\<forall>i \<ge> next_object p. live p i = None \<and> H i = []) \<and>
     (\<forall>i ob. live p i = Some ob \<longrightarrow> obj_logged x timeout pol (H i) ob)"

lemma obj_logged_steps:
  assumes "obj_logged x timeout pol h ob"
  shows "length data < 2 ^ 63 \<Longrightarrow> onData x data (obj_buf ob) (obj_sock ob) w = Inr (rb, s, w') \<Longrightarrow>
      obj_logged x timeout pol (h @ input_log x data (obj_buf ob) (obj_sock ob) w) (ob\<lparr>obj_buf := rb, obj_sock := s\<rparr>)"
    and "obj_logged x timeout pol h (obj_sock_update onClose ob)"
    and "obj_logged x timeout pol h (obj_sock_update (\<lambda>s. snd (ExpireAuthentication now s)) ob)"
proof -
  from assms obtain addr fc w0 v
    where r: "logged x (connect x (obj_created ob) timeout pol addr fc w0) h (obj_buf ob, obj_sock ob, v)"
    unfolding obj_logged_def by blast
  show "obj_logged x timeout pol (h @ input_log x data (obj_buf ob) (obj_sock ob) w) (ob\<lparr>obj_buf := rb, obj_sock := s\<rparr>)"
    if "length data < 2 ^ 63" "onData x data (obj_buf ob) (obj_sock ob) w = Inr (rb, s, w')"
    using logged.input [OF logged.others [OF r] that] by (auto simp: obj_logged_def)
  show "obj_logged x timeout pol h (obj_sock_update onClose ob)"
    using logged.disconnect [OF r] by (auto simp: obj_logged_def)
  show "obj_logged x timeout pol h (obj_sock_update (\<lambda>s. snd (ExpireAuthentication now s)) ob)"
    using logged.sweep [OF r, of now] by (auto simp: obj_logged_def)
qed

lemma obj_logged_connect:
  assumes "connect x now timeout pol addr fc w0 = (rb, s, w)"
  shows "obj_logged x timeout pol [] \<lparr>obj_created = now, obj_buf = rb, obj_sock = s\<rparr>"
  using logged.start [of x "connect x now timeout pol addr fc w0", unfolded assms] assms
  by (auto simp: obj_logged_def) metis

lemma sessions_logged_accept:
  assumes "sessions_logged x timeout pol H p"
  shows "sessions_logged x timeout pol H (accept x now addr fc p)"
proof -
  obtain rb s w where c: "connect x now timeout pol addr fc (shared p) = (rb, s, w)" by (rule prod_cases3)
  have "H (next_object p) = []" using assms by (simp add: sessions_logged_def)
  with obj_logged_connect [OF c] assms show ?thesis by (auto simp: sessions_logged_def accept_eq c)
qed

lemma sessions_logged_upd:
  assumes "sessions_logged x timeout pol H p" and "live p i = Some ob" and "obj_logged x timeout pol h ob'"
  shows "sessions_logged x timeout pol (H(i := h)) (p\<lparr>live := (live p)(i \<mapsto> ob'), shared := w\<rparr>)"
proof -
  have "i < next_object p" using assms(1,2) by (metis sessions_logged_def leI option.distinct(1))
  with assms show ?thesis by (auto simp: sessions_logged_def)
qed

lemma sessions_logged_obj:
  "sessions_logged x timeout pol H p \<Longrightarrow> live p i = Some ob \<Longrightarrow> obj_logged x timeout pol (H i) ob"
  by (simp add: sessions_logged_def)

lemma traced_sessions_logged:
  assumes "traced x p0 H p" and "sessions_logged x timeout pol (\<lambda>_. []) p0"
  shows "sessions_logged x timeout pol H p"
  using assms
proof (induction rule: traced.induct)
  case (accept H p now addr fc)
  then show ?case by (simp add: sessions_logged_accept)
next
  case (input H p i ob data rb s w')
  note ih = input.IH [OF input.prems]
  from sessions_logged_upd [OF ih input.hyps(2) obj_logged_steps(1) [OF sessions_logged_obj [OF ih input.hyps(2)] input.hyps(3,4)]]
  show ?case .
next
  case (disconnect H p i ob)
  note ih = disconnect.IH [OF disconnect.prems]
  from sessions_logged_upd [OF ih disconnect.hyps(2) obj_logged_steps(2) [OF sessions_logged_obj [OF ih disconnect.hyps(2)]], of "shared p"]
  show ?case by simp
next
  case (expire H p i ob now)
  note ih = expire.IH [OF expire.prems]
  from sessions_logged_upd [OF ih expire.hyps(2) obj_logged_steps(3) [OF sessions_logged_obj [OF ih expire.hyps(2)]], of "shared p"]
  show ?case by simp
next
  case (release H p i)
  then show ?case by (auto simp: sessions_logged_def release_def split: option.splits if_splits)
qed (auto simp: sessions_logged_def prune_eq Stop_def)

lemma server_session_justified:
  assumes "traced x (started server_start listenPort bindIp timeout pol w) H p" and "live p i = Some ob"
  shows "justified x (H i) (obj_sock ob) (status (obj_sock ob)) \<and> list_all entry_ok (H i)"
proof -
  have "sessions_logged x timeout pol (\<lambda>_. []) (started server_start listenPort bindIp timeout pol w)"
    by (simp add: sessions_logged_def started_def Start_def mk_AuthServer_def Let_def)
  from traced_sessions_logged [OF assms(1) this] assms(2) have "obj_logged x timeout pol (H i) ob"
    by (simp add: sessions_logged_def)
  then obtain addr fc w0 v
    where r: "logged x (connect x (obj_created ob) timeout pol addr fc w0) (H i) (obj_buf ob, obj_sock ob, v)"
    unfolding obj_logged_def by blast
  from logged_history [OF r connect_fresh(5)]
  have h: "history x (fst (snd (connect x (obj_created ob) timeout pol addr fc w0))) (H i) (obj_sock ob)" by simp
  from history_justified [OF h connect_fresh(4,1)] history_entries [OF h] show ?thesis by blast
qed

section \<open>Whole frames as input\<close>

lemma onData_frame_pending:
  assumes "\<not> m_closed s" and "frame_ok f" and "frame_state f = stream_state (status s)"
    and "run_frame x (encode f) s w = Inr (True, s', w')"
    and "encode f = m_readBuf rb @ data" and "length (encode f) \<le> 65539"
  shows "onData x data rb s w = Inr (empty_readbuf, s', w')"
proof -
  have "InspectFrame (stream_state (status s)) (Some (encode f)) (length (encode f)) = CompleteFrame (length (encode f))"
    using InspectFrame_encode [OF assms(2)] assms(3) by simp
  then have "process x (encode f) s w = process x [] s' w'"
    using assms(1,4) by (simp add: process.simps [of x "encode f"] CompleteFrame_def)
  moreover have "process x [] s' w' = Inr ([], s', w')"
    by (simp add: process.simps [of x "[]"] InspectFrame_def IncompleteFrame_def Let_def)
  ultimately show ?thesis
    using assms(1,5,6) by (subst onData_process) (simp_all add: empty_readbuf_def)
qed

lemma onData_frame:
  "\<not> m_closed s \<Longrightarrow> frame_ok f \<Longrightarrow> frame_state f = stream_state (status s) \<Longrightarrow>
   run_frame x (encode f) s w = Inr (True, s', w') \<Longrightarrow> m_readBuf rb = [] \<Longrightarrow> length (encode f) \<le> 65539 \<Longrightarrow>
   onData x (encode f) rb s w = Inr (empty_readbuf, s', w')"
  by (rule onData_frame_pending) simp_all

section \<open>Properties\<close>

text \<open>
  C1: only clients that proved themselves are authenticated.  Take any run of the server,
  whatever its clients send and in whatever order its threads act, and the log of the
  frames that a live session has handled, each with the state of the database at that
  moment.  If the session is in \<open>STATUS_AUTHED\<close>, its log is exactly one challenge, the proof
  that answers it and after that requests for the realm list.  Either that was a logon:
  when the challenge was handled the peer's address was not banned, the account existed,
  was neither banned nor locked to another address; the proof was the right one for the
  stored or newly made verifier of that account, for a supported build that is not to be
  patched, and its session key was published.  Or it was a reconnect: the account had a
  stored session key that is not zero and the digest over the server's random number and
  that key was right.  The session still carries the name and the key of that handshake.
\<close>
theorem server_authenticates_only_proven_clients:
  assumes "traced x (started server_start listenPort bindIp timeout policy w) H p"
    and "live p i = Some ob" and "status (obj_sock ob) = STATUS_AUTHED"
  shows "list_all entry_ok (H i) \<and>
    (\<exists>c pr rs. H i = c # pr # rs \<and> (logged_in x c pr (obj_sock ob) \<or> reconnected x c pr (obj_sock ob)) \<and>
       list_all (\<lambda>r. fst r ! 0 = cmd_code CMD_REALM_LIST) rs)"
  using server_session_justified [OF assms(1,2)] unfolding assms(3) justified.simps by blast

section \<open>A concrete login at the server\<close>

definition example_logon :: ClientFrame where
  "example_logon = ChallengeFrame False 0 example_middle [65]"

lemma example_challenged:
  obtains s1 w1 where "run_frame example_login_ext (encode example_logon) example_session w = Inr (True, s1, w1)"
    and "status s1 = STATUS_LOGON_PROOF" and "\<not> m_closed s1" and "client_build s1 = 8606"
    and "patchPolicy s1 = default_PatchPolicy"
proof -
  have laws: "BigNumber_laws example_login_ext id" "ByteBuffer_laws example_login_ext"
    by (simp_all add: example_login_ext_def)
  from challenge_frame_verdict [OF laws example_session_inv example_frame_ok, of w]
  obtain tail s0 w1 where run: "run_frame example_login_ext (encode example_logon) example_session w =
        Inr (True, snd (send ([0, 0, 0] @ tail) s0), w1)"
      and keeps: "challenge_keeps (named_by example_login_ext (encode example_logon @ [0]) [65] example_session) s0"
      and st: "status s0 = STATUS_LOGON_PROOF"
    unfolding example_logon_def by (auto simp: example_buf example_verdict)
  have s1: "status (snd (send ([0, 0, 0] @ tail) s0)) = STATUS_LOGON_PROOF"
    "\<not> m_closed (snd (send ([0, 0, 0] @ tail) s0))" "client_build (snd (send ([0, 0, 0] @ tail) s0)) = 8606"
    "patchPolicy (snd (send ([0, 0, 0] @ tail) s0)) = default_PatchPolicy"
    using keeps st by (simp_all add: snd_send challenge_keeps_def named_by_def example_logon_def example_buf)
  show thesis by (rule that [OF run s1])
qed

lemma example_login_frames:
  obtains s1 w1 f s2 w2
  where "run_frame example_login_ext (encode example_logon) example_session w = Inr (True, s1, w1)"
    and "status s1 = STATUS_LOGON_PROOF" and "\<not> m_closed s1"
    and "frame_ok f" and "frame_state f = LogonProof" and "length (encode f) \<le> 65539"
    and "run_frame example_login_ext (encode f) s1 w1 = Inr (True, s2, w2)" and "status s2 = STATUS_AUTHED"
proof -
  let ?x = example_login_ext
  have laws: "BigNumber_laws ?x id" "Sha1_laws ?x" by (simp_all add: example_login_ext_def)
  obtain s1 w1 where run: "run_frame ?x (encode example_logon) example_session w = Inr (True, s1, w1)"
    and s1: "status s1 = STATUS_LOGON_PROOF" "\<not> m_closed s1" "client_build s1 = 8606"
      "patchPolicy s1 = default_PatchPolicy" by (rule example_challenged)
  have q: "db_PQuery ?x (login_db w) (sql_account, name_args ?x (to_string [65])) = Some example_account" by simp
  have cons: "stored_consistent ?x id example_account"
    by (simp add: stored_consistent_def example_account_def example_field_def)
  have "FindBuildInfo 8606 \<noteq> None" by code_simp
  then have pass: "FindBuildInfo (client_build s1) \<noteq> None" "\<not> ShouldPatch (patchPolicy s1) (client_build s1) True"
    unfolding s1 by (simp_all add: ShouldPatch_def default_PatchPolicy_def)
  have db: "fst (db_DirectPExecute ?x d p)" for d p by (simp add: example_login_ext_def example_ext_def)
  have len: "length (replicate 20 (0 :: byte)) = 20" by simp
  define f where "f = LogonProofFrame (le_bytes 32 (client_A 5) @
    client_M1 ?x (to_string [65]) (srp_s s1) (stored_digest ?x (GetString (example_account ! 0))) (srp_B s1) 5 @
    replicate 20 0) 0"
  from honest_login_frames [OF laws example_session_inv _ _ example_frame_ok q cons
      run [unfolded example_logon_def] s1(1) pass db len, of 5 0]
  obtain s2 w2 where "run_frame ?x (encode f) s1 w1 = Inr (True, s2, w2)" "status s2 = STATUS_AUTHED"
    by (auto simp: Let_def client_packet_def f_def)
  moreover have "frame_ok f" "frame_state f = LogonProof" "length (encode f) \<le> 65539"
    using laws(2) by (simp_all add: f_def client_M1_def Let_def encode_def)
  ultimately show thesis using that run s1(1,2) by blast
qed

lemma example_authenticated_server:
  "\<exists>p ob. server_reachable example_login_ext
       (started (\<lambda>_ _. True) 3724 ''0.0.0.0'' 30 default_PatchPolicy idle_world) p \<and>
     live p 0 = Some ob \<and> status (obj_sock ob) = STATUS_AUTHED"
proof -
  let ?x = example_login_ext
  define p0 :: "(nat, unit) system" where "p0 = started (\<lambda>_ _. True) 3724 ''0.0.0.0'' 30 default_PatchPolicy idle_world"
  define p1 where "p1 = accept ?x 0 ''10.0.0.1'' None p0"
  have p0: "running p0" "next_object p0 = 0" "authTimeout (m_impl p0) = 30"
      "impl_patchPolicy (m_impl p0) = default_PatchPolicy"
    by (simp_all add: p0_def started_def Start_def mk_AuthServer_def Let_def)
  obtain ob where ob: "live p1 0 = Some ob" "obj_sock ob = example_session" "obj_buf ob = empty_readbuf"
    using p0 by (auto simp: p1_def accept_eq connect_def mk_AuthSocket_def example_session_def
        setFlowControl_def setCloser_def setSender_def setPeerAddress_def empty_readbuf_def)
  obtain s1 w1 f s2 w2 where r1: "run_frame ?x (encode example_logon) example_session (shared p1) = Inr (True, s1, w1)"
    and s1: "status s1 = STATUS_LOGON_PROOF" "\<not> m_closed s1"
    and f: "frame_ok f" "frame_state f = LogonProof" "length (encode f) \<le> 65539"
    and r2: "run_frame ?x (encode f) s1 w1 = Inr (True, s2, w2)" and s2: "status s2 = STATUS_AUTHED"
    by (rule example_login_frames)
  have buf: "m_readBuf empty_readbuf = []" by (simp add: empty_readbuf_def)
  have lg: "frame_ok example_logon" "frame_state example_logon = stream_state (status example_session)"
    "length (encode example_logon) \<le> 65539"
    by (simp_all add: example_logon_def example_middle_def encode_def)
  have i1: "onData ?x (encode example_logon) empty_readbuf example_session (shared p1) = Inr (empty_readbuf, s1, w1)"
    by (rule onData_frame [OF _ lg(1,2) r1 buf lg(3)]) simp
  have i2: "onData ?x (encode f) empty_readbuf s1 w1 = Inr (empty_readbuf, s2, w2)"
    by (rule onData_frame [OF s1(2) f(1) _ r2 buf f(3)]) (simp add: f(2) s1(1))
  define ob1 where "ob1 = ob\<lparr>obj_buf := empty_readbuf, obj_sock := s1\<rparr>"
  define ob2 where "ob2 = ob1\<lparr>obj_buf := empty_readbuf, obj_sock := s2\<rparr>"
  have "length (encode example_logon) < 2 ^ 63" "length (encode f) < 2 ^ 63" using lg(3) f(3) by simp_all
  with i1 i2 have c1: "session_call ?x ob (shared p1) ob1 w1" and c2: "session_call ?x ob1 w1 ob2 w2"
    using session_call.input [of "encode example_logon" ?x ob] session_call.input [of "encode f" ?x ob1]
    by (simp_all add: ob ob1_def [symmetric] ob2_def) (simp_all add: ob1_def)
  define p2 where "p2 = p1\<lparr>live := (live p1)(0 \<mapsto> ob1), shared := w1\<rparr>"
  define p3 where "p3 = p2\<lparr>live := (live p2)(0 \<mapsto> ob2), shared := w2\<rparr>"
  have "server_step ?x p0 p1" unfolding p1_def using p0(1) by (rule server_step.accept)
  moreover have "server_step ?x p1 p2" unfolding p2_def by (rule server_step.call [OF ob(1) c1])
  moreover have "server_step ?x p2 p3"
    using server_step.call [of p2 0 ob1 ?x ob2 w2] c2 unfolding p3_def by (simp add: p2_def)
  ultimately have "server_reachable ?x p0 p3" unfolding server_reachable_def by auto
  moreover have "live p3 0 = Some ob2" "status (obj_sock ob2) = STATUS_AUTHED"
    using s2 by (simp_all add: p3_def ob2_def)
  ultimately show ?thesis unfolding p0_def by blast
qed

theorem server_authenticates_only_proven_clients_witness:
  "\<exists>H p ob c pr rs. traced example_login_ext
       (started (\<lambda>_ _. True) 3724 ''0.0.0.0'' 30 default_PatchPolicy idle_world) H p \<and>
     live p 0 = Some ob \<and> status (obj_sock ob) = STATUS_AUTHED \<and> H 0 = c # pr # rs \<and>
     (logged_in example_login_ext c pr (obj_sock ob) \<or> reconnected example_login_ext c pr (obj_sock ob))"
proof -
  obtain H p ob where t: "traced example_login_ext
       (started (\<lambda>_ _. True) 3724 ''0.0.0.0'' 30 default_PatchPolicy idle_world) H p"
    and ob: "live p 0 = Some ob" "status (obj_sock ob) = STATUS_AUTHED"
    using example_authenticated_server server_reachable_traced by blast
  from server_authenticates_only_proven_clients [OF t ob] t ob show ?thesis by blast
qed

end
