(* ===== verification/ServerConversation.thy ===== *)
theory ServerConversation
  imports Authentication
begin

text \<open>
  The login of an honest client at the running server, seen from the client: it connects,
  sends its challenge in any pieces, computes its proof from nothing but the bytes of the
  server's answer, sends it in any pieces, and checks the server's proof.
\<close>

section \<open>The client\<close>

text \<open>The fields of the answer to a challenge, at the offsets of \<open>sAuthLogonChallenge_S\<close>.\<close>

definition client_B :: "bytes \<Rightarrow> nat" where
  "client_B pkt = le_val (subbytes 3 32 pkt)"

definition client_salt :: "bytes \<Rightarrow> nat" where
  "client_salt pkt = le_val (subbytes 70 32 pkt)"

definition client_group_ok :: "bytes \<Rightarrow> bool" where
  "client_group_ok pkt \<longleftrightarrow>
     take 3 pkt = [0, 0, 0] \<and> subbytes 35 3 pkt = [1, 7, 32] \<and> subbytes 38 32 pkt = le_bytes 32 prime_N \<and>
     length pkt = 119"

definition client_reply ::
  "('bn, 'db) ext \<Rightarrow> string \<Rightarrow> bytes \<Rightarrow> nat \<Rightarrow> bytes \<Rightarrow> byte \<Rightarrow> bytes \<Rightarrow> bytes" where
  "client_reply x name digest a crc sec pkt =
     client_packet x name (client_salt pkt) digest (client_B pkt) a crc sec"

definition client_accepts :: "('bn, 'db) ext \<Rightarrow> string \<Rightarrow> bytes \<Rightarrow> nat \<Rightarrow> bytes \<Rightarrow> bytes \<Rightarrow> bool" where
  "client_accepts x name digest a pkt answer \<longleftrightarrow>
     take 2 answer = [1, 0] \<and>
     subbytes 2 20 answer = client_M2 x name (client_salt pkt) digest (client_B pkt) a"

section \<open>The server's first answer\<close>

lemma challenge_srp_packet:
  assumes "ByteBuffer_laws x" and "challenge_srp x acct loc s w = Inr (tail, s', w')"
  shows "\<exists>r. tail = [0] @ AsByteArray x (srp_B s') 32 @ [1] @ AsByteArray x (srp_g s') 1 @ [32] @
    AsByteArray x (srp_N s') 32 @ AsByteArray x (srp_s s') 32 @ AsByteArray x (bn_SetRand x r 128) 16 @ [0]"
  using assms(2)
  by (auto simp: challenge_srp_def ByteBuffer_lawsD [OF assms(1)] SetRand_def Let_def split_beta split: if_splits)

lemma challenge_packet_fields:
  assumes h: "handshake x val s digest"
    and pkt: "pkt = [0, 0] @ [0] @ AsByteArray x (srp_B s) 32 @ [1] @ AsByteArray x (srp_g s) 1 @ [32] @
      AsByteArray x (srp_N s) 32 @ AsByteArray x (srp_s s) 32 @ AsByteArray x (bn_SetRand x r 128) 16 @ [0]"
  shows "client_B pkt = val (srp_B s)" and "client_salt pkt = val (srp_s s)" and "client_group_ok pkt"
proof -
  note bn = handshakeD(1) [OF h]
  have "val (bn_SetRand x r 128) < 256 ^ 16" using BigNumber_lawsD(4) [OF bn, of r 128] by simp
  moreover have "val (srp_N s) < 256 ^ 32" "val (srp_g s) < 256 ^ 1"
    using handshakeD(3,4) [OF h] prime_N_bounds(2) by simp_all
  ultimately have p: "pkt = [0, 0, 0] @ le_bytes 32 (val (srp_B s)) @ [1, 7, 32] @ le_bytes 32 prime_N @
      le_bytes 32 (val (srp_s s)) @ le_bytes 16 (val (bn_SetRand x r 128)) @ [0]"
    using handshakeD(3-6) [OF h] by (simp add: pkt AsByteArray_val [OF bn])
  show "client_B pkt = val (srp_B s)" "client_salt pkt = val (srp_s s)"
    using handshakeD(5,6) [OF h] by (simp_all add: p client_B_def client_salt_def subbytes_def le_val_le_bytes)
  show "client_group_ok pkt" by (simp add: p client_group_ok_def subbytes_def)
qed

lemma challenged_client:
  fixes x :: "('bn, 'db) ext" and w :: "'db world" and e :: byte and mid acc :: bytes
  defines "buf \<equiv> encode (ChallengeFrame False e mid acc) @ [0]"
  assumes laws: "BigNumber_laws x val" "Sha1_laws x" "ByteBuffer_laws x" and inv: "inv x dl s"
    and op: "m_sender s" "\<not> m_closed s" and f: "frame_ok (ChallengeFrame False e mid acc)"
    and os: "length (os_field buf) \<le> 4"
    and v: "challenge_verdict x (login_db w) (remote_address s) (to_string acc) (ch_build buf) = WOW_SUCCESS"
    and acct: "db_PQuery x (login_db w) (sql_account, name_args x (to_string acc)) = Some acct"
    and st: "stored_consistent x val acct"
  obtains s1 w1 pkt
  where "run_frame x (encode (ChallengeFrame False e mid acc)) s w = Inr (True, s1, w1)"
    and "status s1 = STATUS_LOGON_PROOF" and "\<not> m_closed s1" and "client_build s1 = ch_build buf"
    and "patchPolicy s1 = patchPolicy s" and "sent s1 = sent s @ [pkt]"
    and "client_B pkt = val (srp_B s1)" and "client_salt pkt = val (srp_s s1)" and "client_group_ok pkt"
proof -
  let ?s = "named_by x buf acc s"
  from challenge_frame_verdict [OF laws(1,3) inv f os [unfolded buf_def], of w] v
  obtain t s0 w1 where run: "run_frame x (encode (ChallengeFrame False e mid acc)) s w =
        Inr (True, snd (send t s0), w1)" and "status s0 = STATUS_LOGON_PROOF" "challenge_keeps ?s s0"
    by (auto simp: buf_def)
  define s1 where "s1 = snd (send t s0)"
  have s1: "status s1 = STATUS_LOGON_PROOF" "\<not> m_closed s1" "client_build s1 = ch_build buf"
      "patchPolicy s1 = patchPolicy s"
    using \<open>status s0 = _\<close> \<open>challenge_keeps ?s s0\<close> op
    by (simp_all add: s1_def snd_send challenge_keeps_def named_by_def)
  have ns: "safelogin ?s = db_escape_string x (login ?s)" "inv_group x ?s" "login ?s = to_string acc"
    using inv by (simp_all add: named_by_def inv_def inv_group_def)
  have "challenge_answer x (ParseClientLocaleClaim (ch_country buf)) ?s w = Inr (True, s1, w1)"
    using run unfolding run_frame_challenge buf_def logon_challenge_body_encode [OF f os [unfolded buf_def]] s1_def .
  from challenge_success [OF this named_by_simps(4) s1(1) ns(1)] acct obtain tail v1 s2 w2
    where srp: "challenge_srp x acct (ParseClientLocaleClaim (ch_country buf)) ?s v1 = Inr (tail, s2, w2)"
      and eq: "s1 = snd (send ([0, 0] @ tail) s2)"
    unfolding ns(3) by (auto simp: ByteBuffer_lawsD [OF laws(3)])
  from challenge_srp_packet [OF laws(3) srp] obtain r where tail:
    "tail = [0] @ AsByteArray x (srp_B s2) 32 @ [1] @ AsByteArray x (srp_g s2) 1 @ [32] @
      AsByteArray x (srp_N s2) 32 @ AsByteArray x (srp_s s2) 32 @ AsByteArray x (bn_SetRand x r 128) 16 @ [0]" by blast
  note h = challenge_srp_ready [OF laws(1,2) ns(2) st srp]
  have "challenge_keeps ?s s2" using challenge_srp_spec [OF srp ns(1) world_grows_refl] by blast
  then have "sent s1 = sent s @ [[0, 0] @ tail]" "srp_B s1 = srp_B s2" "srp_s s1 = srp_s s2"
    using op by (simp_all add: eq snd_send challenge_keeps_def named_by_def)
  with challenge_packet_fields [OF h, of "[0, 0] @ tail" r] tail run s1 show thesis
    using that [of s1 w1 "[0, 0] @ tail"] unfolding s1_def [symmetric] by simp
qed

section \<open>Input in pieces\<close>

text \<open>The input step of the server as a function, and a list of pieces, one after the other.\<close>

definition feed :: "('bn, 'db) ext \<Rightarrow> nat \<Rightarrow> bytes \<Rightarrow> ('bn, 'db) system \<Rightarrow> ('bn, 'db) system option" where
  "feed x i data p =
     (case live p i of
        None \<Rightarrow> None
      | Some ob \<Rightarrow>
          (case onData x data (obj_buf ob) (obj_sock ob) (shared p) of
             Inl e \<Rightarrow> None
           | Inr (rb, s, w) \<Rightarrow>
               Some (p\<lparr>live := (live p)(i \<mapsto> ob\<lparr>obj_buf := rb, obj_sock := s\<rparr>), shared := w\<rparr>)))"

fun feed_all :: "('bn, 'db) ext \<Rightarrow> nat \<Rightarrow> bytes list \<Rightarrow> ('bn, 'db) system \<Rightarrow> ('bn, 'db) system option" where
  "feed_all x i [] p = Some p"
| "feed_all x i (d # ds) p = (case feed x i d p of None \<Rightarrow> None | Some p' \<Rightarrow> feed_all x i ds p')"

lemma feed_step:
  assumes "feed x i data p = Some p'" and "length data < 2 ^ 63"
  shows "server_step x p p' \<and> (\<forall>j. j \<noteq> i \<longrightarrow> live p' j = live p j)"
proof -
  obtain ob rb s w where ob: "live p i = Some ob"
    and r: "onData x data (obj_buf ob) (obj_sock ob) (shared p) = Inr (rb, s, w)"
    and p': "p' = p\<lparr>live := (live p)(i \<mapsto> ob\<lparr>obj_buf := rb, obj_sock := s\<rparr>), shared := w\<rparr>"
    using assms(1) by (auto simp: feed_def split: option.splits sum.splits)
  from server_step.call [OF ob session_call.input [OF assms(2) r]] show ?thesis by (simp add: p')
qed

lemma feed_all_reachable:
  assumes "feed_all x i ds p = Some p'" and "length (concat ds) < 2 ^ 63"
  shows "server_reachable x p p' \<and> (\<forall>j. j \<noteq> i \<longrightarrow> live p' j = live p j)"
  using assms
proof (induction ds arbitrary: p)
  case (Cons d ds)
  then obtain q where q: "feed x i d p = Some q" "feed_all x i ds q = Some p'" by (auto split: option.splits)
  from feed_step [OF q(1)] Cons.IH [OF q(2)] Cons.prems(2) show ?case
    by (auto simp: server_reachable_def intro: converse_rtranclp_into_rtranclp)
qed (simp add: server_reachable_def)

lemma onData_idle: "m_readBuf rb = [] \<Longrightarrow> m_readPos rb = 0 \<Longrightarrow> onData x [] rb s w = Inr (rb, s, w)"
  by (subst onData_process)
    (auto simp: process.simps [of x "[]"] InspectFrame_def IncompleteFrame_def Let_def)

lemma onData_prefix:
  assumes "frame_ok f" and "frame_state f = stream_state (status s)" and "encode f = (m_readBuf rb @ d) @ r" and "r \<noteq> []"
    and "length (encode f) \<le> 65539" and "\<not> m_closed s"
  shows "onData x d rb s w = Inr (\<lparr>m_readBuf = m_readBuf rb @ d, m_readPos = 0\<rparr>, s, w)"
proof -
  let ?b = "m_readBuf rb @ d"
  define v where "v = InspectFrame (stream_state (status s)) (Some (encode f)) (length ?b)"
  have loc: "InspectFrame (stream_state (status s)) (Some ?b) (length ?b) = v"
    unfolding v_def assms(3) by (rule guard.inspect_local [symmetric]) simp
  have "fd_status v = Incomplete"
  proof (rule ccontr)
    assume n: "fd_status v \<noteq> Incomplete"
    have "InspectFrame (stream_state (status s)) (Some (encode f)) (length (encode f)) = v"
      unfolding v_def by (rule guard.inspect_final [OF _ n [unfolded v_def]]) (simp add: assms(3))
    with InspectFrame_encode [OF assms(1)] assms(2) have c: "v = CompleteFrame (length (encode f))" by simp
    then have "fd_status (InspectFrame (stream_state (status s)) (Some ?b) (length ?b)) = Complete"
      unfolding loc by (simp add: CompleteFrame_def)
    from guard.complete_size [OF this, unfolded loc c] show False
      using assms(3,4) by (simp add: CompleteFrame_def)
  qed
  then have "process x ?b s w = Inr (?b, s, w)"
    using assms(6) unfolding process.simps [of x ?b] Let_def loc by simp
  then show ?thesis using assms(3,5,6) by (subst onData_process) simp_all
qed

lemma feed_all_idle:
  assumes "live p i = Some ob" and "obj_buf ob = empty_readbuf" and "concat ds = []"
  shows "feed_all x i ds p = Some p"
  using assms
proof (induction ds)
  case (Cons d ds)
  have "onData x [] (obj_buf ob) (obj_sock ob) (shared p) = Inr (obj_buf ob, obj_sock ob, shared p)"
    using Cons.prems(2) by (simp add: onData_idle empty_readbuf_def)
  moreover have "(live p)(i \<mapsto> ob) = live p" using Cons.prems(1) by (simp add: fun_upd_idem)
  ultimately have "feed x i [] p = Some p" using Cons.prems(1) by (simp add: feed_def)
  with Cons show ?case by simp
qed simp

text \<open>A frame that arrives in pieces has the effect of its handler, when the last piece arrives.\<close>

lemma feed_all_frame:
  assumes "live p i = Some ob" and "\<not> m_closed (obj_sock ob)" and "frame_ok f"
    and "frame_state f = stream_state (status (obj_sock ob))" and "length (encode f) \<le> 65539"
    and "run_frame x (encode f) (obj_sock ob) (shared p) = Inr (True, s', w')"
    and "m_readBuf (obj_buf ob) @ concat ds = encode f" and "concat ds \<noteq> []"
  shows "feed_all x i ds p =
    Some (p\<lparr>live := (live p)(i \<mapsto> ob\<lparr>obj_buf := empty_readbuf, obj_sock := s'\<rparr>), shared := w'\<rparr>)"
  using assms
proof (induction ds arbitrary: p ob)
  case (Cons d ds)
  show ?case
  proof (cases "concat ds = []")
    case True
    with Cons.prems have "encode f = m_readBuf (obj_buf ob) @ d" by simp
    let ?q = "p\<lparr>live := (live p)(i \<mapsto> ob\<lparr>obj_buf := empty_readbuf, obj_sock := s'\<rparr>), shared := w'\<rparr>"
    from \<open>encode f = _\<close> onData_frame_pending [OF Cons.prems(2-4,6) _ Cons.prems(5)] Cons.prems(1)
    have "feed x i d p = Some ?q" by (simp add: feed_def)
    moreover have "feed_all x i ds ?q = Some ?q"
      by (rule feed_all_idle [where ob = "ob\<lparr>obj_buf := empty_readbuf, obj_sock := s'\<rparr>", OF _ _ True]) simp_all
    ultimately show ?thesis by (simp only: feed_all.simps option.case)
  next
    case False
    define ob1 where "ob1 = ob\<lparr>obj_buf := \<lparr>m_readBuf = m_readBuf (obj_buf ob) @ d, m_readPos = 0\<rparr>\<rparr>"
    define p1 where "p1 = p\<lparr>live := (live p)(i \<mapsto> ob1)\<rparr>"
    have "encode f = (m_readBuf (obj_buf ob) @ d) @ concat ds" using Cons.prems(7) by simp
    from onData_prefix [OF Cons.prems(3,4) this False Cons.prems(5,2), of x "shared p"] Cons.prems(1)
    have fd: "feed x i d p = Some p1" by (simp add: feed_def p1_def ob1_def)
    have "feed_all x i ds p1 =
        Some (p1\<lparr>live := (live p1)(i \<mapsto> ob1\<lparr>obj_buf := empty_readbuf, obj_sock := s'\<rparr>), shared := w'\<rparr>)"
      by (rule Cons.IH) (use Cons.prems False in \<open>simp_all add: p1_def ob1_def\<close>)
    moreover have "p1\<lparr>live := (live p1)(i \<mapsto> ob1\<lparr>obj_buf := empty_readbuf, obj_sock := s'\<rparr>), shared := w'\<rparr> =
        p\<lparr>live := (live p)(i \<mapsto> ob\<lparr>obj_buf := empty_readbuf, obj_sock := s'\<rparr>), shared := w'\<rparr>"
      unfolding p1_def ob1_def by simp
    ultimately show ?thesis by (simp only: feed_all.simps fd option.case)
  qed
qed simp

section \<open>A new connection\<close>

lemma accept_new:
  obtains ob where "live (accept x now addr fc p) (next_object p) = Some ob" and "obj_buf ob = empty_readbuf"
    and "obj_sock ob = fst (snd (connect x now (authTimeout (m_impl p)) (impl_patchPolicy (m_impl p)) addr fc (shared p)))"
    and "login_db (shared (accept x now addr fc p)) = login_db (shared p)"
    and "\<And>j. j \<noteq> next_object p \<Longrightarrow> live (accept x now addr fc p) j = live p j"
  using connect_fresh(5) [of x now "authTimeout (m_impl p)" "impl_patchPolicy (m_impl p)" addr fc "shared p"]
  by (cases "connect x now (authTimeout (m_impl p)) (impl_patchPolicy (m_impl p)) addr fc (shared p)")
    (auto simp: accept_eq connect_def mk_AuthSocket_def)

lemma connect_ready:
  "m_sender (fst (snd (connect x now timeout pol addr fc w)))"
  "sent (fst (snd (connect x now timeout pol addr fc w))) = []"
  "patchPolicy (fst (snd (connect x now timeout pol addr fc w))) = pol"
  by (simp_all add: connect_def mk_AuthSocket_def setFlowControl_def setCloser_def setSender_def setPeerAddress_def
      split_beta)

lemma client_reply_frame:
  assumes "Sha1_laws x" and "length crc = 20"
  obtains f where "client_reply x name dg a crc sec pkt = encode f" and "frame_ok f" and "frame_state f = LogonProof"
    and "length (encode f) = 75"
  using assms that [of "LogonProofFrame (le_bytes 32 (client_A a) @
      client_M1 x name (client_salt pkt) dg (client_B pkt) a @ crc) sec"]
  by (simp add: client_reply_def client_packet_def client_M1_def Let_def encode_def)

lemma challenge_length: "frame_ok (ChallengeFrame r e mid acc) \<Longrightarrow> length (encode (ChallengeFrame r e mid acc)) \<le> 65539"
  by (simp add: encode_def)

lemma honest_reply_accepted:
  fixes x :: "('bn, 'db) ext" and w :: "'db world" and e :: byte and mid acc :: bytes
  assumes laws: "BigNumber_laws x val" "Sha1_laws x" and s: "inv x dl s" "m_sender s" "\<not> m_closed s"
    and f: "frame_ok (ChallengeFrame False e mid acc)"
    and acct: "db_PQuery x (login_db w) (sql_account, name_args x (to_string acc)) = Some acct"
    and st: "stored_consistent x val acct"
    and run: "run_frame x (encode (ChallengeFrame False e mid acc)) s w = Inr (True, s1, w1)"
    and s1: "status s1 = STATUS_LOGON_PROOF" "FindBuildInfo (client_build s1) \<noteq> None"
      "\<not> ShouldPatch (patchPolicy s1) (client_build s1) True"
    and db: "\<And>d q. fst (db_DirectPExecute x d q)" and crc: "length crc = 20"
    and pkt: "client_B pkt = val (srp_B s1)" "client_salt pkt = val (srp_s s1)"
  defines "dg \<equiv> stored_digest x (GetString (acct ! 0))"
  obtains s2 w2 answer where "run_frame x (client_reply x (to_string acc) dg a crc sec pkt) s1 w1 = Inr (True, s2, w2)"
    and "status s2 = STATUS_AUTHED" and "AsByteArray x (srp_K s2) 40 = client_K x (client_salt pkt) dg (client_B pkt) a"
    and "sent s2 = sent s1 @ [answer]" and "client_accepts x (to_string acc) dg a pkt answer"
proof -
  obtain s2 w2 tl where r: "run_frame x (client_reply x (to_string acc) dg a crc sec pkt) s1 w1 = Inr (True, s2, w2)"
    and s2: "status s2 = STATUS_AUTHED" "AsByteArray x (srp_K s2) 40 = client_K x (client_salt pkt) dg (client_B pkt) a"
      "sent s2 = sent s1 @ [[1, 0] @ client_M2 x (to_string acc) (client_salt pkt) dg (client_B pkt) a @ tl]"
    using honest_login_frames [OF laws s f acct st run s1 db crc, of a sec]
    by (auto simp: Let_def client_reply_def pkt dg_def)
  have "client_accepts x (to_string acc) dg a pkt
      ([1, 0] @ client_M2 x (to_string acc) (client_salt pkt) dg (client_B pkt) a @ tl)"
    using laws(2) by (simp add: client_accepts_def subbytes_def client_M2_def)
  with that [OF r s2] show thesis by blast
qed

lemma feed_client_reply:
  assumes "Sha1_laws x" and "length crc = 20" and "live p i = Some ob" and "obj_buf ob = empty_readbuf"
    and "status (obj_sock ob) = STATUS_LOGON_PROOF" and "\<not> m_closed (obj_sock ob)"
    and "run_frame x (client_reply x name dg a crc sec pkt) (obj_sock ob) (shared p) = Inr (True, s', w')"
    and "concat ds = client_reply x name dg a crc sec pkt"
  shows "\<exists>q. feed_all x i ds p = Some q \<and> live q i = Some (ob\<lparr>obj_buf := empty_readbuf, obj_sock := s'\<rparr>) \<and>
    server_reachable x p q \<and> (\<forall>j. j \<noteq> i \<longrightarrow> live q j = live p j)"
proof -
  obtain f where f: "client_reply x name dg a crc sec pkt = encode f" "frame_ok f" "frame_state f = LogonProof"
    "length (encode f) = 75" using client_reply_frame [OF assms(1,2)] .
  let ?q = "p\<lparr>live := (live p)(i \<mapsto> ob\<lparr>obj_buf := empty_readbuf, obj_sock := s'\<rparr>), shared := w'\<rparr>"
  have ne: "concat ds \<noteq> []" unfolding assms(8) f(1) by simp
  have buf: "m_readBuf (obj_buf ob) @ concat ds = encode f" by (simp add: assms(4,8) f(1) empty_readbuf_def)
  have fed: "feed_all x i ds p = Some ?q"
    by (rule feed_all_frame [OF assms(3,6) f(2) _ _ _ buf ne]) (use assms(5,7) f in simp_all)
  have "length (concat ds) < 2 ^ 63" by (simp add: assms(8) f(1,4))
  from feed_all_reachable [OF fed this] fed show ?thesis by (intro exI [of _ ?q]) simp
qed

lemma feed_honest_reply:
  fixes x :: "('bn, 'db) ext" and w :: "'db world" and p1 :: "('bn, 'db) system" and e :: byte and mid acc :: bytes
  assumes laws: "BigNumber_laws x val" "Sha1_laws x" and s: "inv x dl s" "m_sender s" "\<not> m_closed s"
    and f: "frame_ok (ChallengeFrame False e mid acc)"
    and acct: "db_PQuery x (login_db w) (sql_account, name_args x (to_string acc)) = Some acct"
    and st: "stored_consistent x val acct"
    and run: "run_frame x (encode (ChallengeFrame False e mid acc)) s w = Inr (True, obj_sock ob1, shared p1)"
    and s1: "status (obj_sock ob1) = STATUS_LOGON_PROOF" "FindBuildInfo (client_build (obj_sock ob1)) \<noteq> None"
      "\<not> ShouldPatch (patchPolicy (obj_sock ob1)) (client_build (obj_sock ob1)) True"
    and db: "\<And>d q. fst (db_DirectPExecute x d q)" and crc: "length crc = 20"
    and pkt: "client_B pkt = val (srp_B (obj_sock ob1))" "client_salt pkt = val (srp_s (obj_sock ob1))"
    and ob1: "live p1 i = Some ob1" "obj_buf ob1 = empty_readbuf" "\<not> m_closed (obj_sock ob1)" "sent (obj_sock ob1) = [pkt]"
  defines "dg \<equiv> stored_digest x (GetString (acct ! 0))"
  assumes reply: "concat ds = client_reply x (to_string acc) dg a crc sec pkt"
  shows "\<exists>p2 ob2 answer. feed_all x i ds p1 = Some p2 \<and> live p2 i = Some ob2 \<and>
    status (obj_sock ob2) = STATUS_AUTHED \<and> sent (obj_sock ob2) = [pkt, answer] \<and>
    client_accepts x (to_string acc) dg a pkt answer \<and>
    AsByteArray x (srp_K (obj_sock ob2)) 40 = client_K x (client_salt pkt) dg (client_B pkt) a \<and>
    server_reachable x p1 p2 \<and> (\<forall>j. j \<noteq> i \<longrightarrow> live p2 j = live p1 j)"
proof -
  obtain s2 w2 answer
    where r2: "run_frame x (client_reply x (to_string acc) dg a crc sec pkt) (obj_sock ob1) (shared p1) = Inr (True, s2, w2)"
      and s2: "status s2 = STATUS_AUTHED" "AsByteArray x (srp_K s2) 40 = client_K x (client_salt pkt) dg (client_B pkt) a"
        "sent s2 = sent (obj_sock ob1) @ [answer]" "client_accepts x (to_string acc) dg a pkt answer"
    using honest_reply_accepted [OF laws s f acct st run s1 db crc pkt, of a sec, folded dg_def] .
  from feed_client_reply [OF laws(2) crc ob1(1,2) s1(1) ob1(3) r2 reply]
  obtain p2 where p2: "feed_all x i ds p1 = Some p2" "live p2 i = Some (ob1\<lparr>obj_buf := empty_readbuf, obj_sock := s2\<rparr>)"
    "server_reachable x p1 p2" "\<forall>j. j \<noteq> i \<longrightarrow> live p2 j = live p1 j" by blast
  with s2 ob1(4) show ?thesis by (intro exI [of _ p2]) (auto intro!: exI)
qed

section \<open>Properties\<close>

text \<open>
  C5: the running server logs in an honest client.  Let a client connect to a server whose
  database grants its challenge (the address and the account may log in, the stored salt and
  verifier, if any, belong to the stored digest), with a supported build that is not to be
  patched, and let the database take the session key.  In whatever pieces the challenge
  arrives, the server answers with one packet with the group of SRP6; in whatever pieces the
  proof arrives that the client computes from the bytes of that packet alone, the session
  becomes authenticated, the server's proof is the one the client expects, both hold the same
  key, and no other session has changed.
\<close>
theorem server_logs_in_honest_client:
  fixes x :: "('bn, 'db) ext" and p :: "('bn, 'db) system"
  assumes laws: "BigNumber_laws x val" "Sha1_laws x" "ByteBuffer_laws x" and "running p"
    and f: "frame_ok (ChallengeFrame False e mid acc)"
    and b: "b = ch_build (encode (ChallengeFrame False e mid acc) @ [0])"
    and os: "length (os_field (encode (ChallengeFrame False e mid acc) @ [0])) \<le> 4"
    and v: "challenge_verdict x (login_db (shared p)) addr (to_string acc) b = WOW_SUCCESS"
    and acct: "db_PQuery x (login_db (shared p)) (sql_account, name_args x (to_string acc)) = Some acct"
    and st: "stored_consistent x val acct"
    and sup: "FindBuildInfo b \<noteq> None" "\<not> ShouldPatch (impl_patchPolicy (m_impl p)) b True"
    and db: "\<And>d q. fst (db_DirectPExecute x d q)"
    and crc: "length crc = 20" and ds: "concat ds = encode (ChallengeFrame False e mid acc)"
  shows "let i = next_object p; dg = stored_digest x (GetString (acct ! 0)); name = to_string acc in
    \<exists>p1 ob1 pkt. feed_all x i ds (accept x now addr fc p) = Some p1 \<and> live p1 i = Some ob1 \<and>
      sent (obj_sock ob1) = [pkt] \<and> client_group_ok pkt \<and>
      (\<forall>ds'. concat ds' = client_reply x name dg a crc sec pkt \<longrightarrow>
        (\<exists>p2 ob2 answer. feed_all x i ds' p1 = Some p2 \<and> live p2 i = Some ob2 \<and>
           status (obj_sock ob2) = STATUS_AUTHED \<and> sent (obj_sock ob2) = [pkt, answer] \<and>
           client_accepts x name dg a pkt answer \<and>
           AsByteArray x (srp_K (obj_sock ob2)) 40 = client_K x (client_salt pkt) dg (client_B pkt) a \<and>
           server_reachable x p p2 \<and> (\<forall>j. j \<noteq> i \<longrightarrow> live p2 j = live p j)))"
proof -
  let ?i = "next_object p" and ?dg = "stored_digest x (GetString (acct ! 0))" and ?p = "accept x now addr fc p"
  let ?f = "ChallengeFrame False e mid acc"
  obtain ob where ob: "live ?p ?i = Some ob" "obj_buf ob = empty_readbuf"
    "obj_sock ob = fst (snd (connect x now (authTimeout (m_impl p)) (impl_patchPolicy (m_impl p)) addr fc (shared p)))"
    and sh: "login_db (shared ?p) = login_db (shared p)" and oth: "\<And>j. j \<noteq> ?i \<Longrightarrow> live ?p j = live p j"
    using accept_new by blast
  note new = connect_fresh [of x now "authTimeout (m_impl p)" "impl_patchPolicy (m_impl p)" addr fc "shared p", folded ob(3)]
    connect_ready [of x now "authTimeout (m_impl p)" "impl_patchPolicy (m_impl p)" addr fc "shared p", folded ob(3)]
  from challenged_client [OF laws new(4,6,2) f os _ _ st, of "shared ?p"] v acct
  obtain s1 w1 pkt where run: "run_frame x (encode ?f) (obj_sock ob) (shared ?p) = Inr (True, s1, w1)"
    and s1: "status s1 = STATUS_LOGON_PROOF" "\<not> m_closed s1" "client_build s1 = b"
      "patchPolicy s1 = impl_patchPolicy (m_impl p)" "sent s1 = [pkt]"
    and pkt: "client_B pkt = val (srp_B s1)" "client_salt pkt = val (srp_s s1)" "client_group_ok pkt"
    unfolding sh new b by (metis append_Nil)
  define ob1 where "ob1 = ob\<lparr>obj_buf := empty_readbuf, obj_sock := s1\<rparr>"
  define p1 where "p1 = ?p\<lparr>live := (live ?p)(?i \<mapsto> ob1), shared := w1\<rparr>"
  have fed: "feed_all x ?i ds ?p = Some p1"
    unfolding p1_def ob1_def
    by (rule feed_all_frame [OF ob(1) new(2) f _ challenge_length [OF f] run])
      (simp_all add: new(1) ob(2) ds empty_readbuf_def del: encode_def)
  have "length (concat ds) < 2 ^ 63" using challenge_length [OF f] by (simp add: ds)
  note r1 = feed_all_reachable [OF fed this]
  have "server_reachable x p ?p"
    by (simp add: server_reachable_def r_into_rtranclp server_step.accept \<open>running p\<close>)
  then have r0: "server_reachable x p p1" using r1 server_reachable_trans by blast
  have ob1: "live p1 ?i = Some ob1" "obj_buf ob1 = empty_readbuf" "obj_sock ob1 = s1" "shared p1 = w1"
    by (simp_all add: p1_def ob1_def)
  have two: "\<exists>p2 ob2 answer. feed_all x ?i ds' p1 = Some p2 \<and> live p2 ?i = Some ob2 \<and>
      status (obj_sock ob2) = STATUS_AUTHED \<and> sent (obj_sock ob2) = [pkt, answer] \<and>
      client_accepts x (to_string acc) ?dg a pkt answer \<and>
      AsByteArray x (srp_K (obj_sock ob2)) 40 = client_K x (client_salt pkt) ?dg (client_B pkt) a \<and>
      server_reachable x p p2 \<and> (\<forall>j. j \<noteq> ?i \<longrightarrow> live p2 j = live p j)"
    if reply: "concat ds' = client_reply x (to_string acc) ?dg a crc sec pkt" for ds'
    using feed_honest_reply [OF laws(1,2) new(4,6,2) f acct [folded sh] st run [folded ob1(3,4)] _ _ _ db crc _ _ ob1(1,2) _ _ reply]
      s1 sup pkt r0 r1 oth server_reachable_trans [of x p p1] unfolding ob1(3) by metis
  show ?thesis unfolding Let_def using fed s1(5) pkt(3) two
    by (intro exI [of _ p1] exI [of _ ob1] exI [of _ pkt]) (simp add: p1_def ob1_def)
qed

section \<open>A concrete conversation\<close>

theorem server_logs_in_honest_client_witness:
  "\<exists>p1 ob1 pkt p2 ob2 answer.
     feed_all example_login_ext 0 [take 1 (encode example_logon), drop 1 (encode example_logon)]
       (accept example_login_ext 0 ''10.0.0.1'' None example_started) = Some p1 \<and>
     live p1 0 = Some ob1 \<and> sent (obj_sock ob1) = [pkt] \<and> client_group_ok pkt \<and>
     feed_all example_login_ext 0 [client_reply example_login_ext (to_string [65])
       (stored_digest example_login_ext (GetString (example_account ! 0))) 5 (replicate 20 0) 0 pkt] p1 = Some p2 \<and>
     live p2 0 = Some ob2 \<and> status (obj_sock ob2) = STATUS_AUTHED \<and> sent (obj_sock ob2) = [pkt, answer]"
proof -
  let ?x = example_login_ext and ?ds = "[take 1 (encode example_logon), drop 1 (encode example_logon)]"
  have laws: "BigNumber_laws ?x id" "Sha1_laws ?x" "ByteBuffer_laws ?x" by (simp_all add: example_login_ext_def)
  have b: "8606 = ch_build (encode (ChallengeFrame False 0 example_middle [65]) @ [0])" by (simp only: example_buf)
  have os: "length (os_field (encode (ChallengeFrame False 0 example_middle [65]) @ [0])) \<le> 4" unfolding example_buf by simp
  have q: "db_PQuery ?x (login_db (shared example_started)) (sql_account, name_args ?x (to_string [65])) = Some example_account"
    by simp
  have cons: "stored_consistent ?x id example_account"
    by (simp add: stored_consistent_def example_account_def example_field_def)
  have known: "FindBuildInfo 8606 \<noteq> None" by code_simp
  have pass: "\<not> ShouldPatch (impl_patchPolicy (m_impl example_started)) 8606 True"
    by (simp add: example_started_def started_def Start_def mk_AuthServer_def Let_def ShouldPatch_def default_PatchPolicy_def)
  have db: "fst (db_DirectPExecute ?x d p)" for d p by (simp add: example_login_ext_def example_ext_def)
  have len: "length (replicate 20 (0 :: byte)) = 20" by simp
  have ds: "concat ?ds = encode (ChallengeFrame False 0 example_middle [65])" by (simp add: example_logon_def)
  note login = server_logs_in_honest_client [OF laws example_started_simps(1) example_frame_ok b os example_verdict q cons
      known pass db len ds, of 0 "''10.0.0.1''" None 5 0, unfolded Let_def example_started_simps(2)]
  have one: "concat [reply] = reply" for reply :: bytes by simp
  from login obtain p1 ob1 pkt where "feed_all ?x 0 ?ds (accept ?x 0 ''10.0.0.1'' None example_started) = Some p1"
    "live p1 0 = Some ob1" "sent (obj_sock ob1) = [pkt]" "client_group_ok pkt"
    "\<exists>p2 ob2 answer. feed_all ?x 0 [client_reply ?x (to_string [65])
       (stored_digest ?x (GetString (example_account ! 0))) 5 (replicate 20 0) 0 pkt] p1 = Some p2 \<and>
     live p2 0 = Some ob2 \<and> status (obj_sock ob2) = STATUS_AUTHED \<and> sent (obj_sock ob2) = [pkt, answer]"
    using one by blast
  then show ?thesis by blast
qed

end
