(* ===== verification/FailedLogins.thy ===== *)
theory FailedLogins
  imports LoginProtocol
begin

text \<open>
  What a wrong password leads to: the answer, the failure that is counted, and the ban that
  the limit of the configuration asks for.
\<close>

section \<open>The limit and the ban\<close>

text \<open>A negative setting is read as a number without sign, so that only 0 switches the ban off.\<close>

definition wrong_pass_limit :: "('bn, 'db) ext \<Rightarrow> uint32" where
  "wrong_pass_limit x = word_of_int (cfg_GetIntDefault x ''WrongPass.MaxCount'' 0)"

definition ban_statement :: "('bn, 'db) ext \<Rightarrow> row \<Rightarrow> string \<Rightarrow> sql" where
  "ban_statement x flds addr =
     (let time = SqlU (word_of_int (cfg_GetIntDefault x ''WrongPass.BanTime'' 600)) in
      if cfg_GetBoolDefault x ''WrongPass.BanType'' False
      then (sql_ban_account, [SqlU (GetUInt32 (flds ! 0)), time])
      else (sql_ban_ip, [SqlS (c_string (db_escape_string x addr)), time]))"

text \<open>
  The ban that follows a failed login, if any: the row is the one the database gives after
  the failure was counted.
\<close>

definition ban_after :: "('bn, 'db) ext \<Rightarrow> 'db \<Rightarrow> 'bn sock \<Rightarrow> sql list" where
  "ban_after x d s =
     (case db_PQuery x d (sql_failures, [SqlS (c_string (safelogin s))]) of
        None \<Rightarrow> []
      | Some flds \<Rightarrow>
          if wrong_pass_limit x \<le> GetUInt32 (flds ! 1) then [ban_statement x flds (remote_address s)] else [])"

lemma count_wrong_password_off: "wrong_pass_limit x = 0 \<Longrightarrow> count_wrong_password x s w = w"
  by (simp add: count_wrong_password_def wrong_pass_limit_def Let_def)

lemma count_wrong_password_on:
  fixes x :: "('bn, 'db) ext" and s :: "'bn sock" and w :: "'db world"
  assumes "0 < wrong_pass_limit x"
  defines "counted \<equiv> (sql_count_failure, [SqlS (c_string (safelogin s))])"
  defines "bans \<equiv> ban_after x (db_PExecute x (login_db w) counted) s"
  shows "count_wrong_password x s w =
    w\<lparr>sql_log := sql_log w @ [counted, (sql_failures, [SqlS (c_string (safelogin s))])] @ bans,
      login_db := foldl (db_PExecute x) (login_db w) (counted # bans)\<rparr>"
  using assms(1) unfolding counted_def bans_def ban_after_def
  by (cases "db_PQuery x (db_PExecute x (login_db w) (sql_count_failure, [SqlS (c_string (safelogin s))]))
        (sql_failures, [SqlS (c_string (safelogin s))])")
    (simp_all add: count_wrong_password_def wrong_pass_limit_def ban_statement_def Let_def PExecute_def PQuery_def)

lemma wrong_proof_rejected:
  fixes x :: "('bn, 'db) ext" and lp :: bytes
  defines "A \<equiv> bn_SetBinary x (subbytes 1 32 lp)"
  assumes "\<not> bn_isZero x (bn_mod x A (srp_N s))" and "\<not> proof_matches x lp s"
  shows "logon_proof_body x lp s w =
    Inr (proof_rejected x (s\<lparr>status := STATUS_CLOSED, srp_K := session_key x (server_secret x s A)\<rparr>) w)"
  using assms by (simp add: logon_proof_body_def proof_matches_def Let_def)

text \<open>The effect of a rejected proof, for any configuration.\<close>

lemma rejected_proof_effect:
  assumes "logon_proof_body x lp s w = Inr (ok, s', w')"
    and "\<not> bn_isZero x (bn_mod x (bn_SetBinary x (subbytes 1 32 lp)) (srp_N s))"
    and "\<not> proof_matches x lp s" and "m_sender s" and "\<not> m_closed s"
  shows "ok \<and> status s' = STATUS_CLOSED \<and> s_authed w' = s_authed w \<and>
    sent s' = sent s @ [[1, 4] @ (if client_build s \<le> 6005 then [] else [3, 0])] \<and>
    (let counted = (sql_count_failure, [SqlS (c_string (safelogin s))]);
         bans = ban_after x (db_PExecute x (login_db w) counted) s in
     if wrong_pass_limit x = 0 then w' = w
     else sql_log w' = sql_log w @ [counted, (sql_failures, [SqlS (c_string (safelogin s))])] @ bans \<and>
          login_db w' = foldl (db_PExecute x) (login_db w) (counted # bans))"
proof -
  define s1 where "s1 = s\<lparr>status := STATUS_CLOSED, srp_K := session_key x (server_secret x s (bn_SetBinary x (subbytes 1 32 lp)))\<rparr>"
  have r: "proof_rejected x s1 w = (ok, s', w')"
    using assms(1) wrong_proof_rejected [OF assms(2,3)] by (simp add: s1_def)
  then have ok: "ok" and w': "w' = count_wrong_password x s' w" by (auto simp: proof_rejected_def Let_def)
  have st: "status s' = STATUS_CLOSED" using proof_rejected_status [of x s1 w, unfolded r] by (simp add: s1_def)
  have sent: "sent s' = sent s @ [[1, 4] @ (if client_build s \<le> 6005 then [] else [3, 0])]"
    using wrong_password_answer [of s1 x w, unfolded r] assms(4,5) by (simp add: s1_def)
  have "safelogin s' = safelogin s" "remote_address s' = remote_address s"
    using r by (auto simp: proof_rejected_def Let_def snd_send s1_def)
  then have same: "safelogin s' = safelogin s" "ban_after x d s' = ban_after x d s" for d
    by (simp_all add: ban_after_def split: option.split)
  show ?thesis
  proof (cases "wrong_pass_limit x = 0")
    case True
    with ok st sent show ?thesis by (simp add: w' count_wrong_password_off)
  next
    case False
    then have "0 < wrong_pass_limit x" by (simp add: word_neq_0_conv)
    with False ok st sent show ?thesis by (simp add: w' count_wrong_password_on same Let_def)
  qed
qed

section \<open>Properties\<close>

text \<open>
  C12: a wrong password is answered, counted and punished as configured.  A client whose
  number is acceptable and whose proof is wrong gets one packet with the code of an unknown
  account, of two bytes for builds up to 6005 and of four bytes for later ones, and no further
  command of it is handled.  Let the settings \<open>WrongPass.MaxCount\<close>, \<open>WrongPass.BanTime\<close> and
  \<open>WrongPass.BanType\<close> be given in the configuration.  With a limit of 0 nothing else happens.
  With any other limit the failure is counted and the count is read back; if it has reached the
  limit, exactly one ban is ordered, of the account or of the escaped address, as the type
  says, for the given time, and none otherwise.  The number of authenticated sessions does
  not change.  (Build 6141 gets four bytes, although a comment says that 1.x clients take only
  two.)
\<close>
theorem wrong_password_consequences:
  assumes "logon_proof_body x lp s w = Inr (ok, s', w')"
    and "\<not> bn_isZero x (bn_mod x (bn_SetBinary x (subbytes 1 32 lp)) (srp_N s))"
    and "\<not> proof_matches x lp s" and "m_sender s" and "\<not> m_closed s"
    and "\<And>dflt. cfg_GetIntDefault x ''WrongPass.MaxCount'' dflt = int limit" and "limit < 2 ^ 31"
    and "\<And>dflt. cfg_GetIntDefault x ''WrongPass.BanTime'' dflt = time"
    and "\<And>dflt. cfg_GetBoolDefault x ''WrongPass.BanType'' dflt = of_account"
  shows "ok \<and> status s' = STATUS_CLOSED \<and> s_authed w' = s_authed w \<and>
    sent s' = sent s @ [if client_build s \<le> 6005 then [1, 4] else [1, 4, 3, 0]] \<and>
    (let nm = SqlS (c_string (safelogin s));
         counted = (sql_count_failure, [nm]);
         d1 = db_PExecute x (login_db w) counted;
         reached = (\<lambda>flds. limit \<le> unat (GetUInt32 (flds ! 1)));
         ban = (\<lambda>flds. if of_account then (sql_ban_account, [SqlU (GetUInt32 (flds ! 0)), SqlU (word_of_int time)])
           else (sql_ban_ip, [SqlS (c_string (db_escape_string x (remote_address s))), SqlU (word_of_int time)]))
     in if limit = 0 then w' = w
        else case db_PQuery x d1 (sql_failures, [nm]) of
          Some flds \<Rightarrow>
            if reached flds
            then sql_log w' = sql_log w @ [counted, (sql_failures, [nm]), ban flds] \<and> login_db w' = db_PExecute x d1 (ban flds)
            else sql_log w' = sql_log w @ [counted, (sql_failures, [nm])] \<and> login_db w' = d1
        | None \<Rightarrow> sql_log w' = sql_log w @ [counted, (sql_failures, [nm])] \<and> login_db w' = d1)"
proof -
  note effect = rejected_proof_effect [OF assms(1-5)]
  have lim: "unat (wrong_pass_limit x) = limit" using assms(7) by (simp add: wrong_pass_limit_def assms(6) unat_of_nat)
  then have zero: "wrong_pass_limit x = 0 \<longleftrightarrow> limit = 0" using unat_eq_zero [of "wrong_pass_limit x"] by auto
  have ban: "ban_statement x flds addr =
      (if of_account then (sql_ban_account, [SqlU (GetUInt32 (flds ! 0)), SqlU (word_of_int time)])
       else (sql_ban_ip, [SqlS (c_string (db_escape_string x addr)), SqlU (word_of_int time)]))" for flds addr
    by (simp add: ban_statement_def assms(8,9))
  show ?thesis using effect
    by (simp add: zero Let_def ban_after_def ban word_le_nat_alt lim split: option.split)
qed

text \<open>When the limit is not given, the code takes it to be 0, and no failure is ever counted.\<close>

lemma unconfigured_never_bans:
  assumes "cfg_GetIntDefault x ''WrongPass.MaxCount'' 0 = 0"
  shows "count_wrong_password x s w = w"
  using assms by (simp add: count_wrong_password_off wrong_pass_limit_def)

section \<open>A concrete failure\<close>

text \<open>A limit of three, and an account whose count has reached it.\<close>

definition failing_ext :: "(nat, unit) ext" where
  "failing_ext = (example_ext id (\<lambda>q. if fst q = sql_failures then Some [example_field 7 [], example_field 3 []] else None) [])
     \<lparr>cfg_GetIntDefault := (\<lambda>key d. if key = ''WrongPass.MaxCount'' then 3 else if key = ''WrongPass.BanTime'' then 300 else d),
      cfg_GetBoolDefault := (\<lambda>key d. key \<noteq> ''WrongPass.BanType'' \<and> d)\<rparr>"

lemma failing_ext_simps:
  "cfg_GetIntDefault failing_ext ''WrongPass.MaxCount'' dflt = int 3"
  "cfg_GetIntDefault failing_ext ''WrongPass.BanTime'' dflt = 300"
  "cfg_GetBoolDefault failing_ext ''WrongPass.BanType'' b = False"
  "db_PQuery failing_ext d (sql_failures, args) = Some [example_field 7 [], example_field 3 []]"
  by (simp_all add: failing_ext_def example_ext_def)

theorem wrong_password_consequences_witness:
  "\<exists>lp s' w'. length lp = 75 \<and>
     logon_proof_body failing_ext lp (example_sock STATUS_LOGON_PROOF) example_world = Inr (True, s', w') \<and>
     status s' = STATUS_CLOSED \<and> length (sql_log w') = length (sql_log example_world) + 3"
proof -
  let ?x = failing_ext and ?s = "example_sock STATUS_LOGON_PROOF" and ?z = "replicate 31 (0 :: byte)"
  define m where "m = AsByteArray ?x (client_proof ?x (srp_N ?s) (srp_g ?s) (login ?s) (srp_s ?s) 1 (srp_B ?s)
     (session_key ?x (server_secret ?x ?s 1))) 20"
  define M where "M = (if m = replicate 20 0 then replicate 20 1 else replicate 20 (0 :: byte))"
  have M: "length M = 20" "M \<noteq> m" by (auto simp: M_def)
  define lp where "lp = [1, 1] @ ?z @ M @ replicate 22 0"
  have A: "bn_SetBinary ?x (subbytes 1 32 lp) = 1"
    by (simp add: lp_def subbytes_def failing_ext_def example_ext_def)
  have "srp_N ?s = prime_N"
    by (simp add: example_sock_def mk_AuthSocket_def prime_N_def) (simp add: example_ext_def)
  with prime_N_bounds(3) have nz: "\<not> bn_isZero ?x (bn_mod ?x (bn_SetBinary ?x (subbytes 1 32 lp)) (srp_N ?s))"
    unfolding A by (simp add: failing_ext_def example_ext_def)
  have "subbytes 33 20 lp = M" using M(1) by (simp add: lp_def subbytes_def)
  with M(2) have no: "\<not> proof_matches ?x lp ?s" unfolding proof_matches_def Let_def A m_def [symmetric] by simp
  obtain s' w' where r: "logon_proof_body ?x lp ?s example_world = Inr (True, s', w')"
    using wrong_proof_rejected [OF nz no, of example_world] by (auto simp: proof_rejected_def Let_def)
  from wrong_password_consequences [OF r nz no _ _ failing_ext_simps(1) _ failing_ext_simps(2,3)]
  have "status s' = STATUS_CLOSED \<and> length (sql_log w') = length (sql_log example_world) + 3"
    by (simp add: Let_def failing_ext_simps example_field_def)
  moreover have "length lp = 75" using M(1) by (simp add: lp_def)
  ultimately show ?thesis using r by blast
qed

end
