(* ===== verification/Backpressure.thy ===== *)
theory Backpressure
  imports PatchTransfer
begin

text \<open>
  The streaming thread of \<open>src/Auth/PatchHandler.cpp\<close> together with the transport it feeds.
  The thread hands packets to the sender, which only queues them; the transport writes the
  queue to the socket on its own threads.  The thread may run ahead of the transport, but
  \<open>awaitWritable\<close> lets it go on only while no more than the given number of bytes is queued,
  or tells it that the connection is gone.
\<close>

section \<open>The thread and the transport\<close>

text \<open>Where the thread is: before \<open>awaitWritable\<close>, before \<open>Read\<close>, or done.\<close>

datatype xfer_point = AtAwait | AtRead | AtEnd xfer_end

record xfer_state =
  x_point :: xfer_point
  x_artifact :: PatchArtifact
  x_sent :: "bytes list"
  x_queue :: bytes
  x_written :: bytes

inductive xfer_step :: "bool \<Rightarrow> xfer_state \<Rightarrow> xfer_state \<Rightarrow> bool" for flow where
  admitted: "x_point t = AtAwait \<Longrightarrow> flow \<longrightarrow> length (x_queue t) \<le> unat kMaxOutstandingBytes \<Longrightarrow>
    xfer_step flow t (t\<lparr>x_point := AtRead\<rparr>)"
| refused: "x_point t = AtAwait \<Longrightarrow> flow \<Longrightarrow> xfer_step flow t (t\<lparr>x_point := AtEnd ConnectionGone\<rparr>)"
| sends: "x_point t = AtRead \<Longrightarrow> read_chunk (x_artifact t) = (a, got) \<Longrightarrow> got \<noteq> [] \<Longrightarrow>
    xfer_step flow t (t\<lparr>x_point := AtAwait, x_artifact := a, x_sent := x_sent t @ [xfer_frame got],
      x_queue := x_queue t @ xfer_frame got\<rparr>)"
| ends: "x_point t = AtRead \<Longrightarrow> read_chunk (x_artifact t) = (a, []) \<Longrightarrow>
    xfer_step flow t (t\<lparr>x_point := AtEnd EndOfStream, x_artifact := a\<rparr>)"
| writes: "0 < n \<Longrightarrow> n \<le> length (x_queue t) \<Longrightarrow>
    xfer_step flow t (t\<lparr>x_queue := drop n (x_queue t), x_written := x_written t @ take n (x_queue t)\<rparr>)"

definition xfer_init_state :: "PatchArtifact \<Rightarrow> bytes \<Rightarrow> xfer_state" where
  "xfer_init_state a queued =
     \<lparr>x_point = AtAwait, x_artifact = a, x_sent = [], x_queue = queued, x_written = []\<rparr>"

definition xfer_reachable :: "bool \<Rightarrow> PatchArtifact \<Rightarrow> bytes \<Rightarrow> xfer_state \<Rightarrow> bool" where
  "xfer_reachable flow a queued = (xfer_step flow)\<^sup>*\<^sup>* (xfer_init_state a queued)"

lemma xfer_reachable_induct [consumes 1, case_names init step]:
  assumes "xfer_reachable flow a queued t" and "P (xfer_init_state a queued)"
    and "\<And>t t'. xfer_reachable flow a queued t \<Longrightarrow> P t \<Longrightarrow> xfer_step flow t t' \<Longrightarrow> P t'"
  shows "P t"
  using assms unfolding xfer_reachable_def by (induction rule: rtranclp_induct) blast+

section \<open>Invariants\<close>

lemma read_chunk_size: "read_chunk a = (a', got) \<Longrightarrow> length got \<le> kChunkSize"
  by (auto simp: read_chunk_eq kChunkSize_def stream_read_def Let_def split: if_splits)

lemma xfer_frame_length: "length (xfer_frame got) = 3 + length got"
  by (simp add: xfer_frame_def)

text \<open>The queue: at \<open>Read\<close> it is at most the ceiling, at any time at most one packet above it.\<close>

lemma xfer_queue_bound:
  assumes "xfer_reachable True a queued t"
  shows "length (x_queue t) \<le> max (length queued) (unat kMaxOutstandingBytes + 3 + kChunkSize) \<and>
    (x_point t = AtRead \<longrightarrow> length (x_queue t) \<le> unat kMaxOutstandingBytes)"
  using assms
proof (induction rule: xfer_reachable_induct)
  case init
  show ?case by (simp add: xfer_init_state_def)
next
  case (step t t')
  from step.hyps(2) show ?case
  proof cases
    case (sends a' got)
    with step.IH read_chunk_size [OF sends(3)] show ?thesis by (simp add: xfer_frame_length le_max_iff_disj)
  qed (use step.IH in auto)
qed

text \<open>Nothing is lost or reordered between the thread and the socket.\<close>

lemma xfer_written:
  assumes "xfer_reachable flow a queued t"
  shows "x_written t @ x_queue t = queued @ concat (x_sent t)"
  using assms
proof (induction rule: xfer_reachable_induct)
  case (step t t')
  from step.hyps(2) step.IH show ?case by cases simp_all
qed (simp add: xfer_init_state_def)

text \<open>What was sent and what is left is the archive; at the end of the stream nothing is left.\<close>

lemma xfer_delivery:
  assumes "xfer_reachable flow a queued t" and "healthy (m_stream a)"
  defines "todo \<equiv> \<lambda>a. map xfer_frame (chunks kChunkSize (rest (m_stream a)))"
  shows "healthy (m_stream (x_artifact t)) \<and> x_sent t @ todo (x_artifact t) = todo a \<and>
    (x_point t = AtEnd EndOfStream \<longrightarrow> todo (x_artifact t) = [])"
  using assms(1)
proof (induction rule: xfer_reachable_induct)
  case init
  show ?case using assms(2) by (simp add: xfer_init_state_def)
next
  case (step t t')
  from step.hyps(2) show ?case
  proof cases
    case (sends a' got)
    note law = artifact.read_chunk_law [OF _ sends(3)]
    with step.IH sends(4) have "rest (m_stream (x_artifact t)) \<noteq> []" by auto
    with step.IH law sends show ?thesis by (auto simp: todo_def chunks_step kChunkSize_def)
  next
    case (ends a')
    note law = artifact.read_chunk_law [OF _ ends(3)]
    with step.IH have "rest (m_stream (x_artifact t)) = []" by (auto simp: kChunkSize_def)
    with step.IH law ends show ?thesis by (auto simp: todo_def kChunkSize_def)
  qed (use step.IH in auto)
qed

section \<open>Every run ends, and none is stuck\<close>

primrec point_rank :: "xfer_point \<Rightarrow> nat" where
  "point_rank AtAwait = 2"
| "point_rank AtRead = 1"
| "point_rank (AtEnd e) = 0"

definition xfer_rank :: "xfer_state \<Rightarrow> nat \<times> nat \<times> nat" where
  "xfer_rank t = (bytes_left (m_stream (x_artifact t)), point_rank (x_point t), length (x_queue t))"

lemma xfer_step_rank:
  assumes "xfer_step flow t t'"
  shows "(xfer_rank t', xfer_rank t) \<in> less_than <*lex*> less_than <*lex*> less_than"
  using assms
proof cases
  case (sends a got)
  with artifact.read_progress [OF sends(3,4)] show ?thesis by (simp add: xfer_rank_def)
next
  case (ends a)
  have "bytes_left (m_stream a) \<le> bytes_left (m_stream (x_artifact t))"
    using ends(3) by (auto simp: read_chunk_eq stream_read_def bytes_left_def stream_ok_def Let_def split: if_splits)
  with ends show ?thesis by (auto simp: xfer_rank_def)
qed (auto simp: xfer_rank_def)

lemma wf_xfer_step: "wf {(t', t). xfer_step flow t t'}"
  by (rule wf_subset [OF wf_inv_image [of "less_than <*lex*> less_than <*lex*> less_than" xfer_rank]])
    (auto dest: xfer_step_rank)

lemma xfer_stuck:
  assumes "\<And>t'. \<not> xfer_step flow t t'"
  shows "x_queue t = [] \<and> (\<exists>e. x_point t = AtEnd e)"
proof -
  have q: "x_queue t = []"
  proof (rule ccontr)
    assume "x_queue t \<noteq> []"
    with xfer_step.writes [of "length (x_queue t)" t flow] assms show False by simp
  qed
  show ?thesis
  proof (cases "x_point t")
    case AtAwait
    with q xfer_step.admitted [of t flow] assms show ?thesis by simp
  next
    case AtRead
    obtain a got where "read_chunk (x_artifact t) = (a, got)" by fastforce
    with AtRead xfer_step.sends [of t a got flow] xfer_step.ends [of t a flow] assms show ?thesis
      by (cases "got = []") auto
  qed (use q in simp)
qed

section \<open>The steps are those of the thread\<close>

text \<open>
  The thread's part of a run is the loop \<open>xfer_loop\<close>, with the answers that \<open>awaitWritable\<close>
  gave in that run.
\<close>

definition follows_loop :: "PatchArtifact \<Rightarrow> xfer_state \<Rightarrow> bool" where
  "follows_loop a t \<longleftrightarrow>
     (case x_point t of
        AtAwait \<Rightarrow> \<forall>f. (\<forall>k < length (x_sent t). f k) \<longrightarrow>
          xfer_loop read_chunk (Some f) 0 a [] = xfer_loop read_chunk (Some f) (length (x_sent t)) (x_artifact t) (x_sent t)
      | AtRead \<Rightarrow> \<forall>f. (\<forall>k \<le> length (x_sent t). f k) \<longrightarrow>
          xfer_loop read_chunk (Some f) 0 a [] = xfer_loop read_chunk (Some f) (length (x_sent t)) (x_artifact t) (x_sent t)
      | AtEnd e \<Rightarrow> \<exists>f. xfer_loop read_chunk (Some f) 0 a [] = Some (x_artifact t, x_sent t, e))"

lemma xfer_follows_loop:
  assumes "xfer_reachable flow a queued t"
  shows "follows_loop a t"
  using assms
proof (induction rule: xfer_reachable_induct)
  case init
  show ?case by (simp add: follows_loop_def xfer_init_state_def)
next
  case (step t t')
  let ?n = "length (x_sent t)"
  from step.hyps(2) show ?case
  proof cases
    case refused
    have "xfer_loop read_chunk (Some (\<lambda>k. k < ?n)) 0 a [] = Some (x_artifact t, x_sent t, ConnectionGone)"
      using step.IH refused(2) by (simp add: follows_loop_def) (simp add: xfer_loop.simps)
    with refused(1) show ?thesis by (auto simp: follows_loop_def)
  next
    case (sends a' got)
    have "xfer_loop read_chunk (Some f) ?n (x_artifact t) (x_sent t) =
        xfer_loop read_chunk (Some f) (Suc ?n) a' (x_sent t @ [xfer_frame got])" if "f ?n" for f
      using that sends(3,4) by (subst xfer_loop.simps) simp
    with step.IH sends(1,2) show ?thesis by (auto simp: follows_loop_def less_Suc_eq_le)
  next
    case (ends a')
    have "xfer_loop read_chunk (Some (\<lambda>_. True)) 0 a [] = Some (a', x_sent t, EndOfStream)"
      using step.IH ends(2,3) by (simp add: follows_loop_def) (simp add: xfer_loop.simps)
    with ends(1) show ?thesis by (auto simp: follows_loop_def)
  qed (use step.IH in \<open>auto simp: follows_loop_def split: xfer_point.splits\<close>)
qed

section \<open>Properties\<close>

text \<open>
  C28: the memory of a transfer is bounded, and backpressure costs neither data nor progress.
  However the thread and the transport interleave, at most 256 KiB and one packet are queued
  (or what was queued before the transfer, if that was more), whatever the size of the
  archive and the speed of the client.  No run goes on for ever, and a run can stop only
  when everything that was sent has been written, in order, and the thread has ended as
  \<open>xfer_thread\<close> does for some answers of the flow control; for a sound archive that was read
  to its end, that is the whole archive.
\<close>
theorem backpressured_transfer:
  assumes "xfer_reachable True a queued t"
  shows "length (x_queue t) \<le> max (length queued) 266243 \<and> wf {(q, p). xfer_step True p q} \<and>
    ((\<forall>t'. \<not> xfer_step True t t') \<longrightarrow>
       x_queue t = [] \<and> x_written t = queued @ concat (x_sent t) \<and>
       (\<exists>e f. x_point t = AtEnd e \<and>
          xfer_thread (Some f) a =
            Some \<lparr>t_packets = x_sent t, t_end = e, t_closed = (e = EndOfStream \<and> bad (x_artifact t))\<rparr>) \<and>
       (healthy (m_stream a) \<and> x_point t = AtEnd EndOfStream \<longrightarrow>
          x_sent t = map xfer_frame (chunks kChunkSize (rest (m_stream a)))))"
proof (intro conjI impI)
  show "length (x_queue t) \<le> max (length queued) 266243"
    using xfer_queue_bound [OF assms] by (simp add: kMaxOutstandingBytes_def kChunkSize_def)
  show "wf {(q, p). xfer_step True p q}" by (rule wf_xfer_step)
  assume stuck: "\<forall>t'. \<not> xfer_step True t t'"
  with xfer_stuck obtain e where q: "x_queue t = []" and e: "x_point t = AtEnd e" by blast
  show "x_queue t = []" by (rule q)
  show "x_written t = queued @ concat (x_sent t)" using xfer_written [OF assms] q by simp
  obtain f where "xfer_loop read_chunk (Some f) 0 a [] = Some (x_artifact t, x_sent t, e)"
    using xfer_follows_loop [OF assms] e by (auto simp: follows_loop_def)
  with e show "\<exists>e f. x_point t = AtEnd e \<and> xfer_thread (Some f) a =
      Some \<lparr>t_packets = x_sent t, t_end = e, t_closed = (e = EndOfStream \<and> bad (x_artifact t))\<rparr>"
    by (auto simp: xfer_thread_def intro!: exI [of _ f])
qed (use xfer_delivery [OF assms] in auto)

theorem backpressured_transfer_witness:
  "\<exists>t. xfer_reachable True \<lparr>m_stream = seekg 0 (open_ate (example_file [1, 2, 3])), m_size = 3, m_digest = []\<rparr> [9] t \<and>
     length (x_sent t) = 1 \<and> length (x_queue t) \<le> 266243"
proof -
  let ?a = "\<lparr>m_stream = seekg 0 (open_ate (example_file [1, 2, 3])), m_size = 3, m_digest = []\<rparr>"
  define t0 where "t0 = xfer_init_state ?a [9]"
  obtain a' got where rd: "read_chunk ?a = (a', got)" by fastforce
  have "healthy (m_stream ?a)" and "rest (m_stream ?a) = [1, 2, 3]"
    by (simp_all add: healthy_def rest_def good_def seekg_def open_ate_def example_file_def stream_ok_def)
  with artifact.read_chunk_law [OF _ rd] have got: "got \<noteq> []" by (auto simp: kChunkSize_def)
  define t1 where "t1 = t0\<lparr>x_point := AtRead\<rparr>"
  define t2 where "t2 = t1\<lparr>x_point := AtAwait, x_artifact := a', x_sent := x_sent t1 @ [xfer_frame got],
      x_queue := x_queue t1 @ xfer_frame got\<rparr>"
  have "xfer_step True t0 t1"
    unfolding t1_def by (rule xfer_step.admitted) (simp_all add: t0_def xfer_init_state_def kMaxOutstandingBytes_def)
  moreover have "xfer_step True t1 t2"
    unfolding t2_def by (rule xfer_step.sends [OF _ _ got]) (simp_all add: t1_def t0_def xfer_init_state_def rd)
  ultimately have r: "xfer_reachable True ?a [9] t2" unfolding xfer_reachable_def t0_def by auto
  moreover have "length (x_sent t2) = 1" by (simp add: t2_def t1_def t0_def xfer_init_state_def)
  ultimately show ?thesis using backpressured_transfer [OF r] by auto
qed

end
