(* ===== verification/PatchProtocol.thy ===== *)
theory PatchProtocol
  imports LoginProtocol
begin

text \<open>
  The whole path of a client that must be patched: the proof is right, the policy asks for
  a patch, the archive is offered with its size and digest, the client accepts it or
  resumes at an offset, and the streaming thread delivers the bytes.
\<close>

section \<open>Offering\<close>

lemma logon_proof_patch:
  assumes "proof_matches x lp s" and "ShouldPatch (patchPolicy s) (client_build s) (FindBuildInfo (client_build s) \<noteq> None)"
  shows "\<exists>K. logon_proof_body x lp s w = Inr (OfferPatch x (s\<lparr>status := STATUS_CLOSED, srp_K := K\<rparr>) w)"
  using assms
  by (auto simp: proof_matches_def logon_proof_body_def Let_def proof_accepted_def)

lemma OfferPatch_sound:
  assumes "Open (md5 x) (files w) (patch_path (client_build s) (localizationName s)) = Some a"
    and "m_sender s" and "\<not> m_closed s"
  shows "OfferPatch x s w =
    (True, s\<lparr>m_patchArtifact := Some a, status := STATUS_PATCH, m_authDeadline := deactivate (m_authDeadline s),
       sent := sent s @ [[cmd_code CMD_AUTH_LOGON_PROOF, result_code WOW_FAIL_VERSION_UPDATE], xfer_init a]\<rparr>, w)"
  using assms by (simp add: OfferPatch_def Let_def send_def deactivate_auth_deadline_def xfer_init_def)

lemma run_frame_xfer:
  "run_frame x (encode XferAcceptFrame) s w = xfer_body 0 s w"
  "length d = 8 \<Longrightarrow> run_frame x (encode (XferResumeFrame d)) s w = xfer_body (word_of_nat (le_val d)) s w"
  by (simp_all add: run_frame_def encode_def)

lemma xfer_body_starts:
  assumes "m_patchArtifact s = Some a" and "StartPatchTransfer (m_sender s) (m_closer s) (m_flowControl s) (Some a) off = Some j"
  shows "xfer_body off s w =
    Inr (True, s\<lparr>status := STATUS_CLOSED, m_patchArtifact := None, transfers := transfers s @ [j]\<rparr>, w)"
  using assms by (simp add: xfer_body_def BeginPatchStream_def Let_def)

section \<open>Properties\<close>

text \<open>
  C14: an outdated client gets its patch.  When the proof of a client is right and the policy
  says its build has to be patched, and the archive for its build and language is a sound
  file, the client is sent the request to update and an offer with the file's size and
  the digest of its content; whether it then accepts or resumes at an offset inside the
  file, exactly one transfer starts, its thread ends without closing the connection, and
  the packets it sent contain the archive's bytes from that offset on.  The session is not
  authenticated at any point.
\<close>
theorem outdated_client_gets_patch:
  assumes "proof_matches x lp s"
    and "ShouldPatch (patchPolicy s) (client_build s) (FindBuildInfo (client_build s) \<noteq> None)"
    and "m_sender s" and "\<not> m_closed s" and "transfers s = []"
    and "files w (patch_path (client_build s) (localizationName s)) = Some f" and "sound_file f"
    and "f_fault f = None" and "length (f_content f) < 2 ^ 63"
    and "flow = None \<or> flow = Some (\<lambda>_. True)"
    and "req = encode XferAcceptFrame \<and> off = 0 \<or>
         req = encode (XferResumeFrame (le_bytes 8 off)) \<and> off \<le> length (f_content f)"
  shows "\<exists>s1 w1 s2 j t.
    logon_proof_body x lp s w = Inr (True, s1, w1) \<and> status s1 = STATUS_PATCH \<and>
    sent s1 = sent s @ [[1, result_code WOW_FAIL_VERSION_UPDATE],
      [cmd_code CMD_XFER_INITIATE, 5] @ of_string ''Patch'' @ le_bytes 8 (length (f_content f)) @
      take 16 (md5 x (chunks 4096 (f_content f)))] \<and>
    run_frame x req s1 w1 = Inr (True, s2, w1) \<and> status s2 = STATUS_CLOSED \<and> \<not> m_closed s2 \<and>
    transfers s2 = [j] \<and> job_sender j \<and> job_closer j = m_closer s \<and> job_flow j = m_flowControl s \<and>
    xfer_thread flow (job_artifact j) = Some t \<and> t_end t = EndOfStream \<and> \<not> t_closed t \<and>
    receive (length (t_packets t)) (concat (t_packets t)) = Some (drop off (f_content f))"
proof -
  let ?path = "patch_path (client_build s) (localizationName s)"
  obtain a where a: "Open (md5 x) (files w) ?path = Some a"
    using Open_sound [of "files w" ?path f "md5 x", OF assms(6,7)] by blast
  note res = Open_result [OF assms(6) a]
  obtain K where K: "logon_proof_body x lp s w = Inr (OfferPatch x (s\<lparr>status := STATUS_CLOSED, srp_K := K\<rparr>) w)"
    using logon_proof_patch [OF assms(1,2)] by blast
  define s1 where "s1 = s\<lparr>srp_K := K, m_patchArtifact := Some a, status := STATUS_PATCH,
    m_authDeadline := deactivate (m_authDeadline s),
    sent := sent s @ [[cmd_code CMD_AUTH_LOGON_PROOF, result_code WOW_FAIL_VERSION_UPDATE], xfer_init a]\<rparr>"
  have offer: "logon_proof_body x lp s w = Inr (True, s1, w)"
    using OfferPatch_sound [of x w "s\<lparr>status := STATUS_CLOSED, srp_K := K\<rparr>" a] a assms(3,4)
    by (simp add: K s1_def)
  have off: "off \<le> length (f_content f)" using assms(11) by auto
  have o64: "off < 2 ^ 64" using off assms(9) by simp
  then have un: "unat (word_of_nat off :: uint64) = off" by (simp add: unat_of_nat)
  define j where "j a' = \<lparr>job_sender = m_sender s, job_closer = m_closer s, job_flow = m_flowControl s, job_artifact = a'\<rparr>" for a'
  obtain a' t where t: "StartPatchTransfer (m_sender s) (m_closer s) (m_flowControl s) (Some a) (word_of_nat off) = Some (j a')"
      "xfer_thread flow a' = Some t"
      "t_end t = EndOfStream" "\<not> t_closed t"
      "receive (length (t_packets t)) (concat (t_packets t)) = Some (drop off (f_content f))"
    using transfer_delivers_archive [OF assms(6,8,9) a, of "word_of_nat off" flow "m_sender s" "m_closer s" "m_flowControl s"]
      off assms(10) by (auto simp: un j_def)
  have "le_val (le_bytes 8 off) = off" using o64 by (simp add: le_val_le_bytes)
  then have req: "run_frame x req s1 w = xfer_body (word_of_nat off) s1 w"
    using assms(11) run_frame_xfer(1) [of x s1 w] run_frame_xfer(2) [of "le_bytes 8 off" x s1 w] by auto
  define s2 where "s2 = s1\<lparr>status := STATUS_CLOSED, m_patchArtifact := None, transfers := transfers s1 @ [j a']\<rparr>"
  have run: "run_frame x req s1 w = Inr (True, s2, w)"
    unfolding req s2_def by (rule xfer_body_starts) (use t(1) in \<open>simp_all add: s1_def\<close>)
  have "unat (m_size a) = length (f_content f)" using assms(9) by (simp add: res(2) unat_of_nat)
  then have sent: "sent s1 = sent s @ [[1, result_code WOW_FAIL_VERSION_UPDATE],
      [cmd_code CMD_XFER_INITIATE, 5] @ of_string ''Patch'' @ le_bytes 8 (length (f_content f)) @
      take 16 (md5 x (chunks 4096 (f_content f)))]"
    by (simp add: s1_def xfer_init_def res(3) DigestChunkSize_def)
  have "status s1 = STATUS_PATCH" "status s2 = STATUS_CLOSED" "\<not> m_closed s2" "transfers s2 = [j a']"
    using assms(4,5) by (simp_all add: s1_def s2_def)
  moreover have "job_sender (j a')" "job_closer (j a') = m_closer s" "job_flow (j a') = m_flowControl s"
    "job_artifact (j a') = a'" using assms(3) by (simp_all add: j_def)
  ultimately show ?thesis using offer sent run t(2-5) by (metis (no_types))
qed

section \<open>A concrete patch\<close>

definition patch_ext :: "(nat, unit) ext" where
  "patch_ext = example_ext id (\<lambda>_. None) []"

definition patch_world :: "unit world" where
  "patch_world = example_world\<lparr>files := (\<lambda>_. Some (example_file [1, 2, 3]))\<rparr>"

definition patch_sock :: "nat sock" where
  "patch_sock = (example_sock STATUS_LOGON_PROOF)\<lparr>patchPolicy := default_PatchPolicy\<lparr>m_enabled := True\<rparr>\<rparr>"

text \<open>The right proof for the public number 5.\<close>

definition patch_proof :: bytes where
  "patch_proof = 1 # le_bytes 32 5 @
     AsByteArray patch_ext (client_proof patch_ext (srp_N patch_sock) (srp_g patch_sock) (login patch_sock)
       (srp_s patch_sock) 5 (srp_B patch_sock) (session_key patch_ext (server_secret patch_ext patch_sock 5))) 20 @
     replicate 22 0"

lemma patch_proof_matches: "proof_matches patch_ext patch_proof patch_sock"
proof -
  have len: "length (AsByteArray patch_ext v 20) = 20" for v
    by (simp add: AsByteArray_def patch_ext_def example_ext_def)
  have A: "bn_SetBinary patch_ext (subbytes 1 32 patch_proof) = 5"
    by (simp add: patch_proof_def subbytes_def patch_ext_def example_ext_def le_val_le_bytes)
  have "srp_N patch_sock = prime_N"
    by (simp add: patch_sock_def example_sock_def mk_AuthSocket_def example_ext_def prime_N_def)
  moreover have "5 < prime_N" by (simp add: prime_N_def hex_val_def srp_prime_def hex_digit_def)
  ultimately have "\<not> bn_isZero patch_ext (bn_mod patch_ext 5 (srp_N patch_sock))"
    by (simp add: patch_ext_def example_ext_def)
  moreover have "subbytes 33 20 patch_proof =
      AsByteArray patch_ext (client_proof patch_ext (srp_N patch_sock) (srp_g patch_sock) (login patch_sock)
       (srp_s patch_sock) 5 (srp_B patch_sock) (session_key patch_ext (server_secret patch_ext patch_sock 5))) 20"
    unfolding patch_proof_def by (simp add: subbytes_def len)
  ultimately show ?thesis unfolding proof_matches_def Let_def A by simp
qed

theorem outdated_client_gets_patch_witness:
  "\<exists>s1 w1 s2 j t. logon_proof_body patch_ext patch_proof patch_sock patch_world = Inr (True, s1, w1) \<and>
     run_frame patch_ext (encode (XferResumeFrame (le_bytes 8 1))) s1 w1 = Inr (True, s2, w1) \<and>
     transfers s2 = [j] \<and> xfer_thread None (job_artifact j) = Some t \<and>
     receive (length (t_packets t)) (concat (t_packets t)) = Some [2, 3]"
proof -
  have s: "m_sender patch_sock" "\<not> m_closed patch_sock" "transfers patch_sock = []" "client_build patch_sock = 0"
    by (simp_all add: patch_sock_def) (simp_all add: example_sock_def mk_AuthSocket_def)
  have "FindBuildInfo 0 = None" by code_simp
  then have sp: "ShouldPatch (patchPolicy patch_sock) (client_build patch_sock)
      (FindBuildInfo (client_build patch_sock) \<noteq> None)"
    by (simp add: s(4)) (simp add: ShouldPatch_def patch_sock_def)
  have f: "files patch_world (patch_path (client_build patch_sock) (localizationName patch_sock)) =
      Some (example_file [1, 2, 3])" "sound_file (example_file [1, 2, 3])" "f_fault (example_file [1, 2, 3]) = None"
      "length (f_content (example_file [1, 2, 3])) < 2 ^ 63"
    by (simp_all add: patch_world_def example_file_def sound_file_def)
  have fl: "None = (None :: (nat \<Rightarrow> bool) option) \<or> None = Some (\<lambda>_ :: nat. True)" by simp
  have req: "encode (XferResumeFrame (le_bytes 8 1)) = encode XferAcceptFrame \<and> (1 :: nat) = 0 \<or>
      encode (XferResumeFrame (le_bytes 8 1)) = encode (XferResumeFrame (le_bytes 8 1)) \<and>
      1 \<le> length (f_content (example_file [1, 2, 3]))" by (simp add: example_file_def)
  have d: "drop 1 (f_content (example_file [1, 2, 3])) = [2, 3]" by (simp add: example_file_def)
  from outdated_client_gets_patch [OF patch_proof_matches sp s(1-3) f fl req] show ?thesis
    unfolding d by blast
qed

end
