(* ===== verification/RealmListPacket.thy ===== *)
theory RealmListPacket
  imports SessionSteps "HOL-Library.Monad_Syntax"
begin

text \<open>
  What a client reads in the answer to a realm list request: a decoder of the two packet
  families, written from the client's point of view, and the proof that it gets back
  exactly the realms the server meant to show.
\<close>

section \<open>Reading a packet\<close>

definition take_le :: "nat \<Rightarrow> bytes \<Rightarrow> (nat \<times> bytes) option" where
  "take_le n bs = (if length bs < n then None else Some (le_val (take n bs), drop n bs))"

definition take_cstr :: "bytes \<Rightarrow> (bytes \<times> bytes) option" where
  "take_cstr bs =
     (if 0 \<in> set bs then Some (takeWhile (\<lambda>b. b \<noteq> 0) bs, tl (dropWhile (\<lambda>b. b \<noteq> 0) bs)) else None)"

text \<open>\<open>sh_version\<close>: major, minor, bugfix and build, when the entry names them.\<close>

record shown_realm =
  sh_icon :: nat
  sh_lock :: nat
  sh_flags :: nat
  sh_name :: bytes
  sh_address :: bytes
  sh_population :: nat
  sh_chars :: nat
  sh_timezone :: nat
  sh_version :: "(nat \<times> nat \<times> nat \<times> nat) option"

definition decode_vanilla :: "bytes \<Rightarrow> (shown_realm \<times> bytes) option" where
  "decode_vanilla bs = do {
     (ic, bs) \<leftarrow> take_le 4 bs;
     (fl, bs) \<leftarrow> take_le 1 bs;
     (nm, bs) \<leftarrow> take_cstr bs;
     (ad, bs) \<leftarrow> take_cstr bs;
     (po, bs) \<leftarrow> take_le 4 bs;
     (ch, bs) \<leftarrow> take_le 1 bs;
     (tz, bs) \<leftarrow> take_le 1 bs;
     (_, bs) \<leftarrow> take_le 1 bs;
     Some (\<lparr>sh_icon = ic, sh_lock = 0, sh_flags = fl, sh_name = nm, sh_address = ad, sh_population = po,
            sh_chars = ch, sh_timezone = tz, sh_version = None\<rparr>, bs)
   }"

definition decode_version :: "nat \<Rightarrow> bytes \<Rightarrow> ((nat \<times> nat \<times> nat \<times> nat) option \<times> bytes) option" where
  "decode_version fl bs =
     (if (word_of_nat fl :: uint8) AND REALM_FLAG_SPECIFYBUILD = 0 then Some (None, bs)
      else do {
        (ma, bs) \<leftarrow> take_le 1 bs;
        (mi, bs) \<leftarrow> take_le 1 bs;
        (bu, bs) \<leftarrow> take_le 1 bs;
        (bd, bs) \<leftarrow> take_le 2 bs;
        Some (Some (ma, mi, bu, bd), bs)
      })"

definition decode_modern :: "bytes \<Rightarrow> (shown_realm \<times> bytes) option" where
  "decode_modern bs = do {
     (ic, bs) \<leftarrow> take_le 1 bs;
     (lo, bs) \<leftarrow> take_le 1 bs;
     (fl, bs) \<leftarrow> take_le 1 bs;
     (nm, bs) \<leftarrow> take_cstr bs;
     (ad, bs) \<leftarrow> take_cstr bs;
     (po, bs) \<leftarrow> take_le 4 bs;
     (ch, bs) \<leftarrow> take_le 1 bs;
     (tz, bs) \<leftarrow> take_le 1 bs;
     (_, bs) \<leftarrow> take_le 1 bs;
     (ve, bs) \<leftarrow> decode_version fl bs;
     Some (\<lparr>sh_icon = ic, sh_lock = lo, sh_flags = fl, sh_name = nm, sh_address = ad, sh_population = po,
            sh_chars = ch, sh_timezone = tz, sh_version = ve\<rparr>, bs)
   }"

primrec decode_many :: "(bytes \<Rightarrow> ('a \<times> bytes) option) \<Rightarrow> nat \<Rightarrow> bytes \<Rightarrow> ('a list \<times> bytes) option" where
  "decode_many dec 0 bs = Some ([], bs)"
| "decode_many dec (Suc n) bs = do {
     (y, bs) \<leftarrow> dec bs;
     (ys, bs) \<leftarrow> decode_many dec n bs;
     Some (y # ys, bs)
   }"

text \<open>
  The whole packet: command, size of the rest, four zero bytes, the number of realms (one
  or two bytes), the realms, and two bytes at the end.
\<close>

definition decode_realm_list :: "bool \<Rightarrow> bytes \<Rightarrow> shown_realm list option" where
  "decode_realm_list vanilla bs = do {
     (cmd, bs) \<leftarrow> take_le 1 bs;
     (len, bs) \<leftarrow> take_le 2 bs;
     let total = length bs;
     (zero, bs) \<leftarrow> take_le 4 bs;
     (n, bs) \<leftarrow> take_le (if vanilla then 1 else 2) bs;
     (ys, bs) \<leftarrow> decode_many (if vanilla then decode_vanilla else decode_modern) n bs;
     if cmd = 16 \<and> len = total \<and> zero = 0 \<and> length bs = 2 then Some ys else None
   }"

lemma take_le_bytes [simp]: "v < 256 ^ n \<Longrightarrow> take_le n (le_bytes n v @ bs) = Some (v, bs)"
  by (simp add: take_le_def le_val_le_bytes)

lemma take_le_byte [simp]: "take_le (Suc 0) (b # bs) = Some (unat b, bs)"
  by (simp add: take_le_def)

lemma take_cstr_string [simp]:
  assumes "CHR 0x00 \<notin> set s"
  shows "take_cstr (of_string s @ 0 # bs) = Some (of_string s, bs)"
proof -
  have z: "chr 0 = CHR 0x00" by code_simp
  have "c = CHR 0x00" if "ord c = 0" for c using chr_ord [of c] that z by simp
  then have "0 \<notin> set (of_string s)" using assms by (auto simp: of_string_def)
  then have "takeWhile (\<lambda>b. b \<noteq> 0) (of_string s @ 0 # bs) = of_string s"
    "dropWhile (\<lambda>b. b \<noteq> 0) (of_string s @ 0 # bs) = 0 # bs"
    by (auto simp: takeWhile_append dropWhile_append takeWhile_eq_all_conv)
  then show ?thesis by (simp add: take_cstr_def)
qed

section \<open>What the server means to show\<close>

definition shown_chars :: "('bn, 'db) ext \<Rightarrow> 'db \<Rightarrow> uint32 \<Rightarrow> Realm \<Rightarrow> nat" where
  "shown_chars x d acctid realm =
     (case db_PQuery x d (sql_numchars, [SqlD (sint (m_ID realm)), SqlU acctid]) of
        Some flds \<Rightarrow> unat (GetUInt8 (flds ! 0)) | None \<Rightarrow> 0)"

text \<open>A 1.12 client sees a realm it must not enter as offline, a later one as locked.\<close>

definition shown_vanilla :: "('bn, 'db) ext \<Rightarrow> 'bn sock \<Rightarrow> 'db \<Rightarrow> uint32 \<Rightarrow> Realm \<Rightarrow> shown_realm" where
  "shown_vanilla x s d acctid realm =
     \<lparr>sh_icon = unat (icon realm), sh_lock = 0,
      sh_flags = unat (if ucast (client_build s) \<in> realmbuilds realm \<and>
                          allowedSecurityLevel realm \<le> accountSecurityLevel s
                       then realmflags realm else realmflags realm OR REALM_FLAG_OFFLINE),
      sh_name = of_string (vanilla_name s realm),
      sh_address = of_string (shown_address x realm (ParseClientIPv4 x (remote_address s))),
      sh_population = unat (populationLevel realm), sh_chars = shown_chars x d acctid realm,
      sh_timezone = unat (timezone realm), sh_version = None\<rparr>"

definition shown_modern :: "('bn, 'db) ext \<Rightarrow> 'bn sock \<Rightarrow> 'db \<Rightarrow> uint32 \<Rightarrow> Realm \<Rightarrow> shown_realm" where
  "shown_modern x s d acctid realm =
     (let info = shown_build_info realm (client_build s) in
     \<lparr>sh_icon = unat (icon realm),
      sh_lock = (if allowedSecurityLevel realm \<le> accountSecurityLevel s then 0 else 1),
      sh_flags = unat (if ucast (client_build s) \<in> realmbuilds realm
                       then realmflags realm else realmflags realm OR REALM_FLAG_OFFLINE),
      sh_name = of_string (realm_name realm),
      sh_address = of_string (shown_address x realm (ParseClientIPv4 x (remote_address s))),
      sh_population = unat (populationLevel realm), sh_chars = shown_chars x d acctid realm,
      sh_timezone = unat (timezone realm),
      sh_version = (if realmflags realm AND REALM_FLAG_SPECIFYBUILD = 0 then None
                    else Some (unat (word_of_int (major_version info) :: uint8),
                               unat (word_of_int (minor_version info) :: uint8),
                               unat (word_of_int (bugfix_version info) :: uint8), unat (client_build s)))\<rparr>)"

text \<open>The texts of an entry can be sent as NUL-terminated strings.\<close>

definition sendable :: "('bn, 'db) ext \<Rightarrow> 'bn sock \<Rightarrow> Realm \<Rightarrow> bool" where
  "sendable x s realm \<longleftrightarrow>
     CHR 0x00 \<notin> set (realm_name realm) \<and>
     CHR 0x00 \<notin> set (shown_address x realm (ParseClientIPv4 x (remote_address s)))"

lemma AmountOfCharacters_eq:
  "unat (fst (AmountOfCharacters x realm acctid w)) = shown_chars x (login_db w) acctid realm"
  "login_db (snd (AmountOfCharacters x realm acctid w)) = login_db w"
  by (simp_all add: AmountOfCharacters_def shown_chars_def PQuery_def split: option.splits)

lemma unat32_less [simp]: "unat (v :: uint32) < 4294967296"
  using unsigned_less [of v] by simp

lemma unat8_less [simp]: "unat (v :: uint8) < 4294967296"
  by (rule less_trans [OF unat_byte_less]) simp

lemma unat_ucast8: "unat (ucast (v :: uint8) :: uint32) = unat v"
  by (simp add: unsigned_ucast_eq take_bit_nat_eq_self)

lemma digits_no_nul [simp]: "CHR 0x00 \<notin> set (to_decimal n)"
  using to_decimal_digits [of n] by (auto simp: list_all_iff isdigit_def)

lemma vanilla_name_no_nul: "CHR 0x00 \<notin> set (realm_name realm) \<Longrightarrow> CHR 0x00 \<notin> set (vanilla_name s realm)"
  by (auto simp: vanilla_name_def version_suffix_def percent_u_def dest!: in_set_takeD)

lemma decode_vanilla_entry:
  assumes "ByteBuffer_laws x" and "sendable x s realm"
  shows "decode_vanilla (fst (vanilla_entry x s acctid (ParseClientIPv4 x (remote_address s)) realm w) @ bs) =
    Some (shown_vanilla x s (login_db w) acctid realm, bs)"
  using assms(2) vanilla_name_no_nul [of realm s] AmountOfCharacters_eq(1) [of x realm acctid w]
    ByteBuffer_lawsD [OF assms(1)]
  by (auto simp: vanilla_entry_def split_beta decode_vanilla_def sendable_def shown_vanilla_def vanilla_flags_def
      ok_build_def unat_ucast8 not_less)

lemma decode_modern_entry:
  assumes "ByteBuffer_laws x" and "sendable x s realm"
  shows "decode_modern (fst (modern_entry x s acctid (ParseClientIPv4 x (remote_address s)) realm w) @ bs) =
    Some (shown_modern x s (login_db w) acctid realm, bs)"
proof -
  have and_flags: "REALM_FLAG_OFFLINE AND REALM_FLAG_SPECIFYBUILD = (0 :: uint8)" by code_simp
  have fl: "modern_flags s realm AND REALM_FLAG_SPECIFYBUILD = 0 \<longleftrightarrow> realmflags realm AND REALM_FLAG_SPECIFYBUILD = 0"
    using and_flags by (simp add: modern_flags_def bit.conj_disj_distrib2)
  have "unat (client_build s) < 256 ^ 2" using unsigned_less [of "client_build s"] by simp
  with assms(2) AmountOfCharacters_eq(1) [of x realm acctid w] ByteBuffer_lawsD [OF assms(1)] fl show ?thesis
    by (auto simp: modern_entry_def split_beta decode_modern_def decode_version_def sendable_def shown_modern_def
      Let_def ok_build_def not_less modern_flags_def)
qed

lemma entry_db:
  "login_db (snd (vanilla_entry x s acctid a realm w)) = login_db w"
  "login_db (snd (modern_entry x s acctid a realm w)) = login_db w"
  by (simp_all add: vanilla_entry_def modern_entry_def split_beta Let_def AmountOfCharacters_eq)

lemma decode_many_entries:
  assumes "\<And>r w bs. r \<in> set rs \<Longrightarrow> login_db w = d \<Longrightarrow> dec (fst (entry r w) @ bs) = Some (sh r, bs)"
    and "\<And>r w. login_db (snd (entry r w)) = login_db w" and "login_db w = d"
  shows "decode_many dec (length rs) (fst (write_entries entry rs w) @ bs) = Some (map sh rs, bs)"
  using assms(1,3)
proof (induction rs arbitrary: w)
  case (Cons r rs)
  then show ?case using assms(2) by (simp add: split_beta)
qed simp

text \<open>The body of the packet, before the header is put in front.\<close>

lemma LoadRealmlist_decodes:
  assumes "ByteBuffer_laws x"
    and "rs = view_list (GetRealmsForBuild (realm_list w) (ucast (client_build s)))"
    and "\<forall>r \<in> set rs. sendable x s r"
    and "length rs < (if is_vanilla_build (client_build s) then 256 else 65536)"
    and "van = is_vanilla_build (client_build s)"
    and "sh = (if van then shown_vanilla x s (login_db w) acctid else shown_modern x s (login_db w) acctid)"
  shows "\<exists>body. fst (LoadRealmlist x acctid s w) =
      le_bytes 4 0 @ le_bytes (if van then 1 else 2) (length rs) @ body \<and>
    decode_many (if van then decode_vanilla else decode_modern) (length rs) body =
      Some (map sh rs, le_bytes 2 (if van then 2 else 16))"
proof -
  let ?a = "ParseClientIPv4 x (remote_address s)"
  note bb = ByteBuffer_lawsD [OF assms(1)]
  have n: "view_size (GetRealmsForBuild (realm_list w) (ucast (client_build s))) = length rs"
    by (simp add: assms(2) view_list_def view_size_def)
  show ?thesis
  proof (cases van)
    case True
    have "decode_many decode_vanilla (length rs) (fst (write_entries (vanilla_entry x s acctid ?a) rs w) @ le_bytes 2 2) =
        Some (map (shown_vanilla x s (login_db w) acctid) rs, le_bytes 2 2)"
      by (rule decode_many_entries [where d = "login_db w"])
        (use assms(3) decode_vanilla_entry [OF assms(1)] entry_db in auto)
    moreover have "[ucast (word_of_nat (length rs) :: uint32)] = le_bytes 1 (length rs)"
      using assms(4,5) True by (simp add: unsigned_of_nat take_bit_nat_eq_self)
    ultimately show ?thesis using True assms(5,6)
      by (auto simp: LoadRealmlist_def Let_def n assms(2) [symmetric] split_beta bb)
  next
    case False
    have "decode_many decode_modern (length rs) (fst (write_entries (modern_entry x s acctid ?a) rs w) @ le_bytes 2 16) =
        Some (map (shown_modern x s (login_db w) acctid) rs, le_bytes 2 16)"
      by (rule decode_many_entries [where d = "login_db w"])
        (use assms(3) decode_modern_entry [OF assms(1)] entry_db in auto)
    moreover have "unat (ucast (word_of_nat (length rs) :: uint32) :: uint16) = length rs"
      using assms(4,5) False by (simp add: unsigned_ucast_eq unsigned_of_nat take_bit_nat_eq_self)
    ultimately show ?thesis using False assms(5,6)
      by (auto simp: LoadRealmlist_def Let_def n assms(2) [symmetric] split_beta bb)
  qed
qed

section \<open>Properties\<close>

text \<open>
  C15: a client reads the realm list the server means to send.  For an authenticated session
  whose account exists, the handler refreshes the list if it is due and sends one packet;
  if the names and addresses can be sent as C strings, the number of realms fits its
  field (one byte for 1.12 clients, two for later ones) and the size fits sixteen bits, a
  client that decodes the packet gets exactly the realms of its version family in order:
  icon, flags (offline when the build is not accepted, and for 1.12 clients when the account
  may not enter), lock, name, address chosen for the client, population, characters,
  time zone, and the version when the realm asks for it.
\<close>
theorem realm_list_packet_decodes:
  assumes "ByteBuffer_laws x" and "m_sender s" and "\<not> m_closed s"
    and "db_PQuery x (login_db w) (sql_account_id, [SqlS (c_string (safelogin s))]) = Some acct"
    and "rs = view_list (GetRealmsForBuild (UpdateIfNeed x (login_db w) (wall_time w) (realm_list w))
           (ucast (client_build s)))"
    and "\<forall>r \<in> set rs. sendable x s r"
    and "length rs < (if is_vanilla_build (client_build s) then 256 else 65536)"
  shows "\<exists>s' w' pkt. realm_list_body x s w = Inr (True, s', w') \<and> sent s' = sent s @ [pkt] \<and>
    (length pkt < 65539 \<longrightarrow>
       decode_realm_list (is_vanilla_build (client_build s)) pkt =
         Some (map (if is_vanilla_build (client_build s) then shown_vanilla x s (login_db w) (GetUInt32 (acct ! 0))
                    else shown_modern x s (login_db w) (GetUInt32 (acct ! 0))) rs))"
proof -
  let ?van = "is_vanilla_build (client_build s)" and ?id = "GetUInt32 (acct ! 0)"
  define w1 where "w1 = w\<lparr>sql_log := sql_log w @ [(sql_account_id, [SqlS (c_string (safelogin s))])],
    realm_list := UpdateIfNeed x (login_db w) (wall_time w) (realm_list w)\<rparr>"
  define pkt where "pkt = fst (LoadRealmlist x ?id s w1)"
  note bb = ByteBuffer_lawsD [OF assms(1)]
  have w1: "login_db w1 = login_db w" by (simp add: w1_def)
  have rs: "rs = view_list (GetRealmsForBuild (realm_list w1) (ucast (client_build s)))"
    by (simp add: assms(5) w1_def)
  obtain body where b: "pkt = le_bytes 4 0 @ le_bytes (if ?van then 1 else 2) (length rs) @ body"
      "decode_many (if ?van then decode_vanilla else decode_modern) (length rs) body =
        Some (map (if ?van then shown_vanilla x s (login_db w) ?id else shown_modern x s (login_db w) ?id) rs,
          le_bytes 2 (if ?van then 2 else 16))"
    using LoadRealmlist_decodes [OF assms(1) rs assms(6,7) refl refl, of ?id] unfolding pkt_def w1 by blast
  let ?hdr = "16 # le_bytes 2 (unat (word_of_nat (length pkt) :: uint16)) @ pkt"
  have "realm_list_body x s w =
      Inr (True, s\<lparr>sent := sent s @ [?hdr]\<rparr>, snd (LoadRealmlist x ?id s w1))"
    using assms(2-4)
    by (simp add: realm_list_body_def PQuery_def Let_def split_beta bb send_def pkt_def w1_def)
  moreover have "decode_realm_list ?van ?hdr =
      Some (map (if ?van then shown_vanilla x s (login_db w) ?id else shown_modern x s (login_db w) ?id) rs)"
    if "length ?hdr < 65539"
  proof -
    have l: "unat (word_of_nat (length pkt) :: uint16) = length pkt"
      using that by (simp add: unsigned_of_nat take_bit_nat_eq_self)
    have "length pkt < 256 ^ 2" using that by simp
    then show ?thesis unfolding l decode_realm_list_def
      using b assms(7) by (cases ?van) (simp_all add: unat_word_of_nat_byte)
  qed
  ultimately show ?thesis by (auto intro!: exI [of _ ?hdr])
qed

text \<open>
  Without the bound on their number the count is wrong: the entries of all realms are
  written, but for 256 realms a 1.12 client is told that there are none.
\<close>

lemma vanilla_count_wraps:
  assumes "ByteBuffer_laws x" and "is_vanilla_build (client_build s)"
    and "length (view_list (GetRealmsForBuild (realm_list w) (ucast (client_build s)))) = 256"
  shows "fst (LoadRealmlist x acctid s w) ! 4 = 0"
proof -
  have "view_size (GetRealmsForBuild (realm_list w) (ucast (client_build s))) = 256"
    using assms(3) by (simp add: view_list_def view_size_def)
  then show ?thesis using ByteBuffer_lawsD [OF assms(1)] assms(2)
    by (simp add: LoadRealmlist_def Let_def split_beta nth_append)
qed

section \<open>A concrete list\<close>

definition listing_ext :: "(nat, unit) ext" where
  "listing_ext = example_ext id (\<lambda>_. Some [example_field 1 []]) [example_row 1 ''A'' ''5875'']"

definition listing_world :: "unit world" where
  "listing_world = example_world\<lparr>realm_list := Initialize listing_ext () 0 20 mk_RealmList\<rparr>"

definition listing_sock :: "nat sock" where
  "listing_sock = (example_sock STATUS_AUTHED)\<lparr>client_build := 5875\<rparr>"

lemma listing_view:
  "view_list (GetRealmsForBuild (UpdateIfNeed listing_ext () 0 (realm_list listing_world)) 5875) =
     [row_realm listing_ext (example_row 1 ''A'' ''5875'')]"
proof -
  have q: "db_Query listing_ext () realmlist_query = [example_row 1 ''A'' ''5875'']"
    by (simp add: listing_ext_def example_ext_def)
  have "row_builds listing_ext (example_row 1 ''A'' ''5875'') = {5875}"
    by (simp add: row_builds_def listing_ext_def example_ext_def example_row_def example_field_def tokens.simps
        isspace_def strtoul_eval)
  moreover have "BelongsToVersion 5875 = REALM_VERSION_VANILLA" by code_simp
  ultimately have v: "row_version listing_ext (example_row 1 ''A'' ''5875'') = Some (BelongsToVersion 5875)"
    by (simp add: row_version_def first_build_def)
  have "GetRealmsForBuild (UpdateIfNeed listing_ext () 0 (realm_list listing_world)) 5875 =
      mk_RealmListView (BuildSnapshot listing_ext ()) (BelongsToVersion 5875)"
    by (simp add: GetRealmsForBuild_UpdateIfNeed) (simp add: GetRealmsForBuild_def listing_world_def Initialize_def)
  with view_list_rows [of "[example_row 1 ''A'' ''5875'']" listing_ext "BelongsToVersion 5875"] v show ?thesis
    by (simp add: BuildSnapshot_def q)
qed

lemma listing_sendable: "sendable listing_ext listing_sock (row_realm listing_ext (example_row 1 ''A'' ''5875''))"
  by (simp add: sendable_def shown_address_def listing_ext_def example_ext_def row_realm_def row_name_def
      example_row_def example_field_def)

lemma listing_size: "length (fst (LoadRealmlist listing_ext n listing_sock w)) < 65536"
  if "view_list (GetRealmsForBuild (realm_list w) 5875) = [row_realm listing_ext (example_row 1 ''A'' ''5875'')]"
proof -
  let ?r = "row_realm listing_ext (example_row 1 ''A'' ''5875'')"
  have "length (version_suffix i) \<le> 19" for i by (simp only: version_suffix_def length_take min.cobounded2)
  moreover have "realm_name ?r = ''A''" by (simp add: row_realm_def row_name_def example_row_def example_field_def)
  ultimately have nm: "length (vanilla_name listing_sock ?r) \<le> 20" by (simp add: vanilla_name_def)
  have len: "length (GetAddressString listing_ext a p) \<le> 21" for a p
  proof -
    have "unat p < 65536" using unsigned_less [of p] by simp
    then have "length (to_decimal (unat a)) \<le> 10" "length (to_decimal (unat p)) \<le> 10"
      using length_to_decimal [of "unat a" 9] unat32_less [of a] length_to_decimal [of "unat p" 9] by simp_all
    then show ?thesis by (simp add: listing_ext_def example_ext_def)
  qed
  have ad: "length (shown_address listing_ext ?r c) \<le> 21" for c unfolding shown_address_def by (rule len)
  show ?thesis using nm ad [of "ParseClientIPv4 listing_ext (remote_address listing_sock)"]
    ByteBuffer_lawsD [of listing_ext] that
    by (simp add: LoadRealmlist_def listing_sock_def is_vanilla_build_def Let_def split_beta vanilla_entry_def
        listing_ext_def)
qed

theorem realm_list_packet_decodes_witness:
  "\<exists>s' w' pkt. realm_list_body listing_ext listing_sock listing_world = Inr (True, s', w') \<and>
     sent s' = sent listing_sock @ [pkt] \<and>
     decode_realm_list True pkt =
       Some [shown_vanilla listing_ext listing_sock () 1 (row_realm listing_ext (example_row 1 ''A'' ''5875''))]"
proof -
  let ?r = "row_realm listing_ext (example_row 1 ''A'' ''5875'')"
  have s: "m_sender listing_sock" "\<not> m_closed listing_sock" "is_vanilla_build (client_build listing_sock)"
    by (simp_all add: listing_sock_def is_vanilla_build_def)
  have q: "db_PQuery listing_ext (login_db listing_world) (sql_account_id, [SqlS (c_string (safelogin listing_sock))]) =
      Some [example_field 1 []]" by (simp add: listing_ext_def example_ext_def)
  have rs: "[?r] = view_list (GetRealmsForBuild (UpdateIfNeed listing_ext (login_db listing_world)
      (wall_time listing_world) (realm_list listing_world)) (ucast (client_build listing_sock)))"
    using listing_view by (simp add: listing_world_def listing_sock_def example_world_def)
  have send: "\<forall>r \<in> set [?r]. sendable listing_ext listing_sock r" using listing_sendable by simp
  have n: "length [?r] < (if is_vanilla_build (client_build listing_sock) then 256 else 65536)" by simp
  have law: "ByteBuffer_laws listing_ext" by (simp add: listing_ext_def)
  from realm_list_packet_decodes [OF law s(1,2) q rs send n] s(3) obtain s' w' pkt
    where r: "realm_list_body listing_ext listing_sock listing_world = Inr (True, s', w')"
      "sent s' = sent listing_sock @ [pkt]"
      "length pkt < 65539 \<longrightarrow> decode_realm_list True pkt = Some [shown_vanilla listing_ext listing_sock () 1 ?r]"
    by (auto simp: example_field_def)
  have "length pkt < 65539"
    using r(1,2) listing_size [of "listing_world\<lparr>sql_log := l, realm_list := UpdateIfNeed listing_ext () 0
      (realm_list listing_world)\<rparr>" 1 for l] listing_view s
    by (auto simp: realm_list_body_def PQuery_def q [simplified] Let_def split_beta send_def example_field_def
        listing_world_def example_world_def ByteBuffer_lawsD [OF law])
  with r show ?thesis by blast
qed

end
