(* ===== verification/WireLayout.thy ===== *)
theory WireLayout
  imports Authentication
begin

text \<open>
  The packed structures of \<open>src/Auth/AuthSocket.cpp\<close> (\<open>#pragma pack(1)\<close>): the fields of
  each in order with their sizes.  The handlers of the model read bytes at fixed offsets
  of a packet; here they are run on packets written by the structures, together with the
  compile-time assertions on the sizes and the offsets the frame inspector uses.
\<close>

section \<open>Packed structures\<close>

type_synonym layout = "(string \<times> nat) list"

definition sizeof :: "layout \<Rightarrow> nat" where
  "sizeof l = sum_list (map snd l)"

primrec offsetof :: "layout \<Rightarrow> string \<Rightarrow> nat" where
  "offsetof [] nm = 0"
| "offsetof (f # fs) nm = (if fst f = nm then 0 else snd f + offsetof fs nm)"

definition member :: "layout \<Rightarrow> string \<Rightarrow> bytes \<Rightarrow> bytes" where
  "member l nm buf = subbytes (offsetof l nm) (the (map_of l nm)) buf"

definition sAuthLogonChallenge_C :: layout where
  "sAuthLogonChallenge_C =
     [(''cmd'', 1), (''error'', 1), (''size'', 2), (''gamename'', 4), (''version1'', 1), (''version2'', 1),
      (''version3'', 1), (''build'', 2), (''platform'', 4), (''os'', 4), (''country'', 4),
      (''timezone_bias'', 4), (''ip'', 4), (''I_len'', 1), (''I'', 1)]"

definition sAuthLogonProof_C :: layout where
  "sAuthLogonProof_C =
     [(''cmd'', 1), (''A'', 32), (''M1'', 20), (''crc_hash'', 20), (''number_of_keys'', 1), (''securityFlags'', 1)]"

definition sAuthLogonProof_S :: layout where
  "sAuthLogonProof_S =
     [(''cmd'', 1), (''error'', 1), (''M2'', 20), (''accountFlags'', 4), (''surveyId'', 4), (''unkFlags'', 2)]"

definition sAuthLogonProof_S_BUILD_6005 :: layout where
  "sAuthLogonProof_S_BUILD_6005 = [(''cmd'', 1), (''error'', 1), (''M2'', 20), (''unk2'', 4)]"

definition sAuthReconnectProof_C :: layout where
  "sAuthReconnectProof_C =
     [(''cmd'', 1), (''R1'', 16), (''R2'', 20), (''R3'', 20), (''number_of_keys'', 1)]"

definition XFER_INIT :: layout where
  "XFER_INIT = [(''cmd'', 1), (''fileNameLen'', 1), (''fileName'', 5), (''file_size'', 8), (''md5'', 16)]"

text \<open>The compile-time assertions.\<close>

definition static_asserts :: bool where
  "static_asserts \<longleftrightarrow>
     sizeof sAuthLogonChallenge_C = AuthChallengeHeaderSize + AuthChallengeMinimumBodySize \<and>
     sizeof sAuthLogonProof_C = AuthLogonProofSize \<and>
     sizeof sAuthReconnectProof_C = AuthReconnectProofSize"

lemmas layouts = sAuthLogonChallenge_C_def sAuthLogonProof_C_def sAuthLogonProof_S_def
  sAuthLogonProof_S_BUILD_6005_def sAuthReconnectProof_C_def XFER_INIT_def

lemma member_simps:
  "member sAuthLogonChallenge_C ''build'' buf = subbytes 11 2 buf"
  "member sAuthLogonChallenge_C ''country'' buf = subbytes 21 4 buf"
  "member sAuthLogonChallenge_C ''I_len'' buf = subbytes 33 1 buf"
  "member sAuthLogonProof_C ''A'' buf = subbytes 1 32 buf"
  "member sAuthLogonProof_C ''M1'' buf = subbytes 33 20 buf"
  "member sAuthReconnectProof_C ''R1'' buf = subbytes 1 16 buf"
  "member sAuthReconnectProof_C ''R2'' buf = subbytes 17 20 buf"
  by (simp_all add: member_def layouts)

text \<open>
  The compile-time assertions hold, and the offsets the frame inspector looks at are those of
  the structures.
\<close>
lemma wire_types:
  "static_asserts \<and>
   offsetof sAuthLogonChallenge_C ''I_len'' = ChallengeAccountLengthOffset \<and>
   offsetof sAuthLogonChallenge_C ''I'' = ChallengeAccountDataOffset \<and>
   offsetof sAuthLogonProof_C ''number_of_keys'' = LogonProofKeyCountOffset \<and>
   offsetof sAuthReconnectProof_C ''number_of_keys'' = ReconnectProofKeyCountOffset"
  by (simp add: static_asserts_def layouts sizeof_def)

section \<open>Packets written field by field\<close>

text \<open>The packet of a client that writes the members of a structure one after the other.\<close>

definition pack :: "layout \<Rightarrow> (string \<Rightarrow> bytes) \<Rightarrow> bytes" where
  "pack l val = concat (map (\<lambda>(nm, n). val nm) l)"

definition fits :: "layout \<Rightarrow> (string \<Rightarrow> bytes) \<Rightarrow> bool" where
  "fits l val = list_all (\<lambda>(nm, n). length (val nm) = n) l"

text \<open>A challenge: its last member stands for the account name, of variable length.\<close>

definition packed_challenge :: "(string \<Rightarrow> bytes) \<Rightarrow> bytes \<Rightarrow> bytes" where
  "packed_challenge val acc = pack (butlast sAuthLogonChallenge_C) val @ acc"

definition challenge_values :: "bool \<Rightarrow> (string \<Rightarrow> bytes) \<Rightarrow> bytes \<Rightarrow> bool" where
  "challenge_values rc val acc \<longleftrightarrow>
     fits (butlast sAuthLogonChallenge_C) val \<and>
     val ''cmd'' = [cmd_code (if rc then CMD_AUTH_RECONNECT_CHALLENGE else CMD_AUTH_LOGON_CHALLENGE)] \<and>
     val ''size'' = le_bytes 2 (30 + length acc) \<and> val ''I_len'' = [word_of_nat (length acc)] \<and>
     acc \<noteq> [] \<and> length acc \<le> 255 \<and> 0 \<notin> set acc"

lemma packed_challenge_encode:
  assumes "challenge_values rc val acc"
  obtains e mid where "packed_challenge val acc = encode (ChallengeFrame rc e mid acc)"
    and "frame_ok (ChallengeFrame rc e mid acc)"
    and "mid = val ''gamename'' @ val ''version1'' @ val ''version2'' @ val ''version3'' @ val ''build'' @ val ''platform'' @
      val ''os'' @ val ''country'' @ val ''timezone_bias'' @ val ''ip''"
proof -
  define mid where "mid = val ''gamename'' @ val ''version1'' @ val ''version2'' @ val ''version3'' @ val ''build'' @
    val ''platform'' @ val ''os'' @ val ''country'' @ val ''timezone_bias'' @ val ''ip''"
  have len: "length (val ''error'') = 1" "length mid = 29"
    using assms by (simp_all add: challenge_values_def fits_def layouts mid_def)
  then obtain e where e: "val ''error'' = [e]" by (auto simp: length_Suc_conv)
  have "packed_challenge val acc = val ''cmd'' @ [e] @ val ''size'' @ mid @ val ''I_len'' @ acc"
    by (simp add: packed_challenge_def pack_def layouts mid_def e)
  also have "\<dots> = encode (ChallengeFrame rc e mid acc)"
    using assms by (simp add: challenge_values_def encode_def)
  finally show thesis using that len assms by (simp add: challenge_values_def mid_def)
qed

lemma packed_challenge_fields:
  assumes "challenge_values rc val acc"
  defines "buf \<equiv> packed_challenge val acc @ [0]"
  shows "ch_build buf = le16 (val ''build'' ! 0) (val ''build'' ! 1)"
    and "ch_country buf = to_string (val ''country'')"
    and "\<exists>behind. os_field buf = c_str (val ''os'' @ val ''country'' @ behind)"
    and "length (val ''os'') = 4" "length (val ''country'') = 4"
proof -
  have len: "length (val ''cmd'') = 1" "length (val ''error'') = 1" "length (val ''size'') = 2" "length (val ''gamename'') = 4"
    "length (val ''version1'') = 1" "length (val ''version2'') = 1" "length (val ''version3'') = 1" "length (val ''build'') = 2"
    "length (val ''platform'') = 4" "length (val ''os'') = 4" "length (val ''country'') = 4"
    using assms(1) by (simp_all add: challenge_values_def fits_def layouts)
  define hd4 where "hd4 = val ''cmd'' @ val ''error'' @ val ''size'' @ val ''gamename'' @ val ''version1'' @ val ''version2'' @
    val ''version3''"
  define behind where "behind = val ''timezone_bias'' @ val ''ip'' @ val ''I_len'' @ acc @ [0]"
  have buf: "buf = hd4 @ val ''build'' @ val ''platform'' @ val ''os'' @ val ''country'' @ behind" and h: "length hd4 = 11"
    using len by (simp_all add: buf_def packed_challenge_def pack_def layouts hd4_def behind_def)
  show "ch_build buf = le16 (val ''build'' ! 0) (val ''build'' ! 1)"
    using len h by (simp add: buf ch_build_def nth_append)
  show "ch_country buf = to_string (val ''country'')"
    using len h by (simp add: buf ch_country_def subbytes_def)
  have "drop 17 buf = val ''os'' @ val ''country'' @ behind" using len h by (simp add: buf)
  then show "\<exists>behind. os_field buf = c_str (val ''os'' @ val ''country'' @ behind)" by (auto simp: os_field_def)
qed (use assms(1) in \<open>simp_all add: challenge_values_def fits_def layouts\<close>)

text \<open>The text that is read from \<open>os\<close> runs on into \<open>country\<close> when \<open>os\<close> has no zero byte.\<close>

lemma c_str_field:
  assumes "length os = 4" and "length country = 4"
  shows "0 \<in> set os \<or> country ! 0 = 0 \<Longrightarrow> c_str (os @ country @ behind) = c_str os"
    and "\<not> (0 \<in> set os \<or> country ! 0 = 0) \<Longrightarrow> \<not> length (c_str (os @ country @ behind)) \<le> 4"
    and "length (c_str os) \<le> 4"
proof -
  obtain c cs where country: "country = c # cs" using assms(2) by (cases country) auto
  have all: "takeWhile (\<lambda>y. y \<noteq> 0) os = os" if "0 \<notin> set os" using that by (auto simp: takeWhile_eq_all_conv)
  show "c_str (os @ country @ behind) = c_str os" if "0 \<in> set os \<or> country ! 0 = 0"
  proof (cases "0 \<in> set os")
    case True
    then show ?thesis by (simp add: c_str_def takeWhile_append1)
  next
    case False
    with that have "c = 0" by (simp add: country)
    then have "takeWhile (\<lambda>y. y \<noteq> 0) (os @ country @ behind) = os"
      using False by (subst takeWhile_append2) (auto simp: country)
    then show ?thesis by (simp only: c_str_def all [OF False])
  qed
  show "\<not> length (c_str (os @ country @ behind)) \<le> 4" if "\<not> (0 \<in> set os \<or> country ! 0 = 0)"
  proof -
    from that have "takeWhile (\<lambda>y. y \<noteq> 0) (os @ country @ behind) = os @ c # takeWhile (\<lambda>y. y \<noteq> 0) (cs @ behind)"
      by (subst takeWhile_append2) (auto simp: country)
    then show ?thesis using assms(1) by (simp add: c_str_def to_string_def)
  qed
  show "length (c_str os) \<le> 4" using length_c_str_le [of os] assms(1) by simp
qed

section \<open>What a challenge leaves in the session\<close>

lemma logon_challenge_stores:
  assumes f: "frame_ok (ChallengeFrame False e mid acc)"
    and r: "run_frame x (encode (ChallengeFrame False e mid acc)) s w = Inr (ok, s', w')"
  defines "buf \<equiv> encode (ChallengeFrame False e mid acc) @ [0]"
  assumes os: "length (os_field buf) \<le> 4"
  shows "login s' = to_string acc \<and> client_build s' = ch_build buf \<and> client_os s' = rev (os_field buf) \<and>
    safelogin s' = db_escape_string x (login s') \<and> status s' \<noteq> STATUS_RECON_PROOF \<and>
    (status s' = STATUS_LOGON_PROOF \<longrightarrow>
       localizationName s' = (case ParseClientLocaleClaim (ch_country buf) of None \<Rightarrow> [] | Some l \<Rightarrow> l))"
proof -
  let ?s = "named_by x buf acc s"
  have sl: "safelogin ?s = db_escape_string x (login ?s)" by (simp add: named_by_def)
  have ans: "challenge_answer x (ParseClientLocaleClaim (ch_country buf)) ?s w = Inr (ok, s', w')"
    using r unfolding run_frame_challenge buf_def logon_challenge_body_encode [OF f os [unfolded buf_def]] .
  have "localizationName s' = (case ParseClientLocaleClaim (ch_country buf) of None \<Rightarrow> [] | Some l \<Rightarrow> l)"
    if "status s' = STATUS_LOGON_PROOF"
  proof -
    from challenge_success [OF ans named_by_simps(4) that sl] obtain acct tail w1 s1 w2 pkt
      where "challenge_srp x acct (ParseClientLocaleClaim (ch_country buf)) ?s w1 = Inr (tail, s1, w2)"
        and "s' = snd (send pkt s1)" by blast
    then show ?thesis by (auto simp: challenge_srp_def Let_def split_beta snd_send split: if_splits)
  qed
  moreover obtain s1 pkt where "s' = snd (send pkt s1)" "challenge_keeps ?s s1" "status s1 \<in> {status ?s, STATUS_LOGON_PROOF}"
    using challenge_answer_spec [OF ans sl world_grows_refl] by blast
  ultimately show ?thesis by (auto simp: snd_send challenge_keeps_def named_by_def)
qed

lemma reconnect_challenge_stores:
  assumes f: "frame_ok (ChallengeFrame True e mid acc)"
    and r: "run_frame x (encode (ChallengeFrame True e mid acc)) s w = Inr (ok, s', w')"
  defines "buf \<equiv> encode (ChallengeFrame True e mid acc) @ [0]"
  shows "login s' = to_string acc \<and> client_build s' = ch_build buf \<and> safelogin s' = db_escape_string x (login s') \<and>
    localizationName s' = (case ParseClientLocaleClaim (ch_country buf) of None \<Rightarrow> [] | Some l \<Rightarrow> l) \<and>
    (if length (os_field buf) \<le> 4 then client_os s' = rev (os_field buf)
     else \<not> ok \<and> status s' = STATUS_CLOSED \<and> sent s' = sent s \<and> w' = w)"
proof -
  obtain t where "ch_I buf = Some t" "ch_os buf = Some (os_field buf)" "ch_login buf = Some (to_string acc)"
    using ch_text_encode [OF f] ch_login_encode(1) [OF f] by (auto simp: buf_def)
  moreover have "reconnect_challenge_body x buf s w = Inr (ok, s', w')"
    using r unfolding run_frame_reconnect buf_def .
  ultimately show ?thesis
    by (auto simp: reconnect_challenge_body_def Let_def split_beta session_simps split: if_splits option.splits)
qed

section \<open>Properties\<close>

text \<open>
  C38: the fields of a challenge reach the session.  Take a packet that a client wrote by the
  structure \<open>AUTH_LOGON_CHALLENGE_C\<close>, member after member, followed by a valid account name.
  Whatever the database answers, the session then has the account name and the build of the
  packet.  If the text in \<open>os\<close> ends within its four bytes (or \<open>country\<close> begins with a zero
  byte), the session has it in reversed order, the name is stored escaped, and a session that
  goes on has the locale that \<open>country\<close> claims, or none.  Otherwise the text runs on into
  \<open>country\<close>, and the packet is refused without an answer and without a query.
\<close>
theorem challenge_fields_stored:
  assumes "challenge_values rc val acc" and "run_frame x (packed_challenge val acc) s w = Inr (ok, s', w')"
  shows "login s' = to_string acc \<and> client_build s' = le16 (val ''build'' ! 0) (val ''build'' ! 1) \<and>
    (if 0 \<in> set (val ''os'') \<or> val ''country'' ! 0 = 0
     then client_os s' = rev (c_str (val ''os'')) \<and> safelogin s' = db_escape_string x (login s') \<and>
       (status s' = (if rc then STATUS_RECON_PROOF else STATUS_LOGON_PROOF) \<longrightarrow>
          localizationName s' = (case ParseClientLocaleClaim (to_string (val ''country'')) of None \<Rightarrow> [] | Some l \<Rightarrow> l))
     else \<not> ok \<and> status s' = STATUS_CLOSED \<and> sent s' = sent s \<and> w' = w)"
proof -
  obtain e mid where p: "packed_challenge val acc = encode (ChallengeFrame rc e mid acc)"
    and f: "frame_ok (ChallengeFrame rc e mid acc)" using packed_challenge_encode [OF assms(1)] .
  note fields = packed_challenge_fields [OF assms(1), unfolded p]
  let ?buf = "encode (ChallengeFrame rc e mid acc) @ [0]" and ?fine = "0 \<in> set (val ''os'') \<or> val ''country'' ! 0 = 0"
  obtain behind where behind: "os_field ?buf = c_str (val ''os'' @ val ''country'' @ behind)" using fields(3) by blast
  have fine: "os_field ?buf = c_str (val ''os'')" "length (os_field ?buf) \<le> 4" if ?fine
    using c_str_field(1,3) [OF fields(4,5)] that behind by simp_all
  have runs_on: "\<not> length (os_field ?buf) \<le> 4" if "\<not> ?fine"
    using c_str_field(2) [OF fields(4,5) that] behind by simp
  show ?thesis
  proof (cases rc)
    case True
    then have rc: "rc = True" by simp
    from reconnect_challenge_stores [OF f [unfolded rc] assms(2) [unfolded p rc]] fine runs_on show ?thesis
      by (cases ?fine) (simp_all add: fields(1,2) [unfolded rc] rc)
  next
    case False
    then have rc: "rc = False" by simp
    note run = assms(2) [unfolded p rc]
    show ?thesis
    proof (cases ?fine)
      case True
      with logon_challenge_stores [OF f [unfolded rc] run] fine show ?thesis by (simp add: fields(1,2) [unfolded rc] rc)
    next
      case bad: False
      from logon_challenge_body_refuses [OF f runs_on [OF bad], of x s w] run bad show ?thesis
        by (auto simp: run_frame_challenge fields(1) [unfolded rc] rc)
    qed
  qed
qed

text \<open>
  What a proof handler looks at.  Two logon proofs with the same \<open>A\<close> and \<open>M1\<close>, and two
  reconnect proofs with the same \<open>R1\<close> and \<open>R2\<close>, have the same effect whatever their other
  fields contain (the key count is checked by the frame inspector only).
\<close>
lemma proofs_read_only_their_fields:
  assumes "member sAuthLogonProof_C ''A'' lp = member sAuthLogonProof_C ''A'' lp'"
    and "member sAuthLogonProof_C ''M1'' lp = member sAuthLogonProof_C ''M1'' lp'"
    and "member sAuthReconnectProof_C ''R1'' rp = member sAuthReconnectProof_C ''R1'' rp'"
    and "member sAuthReconnectProof_C ''R2'' rp = member sAuthReconnectProof_C ''R2'' rp'"
  shows "logon_proof_body x lp s w = logon_proof_body x lp' s w \<and>
    reconnect_proof_body x rp s w = reconnect_proof_body x rp' s w"
  unfolding logon_proof_body_def reconnect_proof_body_def
  by (simp only: assms [unfolded member_simps] simp_thms)

text \<open>
  C39: the server's answers have the layout of their structures.  With a digest of twenty
  bytes the packet of \<open>SendProof\<close> is as long as the structure for the client's build and
  carries the digest in \<open>M2\<close>; the transfer offer with a digest of sixteen bytes is as long
  as \<open>XFER_INIT\<close> and carries the size and the digest in their fields.
\<close>
theorem answers_have_their_layout:
  assumes "m_sender s" and "\<not> m_closed s" and "length digest = 20" and "length (m_digest a) = 16"
  shows "(\<exists>pkt. sent (SendProof digest s) = sent s @ [pkt] \<and>
       (let l = (if is_vanilla_build (client_build s) then sAuthLogonProof_S_BUILD_6005 else sAuthLogonProof_S)
        in length pkt = sizeof l \<and> member l ''cmd'' pkt = [cmd_code CMD_AUTH_LOGON_PROOF] \<and>
           member l ''error'' pkt = [0] \<and> member l ''M2'' pkt = digest)) \<and>
     length (xfer_init a) = sizeof XFER_INIT \<and>
     le_val (member XFER_INIT ''file_size'' (xfer_init a)) = unat (m_size a) \<and>
     member XFER_INIT ''md5'' (xfer_init a) = m_digest a"
proof -
  have "unat (m_size a) < 2 ^ 64" using unsigned_less [of "m_size a"] by simp
  then have v: "le_val (le_bytes 8 (unat (m_size a))) = unat (m_size a)"
    by (simp add: le_val_le_bytes)
  have "\<exists>pkt. sent (SendProof digest s) = sent s @ [pkt] \<and>
       (let l = (if is_vanilla_build (client_build s) then sAuthLogonProof_S_BUILD_6005 else sAuthLogonProof_S)
        in length pkt = sizeof l \<and> member l ''cmd'' pkt = [cmd_code CMD_AUTH_LOGON_PROOF] \<and>
           member l ''error'' pkt = [0] \<and> member l ''M2'' pkt = digest)"
    using assms(1-3)
    by (simp add: SendProof_def send_def sizeof_def member_def layouts subbytes_def)
  moreover have "length (xfer_init a) = sizeof XFER_INIT"
      "member XFER_INIT ''file_size'' (xfer_init a) = le_bytes 8 (unat (m_size a))"
      "member XFER_INIT ''md5'' (xfer_init a) = m_digest a"
    using assms(4) by (simp_all add: xfer_init_def sizeof_def member_def layouts subbytes_def of_string_def)
  ultimately show ?thesis using v by simp
qed

definition example_archive :: PatchArtifact where
  "example_archive = \<lparr>m_stream = open_ate (example_file []), m_size = 0, m_digest = replicate 16 0\<rparr>"

theorem answers_have_their_layout_witness:
  "length (xfer_init example_archive) = sizeof XFER_INIT \<and>
   (\<exists>pkt. sent (SendProof (replicate 20 0) (example_sock STATUS_LOGON_PROOF)) =
      sent (example_sock STATUS_LOGON_PROOF) @ [pkt])"
  using answers_have_their_layout [of "example_sock STATUS_LOGON_PROOF" "replicate 20 0" example_archive]
  by (auto simp: example_archive_def)

text \<open>A challenge whose operating system fills its field: it is refused.\<close>

definition example_values :: "string \<Rightarrow> bytes" where
  "example_values nm =
     (if nm = ''cmd'' then [0] else if nm = ''size'' then [31, 0] else if nm = ''build'' then [0x9E, 0x21]
      else if nm = ''os'' then of_string ''OSX4'' else if nm = ''country'' then of_string ''SUne''
      else if nm = ''I_len'' then [1] else if nm \<in> {''gamename'', ''platform'', ''timezone_bias'', ''ip''} then replicate 4 0
      else [0])"

lemma example_values_ok: "challenge_values False example_values [65]"
  by (simp add: challenge_values_def fits_def layouts example_values_def of_string_def le_bytes_2)

theorem challenge_fields_stored_witness:
  "\<exists>s' w'. run_frame example_login_ext (packed_challenge example_values [65]) example_session example_world =
     Inr (False, s', w') \<and> login s' = ''A'' \<and> client_build s' = 8606 \<and> status s' = STATUS_CLOSED \<and> w' = example_world"
proof -
  let ?x = example_login_ext
  obtain e mid where p: "packed_challenge example_values [65] = encode (ChallengeFrame False e mid [65])"
    and f: "frame_ok (ChallengeFrame False e mid [65])" using packed_challenge_encode [OF example_values_ok] .
  have "BigNumber_laws ?x id" by (simp add: example_login_ext_def)
  from run_frame_no_fault [OF this example_session_inv f] obtain ok s' w'
    where r: "run_frame ?x (packed_challenge example_values [65]) example_session example_world = Inr (ok, s', w')"
    unfolding p by (cases "run_frame ?x (encode (ChallengeFrame False e mid [65])) example_session example_world") auto
  have v: "0 \<notin> set (example_values ''os'')" "example_values ''country'' ! 0 \<noteq> 0"
    "le16 (example_values ''build'' ! 0) (example_values ''build'' ! 1) = 8606" "to_string [65] = ''A''"
    by code_simp+
  from challenge_fields_stored [OF example_values_ok r] v r show ?thesis by auto
qed

end
