(* ===== verification/CommandLine.thy ===== *)
theory CommandLine
  imports Prelude
begin

text \<open>
  \<open>src/Main.cpp\<close>, the command line of \<open>main\<close>.  \<open>argv[1..]\<close> is a list of strings (free of
  NUL, as C strings are); the loop index is the part of the list not read yet.  The
  parser is written for both platforms, \<open>win\<close> says whether \<open>WIN32\<close> is defined.  The
  specification is a grammar of option lists with their two ways of writing an argument.
\<close>

section \<open>The parser\<close>

text \<open>\<open>CmdExit\<close> is an early return of \<open>main\<close>; \<open>'\0'\<close> is the mode when \<open>-s\<close> is not given.\<close>

datatype cmdline = CmdExit int | CmdRun (cmd_cfg: string) (cmd_mode: char)

definition no_mode :: char where
  "no_mode = CHR 0x00"

definition takeArg :: "string \<Rightarrow> string list \<Rightarrow> (string \<times> string list) option" where
  "takeArg attached args =
     (if attached \<noteq> [] then Some (attached, args)
      else case args of a # args' \<Rightarrow> Some (a, args') | [] \<Rightarrow> None)"

definition service_mode :: "bool \<Rightarrow> string \<Rightarrow> char option" where
  "service_mode win m =
     (if m = ''run'' then Some (CHR ''r'')
      else if win then
        (if m = ''install'' then Some (CHR ''i'')
         else if m = ''uninstall'' then Some (CHR ''u'') else None)
      else if m = ''stop'' then Some (CHR ''s'') else None)"

lemma takeArg_length: "takeArg att args = Some (v, args') \<Longrightarrow> length args' \<le> length args"
  by (auto simp: takeArg_def split: if_splits list.splits)

function parse_args :: "bool \<Rightarrow> string list \<Rightarrow> string \<Rightarrow> char \<Rightarrow> cmdline" where
  "parse_args win [] cfg_file mode = CmdRun cfg_file mode"
| "parse_args win (arg # args) cfg_file mode =
     (if arg = ''--version'' then CmdExit 0
      else case arg of
        [] \<Rightarrow> CmdExit 1
      | [c] \<Rightarrow> CmdExit 1
      | c # opt # attached \<Rightarrow>
          if c \<noteq> CHR ''-'' then CmdExit 1
          else if opt = CHR ''v'' then CmdExit 0
          else if opt = CHR ''c'' then
            (case takeArg attached args of
               None \<Rightarrow> CmdExit 1
             | Some (val, args') \<Rightarrow> parse_args win args' val mode)
          else if opt = CHR ''s'' then
            (case takeArg attached args of
               None \<Rightarrow> CmdExit 1
             | Some (m, args') \<Rightarrow>
                 (case service_mode win m of
                    None \<Rightarrow> CmdExit 1
                  | Some md \<Rightarrow> parse_args win args' cfg_file md))
          else CmdExit 1)"
  by pat_completeness auto
termination
  by (relation "measure (\<lambda>(win, args, c, m). length args)")
    (auto dest: takeArg_length simp: less_Suc_eq_le)

section \<open>The grammar\<close>

text \<open>An option with its argument; the flag says whether the argument is attached.\<close>

datatype cli_option = ConfigFile bool string | ServiceMode bool string

fun render_arg :: "char \<Rightarrow> bool \<Rightarrow> string \<Rightarrow> string list" where
  "render_arg opt att v = (if att then [CHR ''-'' # opt # v] else [[CHR ''-'', opt], v])"

fun render :: "cli_option \<Rightarrow> string list" where
  "render (ConfigFile att f) = render_arg (CHR ''c'') att f"
| "render (ServiceMode att m) = render_arg (CHR ''s'') att m"

text \<open>The modes of each platform; a mode is remembered by its first letter.\<close>

fun mode_names :: "bool \<Rightarrow> string list" where
  "mode_names True = [''run'', ''install'', ''uninstall'']"
| "mode_names False = [''run'', ''stop'']"

fun option_ok :: "bool \<Rightarrow> cli_option \<Rightarrow> bool" where
  "option_ok win (ConfigFile att f) = (att \<longrightarrow> f \<noteq> [])"
| "option_ok win (ServiceMode att m) = (m \<in> set (mode_names win))"

text \<open>A later option overrides an earlier one.\<close>

fun chosen_file :: "string \<Rightarrow> cli_option list \<Rightarrow> string" where
  "chosen_file f [] = f"
| "chosen_file f (ConfigFile att g # os) = chosen_file g os"
| "chosen_file f (ServiceMode att m # os) = chosen_file f os"

fun chosen_mode :: "char \<Rightarrow> cli_option list \<Rightarrow> char" where
  "chosen_mode c [] = c"
| "chosen_mode c (ConfigFile att g # os) = chosen_mode c os"
| "chosen_mode c (ServiceMode att m # os) = chosen_mode (hd m) os"

text \<open>The two ways to ask for the version.\<close>

definition version_flag :: "string \<Rightarrow> bool" where
  "version_flag a \<longleftrightarrow> a = ''--version'' \<or> (\<exists>v. a = CHR ''-'' # CHR ''v'' # v)"

lemma service_mode_eq: "service_mode win m = (if m \<in> set (mode_names win) then Some (hd m) else None)"
  by (cases win) (auto simp: service_mode_def)

lemma service_mode_Nil [simp]: "service_mode win [] = None"
  by (simp add: service_mode_def)

lemma takeArg_render:
  "(att \<longrightarrow> v \<noteq> []) \<Longrightarrow> render_arg opt att v @ args = (CHR ''-'' # opt # att') # args' \<Longrightarrow>
   takeArg att' args' = Some (v, args)"
  by (auto simp: takeArg_def split: if_splits)

lemma takeArg_renderD:
  "takeArg att args = Some (v, args') \<Longrightarrow>
   \<exists>b. (b \<longrightarrow> v \<noteq> []) \<and> (CHR ''-'' # opt # att) # args = render_arg opt b v @ args'"
  by (cases "att = []") (auto simp: takeArg_def split: list.splits)

lemma parse_args_option:
  assumes "option_ok win opt"
  shows "parse_args win (render opt @ args) cfg_file mode =
    parse_args win args (chosen_file cfg_file [opt]) (chosen_mode mode [opt])"
proof (cases opt)
  case (ConfigFile att f)
  with assms show ?thesis by (cases f) (auto simp: takeArg_def)
next
  case (ServiceMode att m)
  with assms service_mode_Nil [of win] show ?thesis by (cases m) (auto simp: takeArg_def service_mode_eq split: if_splits)
qed

lemma chosen_Cons:
  "chosen_file f (opt # os) = chosen_file (chosen_file f [opt]) os"
  "chosen_mode c (opt # os) = chosen_mode (chosen_mode c [opt]) os"
  by (cases opt; simp)+

lemma parse_args_options:
  "list_all (option_ok win) os \<Longrightarrow>
   parse_args win (concat (map render os) @ args) cfg_file mode =
   parse_args win args (chosen_file cfg_file os) (chosen_mode mode os)"
proof (induction os arbitrary: cfg_file mode)
  case (Cons opt os)
  then show ?case by (simp add: parse_args_option) (simp add: chosen_Cons [where opt = opt and os = os])
qed simp

lemma parse_args_flag: "version_flag a \<Longrightarrow> parse_args win (a # args) cfg_file mode = CmdExit 0"
  by (auto simp: version_flag_def)

lemma parse_args_exit: "parse_args win args cfg_file mode = CmdExit k \<Longrightarrow> k = 0 \<or> k = 1"
  by (induction win args cfg_file mode rule: parse_args.induct)
    (auto split: if_splits list.splits option.splits prod.splits)

text \<open>At each argument there is an option of the grammar, or the parser returns.\<close>

text \<open>An option that takes an argument: read as the grammar says, or refused.\<close>

lemma parse_args_takes:
  assumes "opt \<in> {CHR ''c'', CHR ''s''}"
  shows "(\<exists>o' args'. option_ok win o' \<and> (CHR ''-'' # opt # att) # args = render o' @ args') \<or>
    parse_args win ((CHR ''-'' # opt # att) # args) cfg_file mode = CmdExit 1"
proof (cases "takeArg att args")
  case None
  with assms show ?thesis by auto
next
  case (Some p)
  obtain v args' where p: "p = (v, args')" by (cases p)
  from takeArg_renderD [OF Some [unfolded p], of opt] obtain b
    where b: "b \<longrightarrow> v \<noteq> []" "(CHR ''-'' # opt # att) # args = render_arg opt b v @ args'" by blast
  show ?thesis
  proof (cases "opt = CHR ''c''")
    case True
    with b have "option_ok win (ConfigFile b v)" "(CHR ''-'' # opt # att) # args = render (ConfigFile b v) @ args'"
      by simp_all
    then show ?thesis by blast
  next
    case False
    with assms b have s: "opt = CHR ''s''" "(CHR ''-'' # opt # att) # args = render (ServiceMode b v) @ args'" by simp_all
    show ?thesis
    proof (cases "v \<in> set (mode_names win)")
      case True
      then have "option_ok win (ServiceMode b v)" by simp
      with s(2) show ?thesis by blast
    next
      case False
      with Some p s(1) show ?thesis by (simp add: service_mode_eq)
    qed
  qed
qed

lemma parse_args_next:
  "(\<exists>opt args'. option_ok win opt \<and> arg # args = render opt @ args') \<or>
   (\<exists>k. parse_args win (arg # args) cfg_file mode = CmdExit k \<and> (k = 0 \<longrightarrow> version_flag arg))"
proof (cases "\<exists>opt att. arg = CHR ''-'' # opt # att \<and> opt \<in> {CHR ''c'', CHR ''s''}")
  case True
  with parse_args_takes [of _ win _ args cfg_file mode] show ?thesis by (metis zero_neq_one)
next
  case False
  then have "parse_args win (arg # args) cfg_file mode = CmdExit (if version_flag arg then 0 else 1)"
    by (auto simp: version_flag_def split: list.splits)
  then show ?thesis by (simp del: parse_args.simps)
qed

text \<open>What the parser read: some options, and then either nothing or what made it return.\<close>

lemma parse_args_split:
  "\<exists>os tail. list_all (option_ok win) os \<and> args = concat (map render os) @ tail \<and>
     (case parse_args win args cfg_file mode of
        CmdRun c m \<Rightarrow> tail = [] \<and> c = chosen_file cfg_file os \<and> m = chosen_mode mode os
      | CmdExit k \<Rightarrow> tail \<noteq> [] \<and> (k = 0 \<longrightarrow> version_flag (hd tail)))"
proof (induction "length args" arbitrary: args cfg_file mode rule: less_induct)
  case less
  show ?case
  proof (cases args)
    case Nil
    then show ?thesis by (intro exI [of _ "[]"]) simp
  next
    case (Cons arg args1)
    from parse_args_next [of win arg args1 cfg_file mode] show ?thesis
    proof (elim disjE exE conjE)
      fix opt args' assume o: "option_ok win opt" "arg # args1 = render opt @ args'"
      then have "length args' < length args" using Cons by (cases opt) (auto split: if_splits)
      from less [OF this, of "chosen_file cfg_file [opt]" "chosen_mode mode [opt]"] obtain os tail
        where os: "list_all (option_ok win) os" "args' = concat (map render os) @ tail"
        and r: "case parse_args win args' (chosen_file cfg_file [opt]) (chosen_mode mode [opt]) of
            CmdRun c m \<Rightarrow> tail = [] \<and> c = chosen_file (chosen_file cfg_file [opt]) os \<and>
              m = chosen_mode (chosen_mode mode [opt]) os
          | CmdExit k \<Rightarrow> tail \<noteq> [] \<and> (k = 0 \<longrightarrow> version_flag (hd tail))" by blast
      have "parse_args win args cfg_file mode =
          parse_args win args' (chosen_file cfg_file [opt]) (chosen_mode mode [opt])"
        unfolding Cons o(2) by (rule parse_args_option [OF o(1)])
      with os r o Cons chosen_Cons [where opt = opt and os = os] show ?thesis
        by (intro exI [of _ "opt # os"] exI [of _ tail]) (auto split: cmdline.splits)
    next
      fix k assume "parse_args win (arg # args1) cfg_file mode = CmdExit k" "k = 0 \<longrightarrow> version_flag arg"
      with Cons show ?thesis
        by (intro exI [of _ "[]"] exI [of _ args]) (simp del: parse_args.simps)
    qed
  qed
qed

section \<open>Properties\<close>

text \<open>
  C37: the command line is accepted exactly when it is a list of options of the grammar:
  \<open>-c\<close> with a file, \<open>-s\<close> with a mode of the platform, the argument attached or in the next
  place.  The last file and the last mode win.
\<close>
theorem parse_args_accepts_exactly:
  "parse_args win args cfg_file mode = CmdRun c m \<longleftrightarrow>
     (\<exists>os. list_all (option_ok win) os \<and> args = concat (map render os) \<and>
        c = chosen_file cfg_file os \<and> m = chosen_mode mode os)"
proof
  assume "parse_args win args cfg_file mode = CmdRun c m"
  with parse_args_split [of win args cfg_file mode] show "\<exists>os. list_all (option_ok win) os \<and>
      args = concat (map render os) \<and> c = chosen_file cfg_file os \<and> m = chosen_mode mode os" by auto
next
  assume "\<exists>os. list_all (option_ok win) os \<and> args = concat (map render os) \<and>
      c = chosen_file cfg_file os \<and> m = chosen_mode mode os"
  then show "parse_args win args cfg_file mode = CmdRun c m"
    using parse_args_options [of win _ "[]" cfg_file mode] by auto
qed

text \<open>
  When \<open>main\<close> returns from the command line, the exit code is 0 exactly when a request
  for the version follows well-formed options, and 1 in every other case.
\<close>
lemma parse_args_exit_code:
  "parse_args win args cfg_file mode = CmdExit k \<longleftrightarrow>
     (\<nexists>os. list_all (option_ok win) os \<and> args = concat (map render os)) \<and>
     k = (if \<exists>os a tail. list_all (option_ok win) os \<and> args = concat (map render os) @ a # tail \<and> version_flag a
          then 0 else 1)"
proof -
  let ?r = "parse_args win args cfg_file mode"
  have no: "(\<nexists>os. list_all (option_ok win) os \<and> args = concat (map render os)) \<longleftrightarrow> (\<exists>k. ?r = CmdExit k)"
    using parse_args_split [of win args cfg_file mode] parse_args_options [of win _ "[]" cfg_file mode]
    by (cases ?r) auto
  have zero: "(\<exists>os a tail. list_all (option_ok win) os \<and> args = concat (map render os) @ a # tail \<and> version_flag a)
      \<longleftrightarrow> ?r = CmdExit 0"
    using parse_args_split [of win args cfg_file mode] parse_args_options [of win] parse_args_flag
    by (cases ?r) (fastforce simp: neq_Nil_conv)+
  show ?thesis unfolding no zero using parse_args_exit [of win args cfg_file mode] by (cases ?r) auto
qed

end
