(* ===== verification/Daemon.thy ===== *)
theory Daemon
  imports AuthServer CommandLine
begin

text \<open>
  \<open>src/Main.cpp\<close> on a POSIX system: the scheduled exit, the start-up sequence with its
  early returns, the main loop, signals and shutdown.  Configuration, logging, the daemon
  mode, the PID file, the database connection and the schedule functions are outside the
  repository: they are the fields of the record \<open>host\<close>.  What the process does to
  its surroundings is the list \<open>events\<close>, in order.  Messages to the log are left out;
  \<open>sLog.Initialize\<close>, \<open>sLog.Flush\<close> and \<open>Log::WaitBeforeContinueIfNeed\<close> are events.
\<close>

section \<open>External functions\<close>

record ScheduledExitSchedule =
  enabled :: bool
  dayOfWeek :: uint32
  hour :: uint32
  minute :: uint32
  sched_mode :: int

text \<open>
  \<open>'st\<close> is \<open>ScheduledExitState\<close>.  \<open>safe_localtime\<close> is part of the two functions that take a
  local time, which get the value of \<open>time\<close>.  \<open>startDaemon\<close> and \<open>stopDaemon\<close> may end the
  process; \<open>Some c\<close> is its exit code then.
\<close>

record ('db, 'st) host =
  REALMD_CONFIG_LOCATION :: string
  REALMD_CONFIG_NAME :: string
  REALMD_CONFIG_VERSION :: uint32
  DEFAULT_REALMSERVER_PORT :: int
  MINUTE :: int
  cfg_SetSource :: "string \<Rightarrow> bool"
  cfg_GetStringDefault :: "string \<Rightarrow> string \<Rightarrow> string"
  startDaemon :: "int option"
  stopDaemon :: "int option"
  CreatePIDFile :: "string \<Rightarrow> uint32"
  db_Initialize :: "string \<Rightarrow> bool"
  db_CheckDatabaseVersion :: bool
  db_Execute :: "'db \<Rightarrow> string \<Rightarrow> 'db"
  server_start :: "uint16 \<Rightarrow> string \<Rightarrow> bool"
  default_schedule :: ScheduledExitSchedule
  default_exit_state :: 'st
  ParseScheduledExitUInt32 :: "string \<Rightarrow> uint32 option"
  ParseScheduledExitTime :: "string \<Rightarrow> (uint32 \<times> uint32) option"
  ParseScheduledExitMode :: "string \<Rightarrow> int option"
  SCHEDULED_EXIT_MODE_RESTART :: int
  MarkScheduledExitHandledIfMatching :: "ScheduledExitSchedule \<Rightarrow> int \<Rightarrow> 'st \<Rightarrow> bool \<times> 'st"
  CheckAndMarkScheduledExit :: "ScheduledExitSchedule \<Rightarrow> int \<Rightarrow> 'st \<Rightarrow> bool \<times> 'st"

text \<open>A schedule is disabled when it is constructed.\<close>

definition Schedule_laws :: "('db, 'st) host \<Rightarrow> bool" where
  "Schedule_laws dx \<longleftrightarrow> \<not> enabled (default_schedule dx)"

section \<open>State\<close>

datatype event =
    EvPidFile string | EvDbInit string | EvDbHalt | EvBegin | EvExecute string | EvCommit
  | EvListen uint16 string | EvHookSignals | EvAllowAsync | EvDetach | EvSweep int | EvFlush | EvPing
  | EvStop | EvUnhookSignals | EvLogInit | EvWait

text \<open>
  The globals of \<open>Main.cpp\<close> and the variables of the loop; \<open>caught\<close> are the signals whose
  handler is \<open>OnSignal\<close>.
\<close>

record ('bn, 'db, 'st) daemon =
  d_system :: "('bn, 'db) system"
  stopEvent :: bool
  caught :: "int set"
  exitCode :: uint8
  s_scheduledExit :: ScheduledExitSchedule
  s_scheduledExitState :: 'st
  numLoops :: uint32
  loopCounter :: uint32
  logFlushCounter :: uint32
  events :: "event list"

definition emit :: "event list \<Rightarrow> ('bn, 'db, 'st) daemon \<Rightarrow> ('bn, 'db, 'st) daemon" where
  "emit es d = d\<lparr>events := events d @ es\<rparr>"

definition REALMD_SHUTDOWN_EXIT_CODE :: uint8 where "REALMD_SHUTDOWN_EXIT_CODE = 0"

definition REALMD_RESTART_EXIT_CODE :: uint8 where "REALMD_RESTART_EXIT_CODE = 2"

definition mk_daemon :: "('db, 'st) host \<Rightarrow> 'db world \<Rightarrow> ('bn, 'db, 'st) daemon" where
  "mk_daemon dx w =
     \<lparr>d_system = mk_AuthServer w, stopEvent = False, caught = {}, exitCode = 0,
      s_scheduledExit = default_schedule dx, s_scheduledExitState = default_exit_state dx,
      numLoops = 0, loopCounter = 0, logFlushCounter = 0, events = []\<rparr>"

section \<open>The scheduled exit\<close>

definition now_time :: "('bn, 'db, 'st) daemon \<Rightarrow> int" where
  "now_time d = wall_time (shared (d_system d))"

definition LoadScheduledExitConfig ::
  "('bn, 'db) ext \<Rightarrow> ('db, 'st) host \<Rightarrow> ('bn, 'db, 'st) daemon \<Rightarrow> ('bn, 'db, 'st) daemon" where
  "LoadScheduledExitConfig x dx d =
     (let d = d\<lparr>s_scheduledExit := default_schedule dx, s_scheduledExitState := default_exit_state dx\<rparr> in
      if \<not> cfg_GetBoolDefault x ''ScheduledExit.Enable'' False then d
      else case ParseScheduledExitUInt32 dx (cfg_GetStringDefault dx ''ScheduledExit.DayOfWeek'' ''3'') of
        None \<Rightarrow> d
      | Some day \<Rightarrow>
          if day > 6 then d
          else case ParseScheduledExitTime dx (cfg_GetStringDefault dx ''ScheduledExit.Time'' ''05:00'') of
            None \<Rightarrow> d
          | Some (h, m) \<Rightarrow>
              (case ParseScheduledExitMode dx (cfg_GetStringDefault dx ''ScheduledExit.Mode'' ''restart'') of
                 None \<Rightarrow> d
               | Some md \<Rightarrow>
                   let sch = \<lparr>enabled = True, dayOfWeek = day, hour = h, minute = m, sched_mode = md\<rparr> in
                   d\<lparr>s_scheduledExit := sch,
                     s_scheduledExitState :=
                       snd (MarkScheduledExitHandledIfMatching dx sch (now_time d) (s_scheduledExitState d))\<rparr>))"

definition CheckScheduledExit ::
  "('db, 'st) host \<Rightarrow> ('bn, 'db, 'st) daemon \<Rightarrow> ('bn, 'db, 'st) daemon" where
  "CheckScheduledExit dx d =
     (if \<not> enabled (s_scheduledExit d) \<or> stopEvent d then d
      else case CheckAndMarkScheduledExit dx (s_scheduledExit d) (now_time d) (s_scheduledExitState d) of
        (due, st) \<Rightarrow>
          let d = d\<lparr>s_scheduledExitState := st\<rparr> in
          if \<not> due then d
          else d\<lparr>exitCode := (if sched_mode (s_scheduledExit d) = SCHEDULED_EXIT_MODE_RESTART dx
                               then REALMD_RESTART_EXIT_CODE else REALMD_SHUTDOWN_EXIT_CODE),
                 stopEvent := True\<rparr>)"

section \<open>Signals\<close>

definition SIGINT :: int where "SIGINT = 2"

definition SIGTERM :: int where "SIGTERM = 15"

text \<open>The handler installs itself again, for systems that reset it when a signal is delivered.\<close>

definition OnSignal :: "int \<Rightarrow> ('bn, 'db, 'st) daemon \<Rightarrow> ('bn, 'db, 'st) daemon" where
  "OnSignal s d =
     (let d = (if s = SIGINT \<or> s = SIGTERM then d\<lparr>stopEvent := True\<rparr> else d)
      in d\<lparr>caught := insert s (caught d)\<rparr>)"

definition HookSignals :: "('bn, 'db, 'st) daemon \<Rightarrow> ('bn, 'db, 'st) daemon" where
  "HookSignals d = emit [EvHookSignals] (d\<lparr>caught := insert SIGTERM (insert SIGINT (caught d))\<rparr>)"

definition UnhookSignals :: "('bn, 'db, 'st) daemon \<Rightarrow> ('bn, 'db, 'st) daemon" where
  "UnhookSignals d = emit [EvUnhookSignals] (d\<lparr>caught := caught d - {SIGINT} - {SIGTERM}\<rparr>)"

text \<open>
  Delivery of a signal: a caught one runs the handler, which may have been reset just
  before; any other signal of interest ends the process at once, \<open>None\<close>.
\<close>

definition deliver :: "bool \<Rightarrow> int \<Rightarrow> ('bn, 'db, 'st) daemon \<Rightarrow> ('bn, 'db, 'st) daemon option" where
  "deliver resets s d =
     (if s \<in> caught d then Some (OnSignal s (if resets then d\<lparr>caught := caught d - {s}\<rparr> else d)) else None)"

section \<open>Start-up\<close>

text \<open>A step of the start-up: \<open>Some c\<close> is a \<open>return c\<close> of \<open>main\<close>.\<close>

type_synonym ('bn, 'db, 'st) startup = "('bn, 'db, 'st) daemon \<Rightarrow> int option \<times> ('bn, 'db, 'st) daemon"

definition andThen :: "('bn, 'db, 'st) startup \<Rightarrow> ('bn, 'db, 'st) startup \<Rightarrow> ('bn, 'db, 'st) startup" where
  "andThen f g d = (case f d of (Some c, d) \<Rightarrow> (Some c, d) | (None, d) \<Rightarrow> g d)"

text \<open>The log is opened, and the user warned of an old configuration file.\<close>

definition init_log :: "('bn, 'db, 'st) daemon \<Rightarrow> ('bn, 'db, 'st) daemon" where
  "init_log d = emit [EvLogInit] d"

definition check_conf_version ::
  "('bn, 'db) ext \<Rightarrow> ('db, 'st) host \<Rightarrow> ('bn, 'db, 'st) daemon \<Rightarrow> ('bn, 'db, 'st) daemon" where
  "check_conf_version x dx d =
     (let confVersion = (word_of_int (cfg_GetIntDefault x ''ConfVersion'' 0) :: uint32) in
      if confVersion < REALMD_CONFIG_VERSION dx then emit [EvWait] d else d)"

definition pid_file :: "('db, 'st) host \<Rightarrow> ('bn, 'db, 'st) startup" where
  "pid_file dx d =
     (let pidfile = cfg_GetStringDefault dx ''PidFile'' [] in
      if pidfile \<noteq> []
      then (if CreatePIDFile dx pidfile = 0 then (Some 1, emit [EvWait] d) else (None, emit [EvPidFile pidfile] d))
      else (None, d))"

definition StartDB :: "('db, 'st) host \<Rightarrow> ('bn, 'db, 'st) daemon \<Rightarrow> bool \<times> ('bn, 'db, 'st) daemon" where
  "StartDB dx d =
     (let dbstring = cfg_GetStringDefault dx ''LoginDatabaseInfo'' [] in
      if dbstring = [] then (False, d)
      else if \<not> db_Initialize dx (c_string dbstring) then (False, d)
      else let d = emit [EvDbInit dbstring] d in
           if \<not> db_CheckDatabaseVersion dx then (False, emit [EvDbHalt] d)
           else (True, d))"

definition start_db :: "('db, 'st) host \<Rightarrow> ('bn, 'db, 'st) startup" where
  "start_db dx d = (case StartDB dx d of (ok, d) \<Rightarrow> if \<not> ok then (Some 1, emit [EvWait] d) else (None, d))"

text \<open>The global realm list and database are part of the shared state.\<close>

definition with_shared :: "('db world \<Rightarrow> 'db world) \<Rightarrow> ('bn, 'db, 'st) daemon \<Rightarrow> ('bn, 'db, 'st) daemon" where
  "with_shared f d = d\<lparr>d_system := (d_system d)\<lparr>shared := f (shared (d_system d))\<rparr>\<rparr>"

definition load_realms :: "('bn, 'db) ext \<Rightarrow> ('bn, 'db, 'st) startup" where
  "load_realms x d =
     (let delay = word_of_int (cfg_GetIntDefault x ''RealmsStateUpdateDelay'' 20);
          d = with_shared (\<lambda>w. w\<lparr>realm_list := Initialize x (login_db w) (wall_time w) delay (realm_list w)\<rparr>) d
      in if realm_count (realm_list (shared (d_system d))) = 0 then (Some 1, emit [EvWait] d) else (None, d))"

definition sql_expire_account_bans :: string where
  "sql_expire_account_bans =
     ''UPDATE `account_banned` SET `active` = 0 WHERE `unbandate`<=UNIX_TIMESTAMP() AND `unbandate`<>`bandate`''"

definition sql_expire_ip_bans :: string where
  "sql_expire_ip_bans =
     ''DELETE FROM `ip_banned` WHERE `unbandate`<=UNIX_TIMESTAMP() AND `unbandate`<>`bandate`''"

definition expire_bans :: "('db, 'st) host \<Rightarrow> ('bn, 'db, 'st) daemon \<Rightarrow> ('bn, 'db, 'st) daemon" where
  "expire_bans dx d =
     with_shared (\<lambda>w. w\<lparr>login_db := db_Execute dx (db_Execute dx (login_db w) sql_expire_account_bans)
         sql_expire_ip_bans\<rparr>)
       (emit [EvBegin, EvExecute sql_expire_account_bans, EvExecute sql_expire_ip_bans, EvCommit] d)"

text \<open>\<open>int32 configuredAuthTimeout\<close> to \<open>uint32 authTimeoutSeconds\<close>.\<close>

definition auth_timeout :: "int \<Rightarrow> uint32" where
  "auth_timeout configured = (if configured < 0 then 30 else word_of_int configured)"

text \<open>\<open>AuthServer\<close> is a local variable of \<open>main\<close>: its destructor runs at every return after it.\<close>

definition destroy_AuthServer :: "('bn, 'db, 'st) daemon \<Rightarrow> ('bn, 'db, 'st) daemon" where
  "destroy_AuthServer d = emit [EvStop] (d\<lparr>d_system := Stop (d_system d)\<rparr>)"

definition start_server :: "('bn, 'db) ext \<Rightarrow> ('db, 'st) host \<Rightarrow> ('bn, 'db, 'st) startup" where
  "start_server x dx d =
     (let rmport = word_of_int (cfg_GetIntDefault x ''RealmServerPort'' (DEFAULT_REALMSERVER_PORT dx));
          bindIp = cfg_GetStringDefault dx ''BindIP'' ''0.0.0.0'';
          authTimeoutSeconds = auth_timeout (cfg_GetIntDefault x ''AuthSessionTimeout'' 30);
          patchEnabled = cfg_GetBoolDefault x ''Patch.Enable'' True
      in case Parse patchEnabled (cfg_GetStringDefault dx ''Patch.ForceBuilds'' []) of
           None \<Rightarrow> (Some 1, d)
         | Some policy \<Rightarrow>
             (case Start (server_start dx) rmport bindIp (int (unat authTimeoutSeconds)) policy (d_system d) of
                (ok, sys) \<Rightarrow>
                  let d = d\<lparr>d_system := sys\<rparr> in
                  if \<not> ok then (Some 1, destroy_AuthServer (emit [EvWait] d))
                  else (None, emit [EvListen rmport bindIp] d)))"

text \<open>
  \<open>numLoops\<close>: the product is taken modulo \<open>2 ^ 32\<close>, which is what unsigned arithmetic
  gives, and signed arithmetic as long as it does not overflow.
\<close>

definition num_loops :: "('bn, 'db) ext \<Rightarrow> ('db, 'st) host \<Rightarrow> uint32" where
  "num_loops x dx =
     word_of_int (cfg_GetIntDefault x ''MaxPingTime'' 30 * (MINUTE dx * 1000000 div 100000))"

definition enter_loop :: "('bn, 'db) ext \<Rightarrow> ('db, 'st) host \<Rightarrow> ('bn, 'db, 'st) startup" where
  "enter_loop x dx d =
     (None, (emit [EvAllowAsync, EvDetach] (HookSignals d))
        \<lparr>numLoops := num_loops x dx, loopCounter := 0, logFlushCounter := 0\<rparr>)"

definition start_up :: "('bn, 'db) ext \<Rightarrow> ('db, 'st) host \<Rightarrow> ('bn, 'db, 'st) startup" where
  "start_up x dx =
     andThen (\<lambda>d. (None, LoadScheduledExitConfig x dx (check_conf_version x dx (init_log d))))
      (andThen (pid_file dx)
        (andThen (start_db dx)
          (andThen (load_realms x)
            (andThen (\<lambda>d. (None, expire_bans dx d))
              (andThen (start_server x dx) (enter_loop x dx))))))"

section \<open>The main loop\<close>

text \<open>
  One round of the loop: what the other threads did to the server and the shared state
  meanwhile, the steady clock at the sweep, and the signals delivered before and after the
  scheduled exit was checked.
\<close>

record ('bn, 'db) tick =
  engine :: "('bn, 'db) system \<Rightarrow> ('bn, 'db) system"
  sweep_time :: int
  signals_early :: "int list"
  signals_late :: "int list"

definition sweep :: "int \<Rightarrow> ('bn, 'db, 'st) daemon \<Rightarrow> ('bn, 'db, 'st) daemon" where
  "sweep now d = emit [EvSweep now] (d\<lparr>d_system := Update now (d_system d)\<rparr>)"

definition flush_log :: "('bn, 'db, 'st) daemon \<Rightarrow> ('bn, 'db, 'st) daemon" where
  "flush_log d =
     (let d = d\<lparr>logFlushCounter := logFlushCounter d + 1\<rparr> in
      if 10 \<le> logFlushCounter d then emit [EvFlush] (d\<lparr>logFlushCounter := 0\<rparr>) else d)"

definition ping_database :: "('bn, 'db, 'st) daemon \<Rightarrow> ('bn, 'db, 'st) daemon" where
  "ping_database d =
     (let d = d\<lparr>loopCounter := loopCounter d + 1\<rparr> in
      if loopCounter d = numLoops d then emit [EvPing] (d\<lparr>loopCounter := 0\<rparr>) else d)"

definition loop_body ::
  "('db, 'st) host \<Rightarrow> ('bn, 'db) tick \<Rightarrow> ('bn, 'db, 'st) daemon \<Rightarrow> ('bn, 'db, 'st) daemon" where
  "loop_body dx t d =
     (let d = fold OnSignal (signals_early t) (d\<lparr>d_system := engine t (d_system d)\<rparr>);
          d = ping_database (flush_log (sweep (sweep_time t) d))
      in fold OnSignal (signals_late t) (CheckScheduledExit dx d))"

partial_function (option) main_loop ::
  "('db, 'st) host \<Rightarrow> (nat \<Rightarrow> ('bn, 'db) tick) \<Rightarrow> nat \<Rightarrow> ('bn, 'db, 'st) daemon \<Rightarrow>
     ('bn, 'db, 'st) daemon option" where
  "main_loop dx ticks n d =
     (if stopEvent d then Some d else main_loop dx ticks (Suc n) (loop_body dx (ticks n) d))"

definition shutdown :: "('bn, 'db, 'st) daemon \<Rightarrow> ('bn, 'db, 'st) daemon" where
  "shutdown d =
     destroy_AuthServer
       (emit [EvFlush] (UnhookSignals (emit [EvStop, EvDbHalt] (d\<lparr>d_system := Stop (d_system d)\<rparr>))))"

section \<open>The program\<close>

definition select_config :: "('db, 'st) host \<Rightarrow> string \<Rightarrow> string option" where
  "select_config dx cfg_file =
     (if cfg_SetSource dx cfg_file then Some cfg_file
      else if cfg_SetSource dx (REALMD_CONFIG_NAME dx) then Some (REALMD_CONFIG_NAME dx)
      else None)"

definition daemon_mode :: "('db, 'st) host \<Rightarrow> char \<Rightarrow> int option" where
  "daemon_mode dx mode =
     (if mode = CHR ''r'' then startDaemon dx
      else if mode = CHR ''s'' then stopDaemon dx else None)"

text \<open>
  \<open>None\<close> when the main loop does not end.  Every early return of the command line with code 1
  pauses once, the two for the version do not.
\<close>

definition main_realmd ::
  "('bn, 'db) ext \<Rightarrow> ('db, 'st) host \<Rightarrow> (nat \<Rightarrow> ('bn, 'db) tick) \<Rightarrow> string list \<Rightarrow> 'db world \<Rightarrow>
     (int \<times> event list) option" where
  "main_realmd x dx ticks args w =
     (case parse_args False args (REALMD_CONFIG_LOCATION dx) no_mode of
        CmdExit c \<Rightarrow> Some (c, if c = 1 then [EvWait] else [])
      | CmdRun cfg_file mode \<Rightarrow>
          if select_config dx cfg_file = None then Some (1, [EvWait])
          else case daemon_mode dx mode of
            Some c \<Rightarrow> Some (c, [])
          | None \<Rightarrow>
              (case start_up x dx (mk_daemon dx w) of
                 (Some c, d) \<Rightarrow> Some (c, events d)
               | (None, d) \<Rightarrow>
                   map_option (\<lambda>d. (int (unat (exitCode d)), events (shutdown d)))
                     (main_loop dx ticks 0 d)))"

section \<open>The loop as a sequence of rounds\<close>

primrec rounds ::
  "('db, 'st) host \<Rightarrow> (nat \<Rightarrow> ('bn, 'db) tick) \<Rightarrow> nat \<Rightarrow> ('bn, 'db, 'st) daemon \<Rightarrow> ('bn, 'db, 'st) daemon" where
  "rounds dx ticks 0 d = d"
| "rounds dx ticks (Suc n) d = loop_body dx (ticks n) (rounds dx ticks n d)"

lemma rounds_shift:
  "rounds dx ticks (Suc k) d = rounds dx (\<lambda>i. ticks (Suc i)) k (loop_body dx (ticks 0) d)"
  by (induction k) simp_all

lemma main_loop_skip:
  "(\<And>m. m < k \<Longrightarrow> \<not> stopEvent (rounds dx ticks m d)) \<Longrightarrow>
   main_loop dx ticks 0 d = main_loop dx ticks k (rounds dx ticks k d)"
proof (induction k)
  case (Suc k)
  then have "main_loop dx ticks 0 d = main_loop dx ticks k (rounds dx ticks k d)"
    "\<not> stopEvent (rounds dx ticks k d)" by simp_all
  then show ?case by (simp add: main_loop.simps [of dx ticks k])
qed simp

lemma main_loop_SomeD:
  assumes "main_loop dx ticks n d = Some d'"
  shows "\<exists>k. stopEvent d' \<and> d' = rounds dx (\<lambda>i. ticks (n + i)) k d \<and>
    (\<forall>m < k. \<not> stopEvent (rounds dx (\<lambda>i. ticks (n + i)) m d))"
  using assms
proof (induction rule: main_loop.raw_induct [rotated, consumes 1, case_names step])
  case (step main_loop dx ticks n d d')
  show ?case
  proof (cases "stopEvent d")
    case True
    with step(2) show ?thesis by (intro exI [of _ 0]) simp
  next
    case False
    with step(2) have "main_loop dx ticks (Suc n) (loop_body dx (ticks n) d) = Some d'" by simp
    from step(1) [OF this] obtain k where k: "stopEvent d'"
        "d' = rounds dx (\<lambda>i. ticks (n + i)) (Suc k) d"
        "\<forall>m < k. \<not> stopEvent (rounds dx (\<lambda>i. ticks (n + i)) (Suc m) d)"
      unfolding rounds_shift [where d = d] by auto
    from k(3) False have "\<forall>m < Suc k. \<not> stopEvent (rounds dx (\<lambda>i. ticks (n + i)) m d)"
      by (auto simp: less_Suc_eq_0_disj simp del: rounds.simps(2))
    with k(1,2) show ?thesis by blast
  qed
qed

lemma main_loop_iff:
  "main_loop dx ticks 0 d = Some d' \<longleftrightarrow>
     (\<exists>n. stopEvent d' \<and> d' = rounds dx ticks n d \<and> (\<forall>m < n. \<not> stopEvent (rounds dx ticks m d)))"
  (is "?L \<longleftrightarrow> ?R")
proof
  show "?L \<Longrightarrow> ?R" using main_loop_SomeD [of dx ticks 0 d d'] by simp
next
  assume ?R
  then obtain n where n: "stopEvent d'" "d' = rounds dx ticks n d" "\<forall>m < n. \<not> stopEvent (rounds dx ticks m d)"
    by blast
  then have "main_loop dx ticks 0 d = main_loop dx ticks n d'" using main_loop_skip [of n dx ticks d] by simp
  then show ?L using n(1) main_loop.simps [of dx ticks n d'] by simp
qed

lemma main_loop_returns_iff:
  "(\<exists>d'. main_loop dx ticks 0 d = Some d') \<longleftrightarrow> (\<exists>n. stopEvent (rounds dx ticks n d))"
proof
  assume "\<exists>n. stopEvent (rounds dx ticks n d)"
  then have "stopEvent (rounds dx ticks (LEAST n. stopEvent (rounds dx ticks n d)) d)"
      "\<forall>m < (LEAST n. stopEvent (rounds dx ticks n d)). \<not> stopEvent (rounds dx ticks m d)"
    by (auto intro: LeastI_ex dest: not_less_Least)
  then show "\<exists>d'. main_loop dx ticks 0 d = Some d'" by (auto simp: main_loop_iff)
qed (auto simp: main_loop_iff)

section \<open>What a round does\<close>

lemma emit_simps [simp]:
  "d_system (emit es d) = d_system d" "stopEvent (emit es d) = stopEvent d" "exitCode (emit es d) = exitCode d"
  "s_scheduledExit (emit es d) = s_scheduledExit d" "s_scheduledExitState (emit es d) = s_scheduledExitState d"
  "numLoops (emit es d) = numLoops d" "loopCounter (emit es d) = loopCounter d"
  "logFlushCounter (emit es d) = logFlushCounter d" "events (emit es d) = events d @ es"
  "caught (emit es d) = caught d"
  by (simp_all add: emit_def)

definition terminating :: "int list \<Rightarrow> bool" where
  "terminating sigs \<longleftrightarrow> SIGINT \<in> set sigs \<or> SIGTERM \<in> set sigs"

lemma fold_OnSignal:
  "fold OnSignal sigs d =
     (if terminating sigs then d\<lparr>stopEvent := True\<rparr> else d)\<lparr>caught := caught d \<union> set sigs\<rparr>"
  by (induction sigs arbitrary: d) (auto simp: OnSignal_def terminating_def Let_def)

lemmas housekeeping = sweep_def flush_log_def ping_database_def Let_def

lemma housekeeping_simps [simp]:
  "stopEvent (ping_database (flush_log (sweep now d))) = stopEvent d"
  "exitCode (ping_database (flush_log (sweep now d))) = exitCode d"
  "s_scheduledExit (ping_database (flush_log (sweep now d))) = s_scheduledExit d"
  "s_scheduledExitState (ping_database (flush_log (sweep now d))) = s_scheduledExitState d"
  "d_system (ping_database (flush_log (sweep now d))) = Update now (d_system d)"
  "numLoops (ping_database (flush_log (sweep now d))) = numLoops d"
  by (simp_all add: housekeeping)

lemma CheckScheduledExit_simps [simp]:
  "events (CheckScheduledExit dx d) = events d" "numLoops (CheckScheduledExit dx d) = numLoops d"
  "loopCounter (CheckScheduledExit dx d) = loopCounter d"
  "logFlushCounter (CheckScheduledExit dx d) = logFlushCounter d"
  "d_system (CheckScheduledExit dx d) = d_system d"
  "s_scheduledExit (CheckScheduledExit dx d) = s_scheduledExit d"
  by (simp_all add: CheckScheduledExit_def Let_def split_beta)

lemma loop_body_system [simp]:
  "d_system (loop_body dx t d) = Update (sweep_time t) (engine t (d_system d))"
  "s_scheduledExit (loop_body dx t d) = s_scheduledExit d"
  by (simp_all add: loop_body_def Let_def fold_OnSignal)

lemma loop_body_signal:
  "terminating (signals_early t @ signals_late t) \<Longrightarrow> stopEvent (loop_body dx t d)"
  by (auto simp: loop_body_def Let_def fold_OnSignal terminating_def CheckScheduledExit_def)

lemma loop_body_no_signal:
  "\<not> terminating (signals_early t @ signals_late t) \<Longrightarrow> \<not> enabled (s_scheduledExit d) \<Longrightarrow>
   stopEvent (loop_body dx t d) = stopEvent d"
  by (auto simp: loop_body_def Let_def fold_OnSignal terminating_def CheckScheduledExit_def)

lemma rounds_schedule [simp]: "s_scheduledExit (rounds dx ticks n d) = s_scheduledExit d"
  by (induction n) simp_all

text \<open>A caught signal stays caught, whether the system resets the handler or not.\<close>

lemma loop_body_caught: "caught d \<subseteq> caught (loop_body dx t d)"
  by (auto simp: loop_body_def Let_def fold_OnSignal CheckScheduledExit_def housekeeping split_beta)

lemma rounds_caught: "s \<in> caught d \<Longrightarrow> s \<in> caught (rounds dx ticks n d)"
  using loop_body_caught by (induction n) fastforce+

lemma deliver_caught: "s \<in> caught d \<Longrightarrow> deliver resets s d = Some (OnSignal s d)"
  by (auto simp: deliver_def OnSignal_def Let_def insert_absorb)

text \<open>After the shutdown neither signal is caught.\<close>

lemma shutdown_caught: "caught (shutdown d) = caught d - {SIGINT, SIGTERM}"
  by (auto simp: shutdown_def UnhookSignals_def destroy_AuthServer_def)

text \<open>The events of a round, and the counters, as numbers.\<close>

definition period :: "uint32 \<Rightarrow> nat" where
  "period n = (if n = 0 then 2 ^ 32 else unat n)"

lemma unat_plus_one32: "unat (v + 1 :: uint32) = (unat v + 1) mod 2 ^ 32"
  by (simp add: unat_word_ariths)

lemma flush_log_count:
  assumes "unat (logFlushCounter d) = n mod 10"
  shows "unat (logFlushCounter (flush_log d)) = Suc n mod 10"
    and "count_list (events (flush_log d)) EvFlush + n div 10 = count_list (events d) EvFlush + Suc n div 10"
    and "\<And>e. e \<noteq> EvFlush \<Longrightarrow> count_list (events (flush_log d)) e = count_list (events d) e"
proof -
  have m: "n mod 10 < 10" by simp
  have v: "unat (logFlushCounter d + 1) = n mod 10 + 1" using assms by (simp add: unat_plus_one32)
  show "unat (logFlushCounter (flush_log d)) = Suc n mod 10"
    using v m by (auto simp: flush_log_def Let_def word_le_nat_alt mod_Suc)
  show "count_list (events (flush_log d)) EvFlush + n div 10 = count_list (events d) EvFlush + Suc n div 10"
    using v m by (auto simp: flush_log_def Let_def word_le_nat_alt div_Suc mod_Suc)
  show "count_list (events (flush_log d)) e = count_list (events d) e" if "e \<noteq> EvFlush" for e
    using that by (simp add: flush_log_def Let_def)
qed

lemma wrapped_successor:
  fixes r p M :: nat
  assumes "r < p" and "p \<le> M"
  shows "(r + 1) mod M = p mod M \<longleftrightarrow> r + 1 = p"
proof (cases "r + 1 = p")
  case False
  with assms have "(r + 1) mod M = r + 1" "p mod M = (if p = M then 0 else p)" by simp_all
  with False show ?thesis by simp
qed simp

lemma ping_database_count:
  assumes "unat (loopCounter d) = n mod period (numLoops d)"
  shows "unat (loopCounter (ping_database d)) = Suc n mod period (numLoops d)"
    and "count_list (events (ping_database d)) EvPing + n div period (numLoops d) =
      count_list (events d) EvPing + Suc n div period (numLoops d)"
    and "\<And>e. e \<noteq> EvPing \<Longrightarrow> count_list (events (ping_database d)) e = count_list (events d) e"
proof -
  let ?p = "period (numLoops d)"
  have lim: "unat (numLoops d) < 2 ^ 32" using unsigned_less [of "numLoops d"] by simp
  have p: "0 < ?p" "?p \<le> 2 ^ 32" "?p mod 2 ^ 32 = unat (numLoops d)"
    using lim by (auto simp: period_def unat_gt_0 less_imp_le)
  have lt: "n mod ?p < ?p" using p(1) by simp
  have v: "loopCounter d + 1 = numLoops d \<longleftrightarrow> n mod ?p + 1 = ?p"
  proof -
    have "loopCounter d + 1 = numLoops d \<longleftrightarrow> (n mod ?p + 1) mod 2 ^ 32 = ?p mod 2 ^ 32"
      unfolding p(3) by (simp add: word_unat_eq_iff unat_plus_one32 assms)
    also have "\<dots> \<longleftrightarrow> n mod ?p + 1 = ?p" by (rule wrapped_successor [OF lt p(2)])
    finally show ?thesis .
  qed
  have u: "unat (loopCounter d + 1) = n mod ?p + 1" if "n mod ?p + 1 \<noteq> ?p"
    using that lt p(2) by (simp add: unat_plus_one32 assms)
  show "unat (loopCounter (ping_database d)) = Suc n mod ?p"
    using v u lt by (auto simp: ping_database_def Let_def mod_Suc)
  show "count_list (events (ping_database d)) EvPing + n div ?p = count_list (events d) EvPing + Suc n div ?p"
    using v lt by (auto simp: ping_database_def Let_def div_Suc mod_Suc)
  show "count_list (events (ping_database d)) e = count_list (events d) e" if "e \<noteq> EvPing" for e
    using that by (simp add: ping_database_def Let_def)
qed

text \<open>The invariant of the counters after \<open>n\<close> rounds.\<close>

definition counts_ok :: "('bn, 'db, 'st) daemon \<Rightarrow> nat \<Rightarrow> ('bn, 'db, 'st) daemon \<Rightarrow> bool" where
  "counts_ok d0 n d \<longleftrightarrow>
     numLoops d = numLoops d0 \<and> unat (logFlushCounter d) = n mod 10 \<and>
     unat (loopCounter d) = n mod period (numLoops d0) \<and>
     count_list (events d) EvFlush = count_list (events d0) EvFlush + n div 10 \<and>
     count_list (events d) EvPing = count_list (events d0) EvPing + n div period (numLoops d0)"

lemma counts_ok_body:
  assumes "counts_ok d0 n d"
  shows "counts_ok d0 (Suc n) (loop_body dx t d)"
proof -
  define d1 where "d1 = sweep (sweep_time t) (fold OnSignal (signals_early t) (d\<lparr>d_system := engine t (d_system d)\<rparr>))"
  have d1: "counts_ok d0 n d1"
    using assms by (simp add: d1_def sweep_def fold_OnSignal counts_ok_def)
  then have f: "unat (logFlushCounter d1) = n mod 10" by (simp add: counts_ok_def)
  note fl = flush_log_count [OF f]
  have k: "numLoops (flush_log d1) = numLoops d1" "loopCounter (flush_log d1) = loopCounter d1"
    by (simp_all add: flush_log_def Let_def)
  have "unat (loopCounter (flush_log d1)) = n mod period (numLoops (flush_log d1))"
    using d1 by (simp add: k counts_ok_def)
  note pi = ping_database_count [OF this]
  have g: "numLoops (ping_database d2) = numLoops d2" "logFlushCounter (ping_database d2) = logFlushCounter d2"
    for d2 :: "('a, 'b, 'c) daemon" by (simp_all add: ping_database_def Let_def)
  have "counts_ok d0 (Suc n) (ping_database (flush_log d1))"
    using d1 fl pi fl(3) [of EvPing] pi(3) [of EvFlush] by (simp add: counts_ok_def k g)
  then show ?thesis
    by (simp add: loop_body_def Let_def d1_def [symmetric]) (simp add: fold_OnSignal counts_ok_def)
qed

lemma counts_ok_rounds:
  assumes "loopCounter d = 0" and "logFlushCounter d = 0"
  shows "counts_ok d n (rounds dx ticks n d)"
proof (induction n)
  case 0
  show ?case using assms by (simp add: counts_ok_def)
qed (simp add: counts_ok_body)

section \<open>The start-up, step by step\<close>

text \<open>The settings the start-up reads.\<close>

abbreviation cfg_port :: "('bn, 'db) ext \<Rightarrow> ('db, 'st) host \<Rightarrow> uint16" where
  "cfg_port x dx \<equiv> word_of_int (cfg_GetIntDefault x ''RealmServerPort'' (DEFAULT_REALMSERVER_PORT dx))"

abbreviation cfg_bind :: "('db, 'st) host \<Rightarrow> string" where
  "cfg_bind dx \<equiv> cfg_GetStringDefault dx ''BindIP'' ''0.0.0.0''"

abbreviation cfg_policy :: "('bn, 'db) ext \<Rightarrow> ('db, 'st) host \<Rightarrow> PatchPolicy option" where
  "cfg_policy x dx \<equiv>
     Parse (cfg_GetBoolDefault x ''Patch.Enable'' True) (cfg_GetStringDefault dx ''Patch.ForceBuilds'' [])"

abbreviation cfg_realms :: "('bn, 'db) ext \<Rightarrow> 'db world \<Rightarrow> RealmList" where
  "cfg_realms x w \<equiv>
     Initialize x (login_db w) (wall_time w) (word_of_int (cfg_GetIntDefault x ''RealmsStateUpdateDelay'' 20)) (realm_list w)"

definition startup_possible :: "('bn, 'db) ext \<Rightarrow> ('db, 'st) host \<Rightarrow> 'db world \<Rightarrow> bool" where
  "startup_possible x dx w \<longleftrightarrow>
     (cfg_GetStringDefault dx ''PidFile'' [] = [] \<or> CreatePIDFile dx (cfg_GetStringDefault dx ''PidFile'' []) \<noteq> 0) \<and>
     cfg_GetStringDefault dx ''LoginDatabaseInfo'' [] \<noteq> [] \<and>
     db_Initialize dx (c_string (cfg_GetStringDefault dx ''LoginDatabaseInfo'' [])) \<and>
     db_CheckDatabaseVersion dx \<and> realm_count (cfg_realms x w) \<noteq> 0 \<and> cfg_policy x dx \<noteq> None \<and>
     server_start dx (cfg_port x dx) (cfg_bind dx)"

lemma LoadScheduledExitConfig_keeps [simp]:
  "d_system (LoadScheduledExitConfig x dx d) = d_system d"
  "events (LoadScheduledExitConfig x dx d) = events d"
  "stopEvent (LoadScheduledExitConfig x dx d) = stopEvent d"
  "exitCode (LoadScheduledExitConfig x dx d) = exitCode d"
  "caught (LoadScheduledExitConfig x dx d) = caught d"
  by (simp_all add: LoadScheduledExitConfig_def Let_def split: option.splits)

lemma check_conf_version_keeps [simp]:
  "d_system (check_conf_version x dx (init_log d)) = d_system d"
  "stopEvent (check_conf_version x dx (init_log d)) = stopEvent d"
  "exitCode (check_conf_version x dx (init_log d)) = exitCode d"
  "caught (check_conf_version x dx (init_log d)) = caught d"
  "s_scheduledExit (LoadScheduledExitConfig x dx (check_conf_version x dx (init_log d))) =
     s_scheduledExit (LoadScheduledExitConfig x dx d)"
  by (simp_all add: check_conf_version_def init_log_def LoadScheduledExitConfig_def now_time_def Let_def
      split: option.splits)

definition log_events :: "('bn, 'db) ext \<Rightarrow> ('db, 'st) host \<Rightarrow> event list" where
  "log_events x dx = EvLogInit #
     (if (word_of_int (cfg_GetIntDefault x ''ConfVersion'' 0) :: uint32) < REALMD_CONFIG_VERSION dx then [EvWait] else [])"

lemma check_conf_version_events [simp]:
  "events (check_conf_version x dx (init_log d)) = events d @ log_events x dx"
  by (simp add: check_conf_version_def init_log_def log_events_def Let_def)

lemma andThen_eq: "andThen f g d = (if fst (f d) = None then g (snd (f d)) else f d)"
  by (auto simp: andThen_def split: prod.splits option.splits)

lemma pid_file_simps:
  "fst (pid_file dx d) =
     (if cfg_GetStringDefault dx ''PidFile'' [] \<noteq> [] \<and> CreatePIDFile dx (cfg_GetStringDefault dx ''PidFile'' []) = 0
      then Some 1 else None)"
  "d_system (snd (pid_file dx d)) = d_system d"
  by (simp_all add: pid_file_def Let_def)

lemma start_db_simps:
  "fst (start_db dx d) =
     (if cfg_GetStringDefault dx ''LoginDatabaseInfo'' [] \<noteq> [] \<and>
         db_Initialize dx (c_string (cfg_GetStringDefault dx ''LoginDatabaseInfo'' [])) \<and> db_CheckDatabaseVersion dx
      then None else Some 1)"
  "d_system (snd (start_db dx d)) = d_system d"
  by (simp_all add: start_db_def StartDB_def Let_def)

lemma load_realms_simps:
  "fst (load_realms x d) = (if realm_count (cfg_realms x (shared (d_system d))) = 0 then Some 1 else None)"
  "d_system (snd (load_realms x d)) =
     (d_system d)\<lparr>shared := (shared (d_system d))\<lparr>realm_list := cfg_realms x (shared (d_system d))\<rparr>\<rparr>"
  by (simp_all add: load_realms_def with_shared_def Let_def)

lemma expire_bans_system:
  "d_system (expire_bans dx d) = (d_system d)\<lparr>shared := (shared (d_system d))\<lparr>login_db :=
     db_Execute dx (db_Execute dx (login_db (shared (d_system d))) sql_expire_account_bans) sql_expire_ip_bans\<rparr>\<rparr>"
  by (simp add: expire_bans_def with_shared_def)

lemma start_server_fst:
  "fst (start_server x dx d) =
     (if cfg_policy x dx \<noteq> None \<and> server_start dx (cfg_port x dx) (cfg_bind dx) then None else Some 1)"
  by (simp add: start_server_def Start_def Let_def split: option.splits)

lemma start_server_system:
  assumes "\<not> running (d_system d)"
  shows "running (d_system (snd (start_server x dx d))) = (fst (start_server x dx d) = None)"
  using assms by (simp add: start_server_def Start_def Let_def destroy_AuthServer_def Stop_def split: option.splits)

lemma enter_loop_simps:
  "fst (enter_loop x dx d) = None" "d_system (snd (enter_loop x dx d)) = d_system d"
  by (simp_all add: enter_loop_def HookSignals_def)

lemmas startup_simps = pid_file_simps start_db_simps load_realms_simps expire_bans_system start_server_fst
  enter_loop_simps

lemma mk_daemon_simps [simp]:
  "d_system (mk_daemon dx w) = mk_AuthServer w" "\<not> running (mk_AuthServer w)" "shared (mk_AuthServer w) = w"
  by (simp_all add: mk_daemon_def mk_AuthServer_def)

lemma start_up_outcome:
  "fst (start_up x dx (mk_daemon dx w)) = (if startup_possible x dx w then None else Some 1) \<and>
   running (d_system (snd (start_up x dx (mk_daemon dx w)))) = startup_possible x dx w"
  by (simp add: start_up_def andThen_eq startup_simps start_server_system startup_possible_def)

definition started_world :: "('bn, 'db) ext \<Rightarrow> ('db, 'st) host \<Rightarrow> 'db world \<Rightarrow> 'db world" where
  "started_world x dx w =
     w\<lparr>realm_list := cfg_realms x w,
       login_db := db_Execute dx (db_Execute dx (login_db w) sql_expire_account_bans) sql_expire_ip_bans\<rparr>"

lemma start_up_eq:
  assumes "startup_possible x dx w"
  shows "start_up x dx (mk_daemon dx w) =
    enter_loop x dx (snd (start_server x dx (expire_bans dx (snd (load_realms x (snd (start_db dx
      (snd (pid_file dx (LoadScheduledExitConfig x dx (check_conf_version x dx (init_log (mk_daemon dx w)))))))))))))"
  using assms by (auto simp: start_up_def andThen_eq startup_simps startup_possible_def)

lemma auth_timeout_value:
  "- (2 ^ 31) \<le> c \<Longrightarrow> c < 2 ^ 31 \<Longrightarrow> int (unat (auth_timeout c)) = (if c < 0 then 30 else c)"
  by (auto simp: auth_timeout_def uint_word_of_int)

lemma start_up_state:
  assumes "startup_possible x dx w" and "cfg_policy x dx = Some policy"
  shows "d_system (snd (start_up x dx (mk_daemon dx w))) =
     started (server_start dx) (cfg_port x dx) (cfg_bind dx)
       (int (unat (auth_timeout (cfg_GetIntDefault x ''AuthSessionTimeout'' 30)))) policy (started_world x dx w)"
proof -
  have "server_start dx (cfg_port x dx) (cfg_bind dx)" using assms(1) by (simp add: startup_possible_def)
  then show ?thesis using assms(2) unfolding start_up_eq [OF assms(1)]
    by (simp add: startup_simps start_server_def Start_def Let_def started_def started_world_def mk_AuthServer_def)
qed

lemma start_up_events:
  assumes "startup_possible x dx w"
  shows "events (snd (start_up x dx (mk_daemon dx w))) = log_events x dx @
     (let pidfile = cfg_GetStringDefault dx ''PidFile'' [] in if pidfile = [] then [] else [EvPidFile pidfile]) @
     [EvDbInit (cfg_GetStringDefault dx ''LoginDatabaseInfo'' []), EvBegin, EvExecute sql_expire_account_bans,
      EvExecute sql_expire_ip_bans, EvCommit, EvListen (cfg_port x dx) (cfg_bind dx), EvHookSignals,
      EvAllowAsync, EvDetach]"
  using assms unfolding start_up_eq [OF assms]
  by (auto simp: startup_possible_def enter_loop_def HookSignals_def start_server_def Start_def Let_def expire_bans_def with_shared_def
      load_realms_def start_db_def StartDB_def pid_file_def mk_daemon_def)

text \<open>The steps up to the listener leave the globals of the exit alone.\<close>

definition exit_vars :: "('bn, 'db, 'st) daemon \<Rightarrow> bool \<times> uint8 \<times> int set \<times> ScheduledExitSchedule" where
  "exit_vars d = (stopEvent d, exitCode d, caught d, s_scheduledExit d)"

lemma startup_exit_vars [simp]:
  "exit_vars (snd (pid_file dx d)) = exit_vars d" "exit_vars (snd (start_db dx d)) = exit_vars d"
  "exit_vars (snd (load_realms x d)) = exit_vars d" "exit_vars (expire_bans dx d) = exit_vars d"
  "exit_vars (snd (start_server x dx d)) = exit_vars d"
  by (auto simp: exit_vars_def pid_file_def start_db_def StartDB_def load_realms_def expire_bans_def with_shared_def
      start_server_def Start_def destroy_AuthServer_def Let_def split: option.splits)

lemma enter_loop_vars:
  "exit_vars (snd (enter_loop x dx d)) =
     (stopEvent d, exitCode d, insert SIGTERM (insert SIGINT (caught d)), s_scheduledExit d)"
  "loopCounter (snd (enter_loop x dx d)) = 0" "logFlushCounter (snd (enter_loop x dx d)) = 0"
  "numLoops (snd (enter_loop x dx d)) = num_loops x dx"
  by (simp_all add: exit_vars_def enter_loop_def HookSignals_def)

lemma start_up_vars:
  assumes "startup_possible x dx w"
  defines "d \<equiv> snd (start_up x dx (mk_daemon dx w))"
  shows "\<not> stopEvent d" "exitCode d = 0" "loopCounter d = 0" "logFlushCounter d = 0" "numLoops d = num_loops x dx"
    "caught d = {SIGTERM, SIGINT}"
    "s_scheduledExit d = s_scheduledExit (LoadScheduledExitConfig x dx (mk_daemon dx w))"
proof -
  define e where "e = snd (start_server x dx (expire_bans dx (snd (load_realms x (snd (start_db dx
      (snd (pid_file dx (LoadScheduledExitConfig x dx (check_conf_version x dx (init_log (mk_daemon dx w))))))))))))"
  have d: "d = snd (enter_loop x dx e)" unfolding d_def start_up_eq [OF assms(1)] e_def ..
  have "exit_vars e = (False, 0, {}, s_scheduledExit (LoadScheduledExitConfig x dx (mk_daemon dx w)))"
    unfolding e_def by (simp, simp add: exit_vars_def) (simp add: mk_daemon_def)
  with enter_loop_vars [of x dx e, folded d]
  show "\<not> stopEvent d" "exitCode d = 0" "loopCounter d = 0" "logFlushCounter d = 0" "numLoops d = num_loops x dx"
    "caught d = {SIGTERM, SIGINT}"
    "s_scheduledExit d = s_scheduledExit (LoadScheduledExitConfig x dx (mk_daemon dx w))"
    by (simp_all add: exit_vars_def)
qed

lemma start_up_caught:
  assumes "start_up x dx (mk_daemon dx w) = (None, d)"
  shows "caught d = {SIGTERM, SIGINT}"
proof -
  have "startup_possible x dx w" using start_up_outcome [of x dx w] assms by (simp split: if_splits)
  from start_up_vars(6) [OF this] assms show ?thesis by simp
qed

text \<open>Only a server that was started has listened.\<close>

lemma not_listening:
  "EvListen prt addr \<in> set (events (snd (pid_file dx d))) \<longleftrightarrow> EvListen prt addr \<in> set (events d)"
  "EvListen prt addr \<in> set (events (snd (start_db dx d))) \<longleftrightarrow> EvListen prt addr \<in> set (events d)"
  "EvListen prt addr \<in> set (events (snd (load_realms x d))) \<longleftrightarrow> EvListen prt addr \<in> set (events d)"
  "EvListen prt addr \<in> set (events (expire_bans dx d)) \<longleftrightarrow> EvListen prt addr \<in> set (events d)"
  "fst (start_server x dx d) \<noteq> None \<Longrightarrow>
     EvListen prt addr \<in> set (events (snd (start_server x dx d))) \<longleftrightarrow> EvListen prt addr \<in> set (events d)"
  by (auto simp: pid_file_def start_db_def StartDB_def load_realms_def expire_bans_def with_shared_def
      start_server_def Start_def destroy_AuthServer_def Let_def split: option.splits)

lemma start_up_fails:
  assumes "\<not> startup_possible x dx w"
  shows "EvListen prt addr \<notin> set (events (snd (start_up x dx (mk_daemon dx w))))"
proof -
  have "fst (start_up x dx (mk_daemon dx w)) \<noteq> None" using start_up_outcome [of x dx w] assms by simp
  moreover have "EvListen prt addr \<notin> set (events (mk_daemon dx w))" by (simp add: mk_daemon_def)
  ultimately show ?thesis
    by (auto simp: start_up_def andThen_eq not_listening enter_loop_simps log_events_def split: if_splits)
qed

end
