(* ===== verification/DaemonBehaviour.thy ===== *)
theory DaemonBehaviour
  imports Daemon
begin

text \<open>
  The properties of the daemon as a whole: when the start-up succeeds and what it has
  done by then, when the main loop ends, what it does periodically, the exit code, and how
  the loop's sweep and the server's sessions work together.
\<close>

section \<open>The exit code\<close>

definition restart_scheduled :: "('db, 'st) host \<Rightarrow> ('bn, 'db, 'st) daemon \<Rightarrow> bool" where
  "restart_scheduled dx d \<longleftrightarrow>
     enabled (s_scheduledExit d) \<and> sched_mode (s_scheduledExit d) = SCHEDULED_EXIT_MODE_RESTART dx"

definition exit_ok :: "('db, 'st) host \<Rightarrow> ('bn, 'db, 'st) daemon \<Rightarrow> bool" where
  "exit_ok dx d \<longleftrightarrow> exitCode d = 0 \<or> (exitCode d = 2 \<and> restart_scheduled dx d)"

lemma exit_ok_body: "exit_ok dx d \<Longrightarrow> exit_ok dx (loop_body dx t d)"
  by (auto simp: exit_ok_def restart_scheduled_def loop_body_def Let_def fold_OnSignal CheckScheduledExit_def
      REALMD_RESTART_EXIT_CODE_def REALMD_SHUTDOWN_EXIT_CODE_def split: prod.splits)

lemma exit_ok_rounds: "exit_ok dx d \<Longrightarrow> exit_ok dx (rounds dx ticks n d)"
  by (induction n) (simp_all add: exit_ok_body)

lemma LoadScheduledExitConfig_cases:
  assumes "Schedule_laws dx"
  shows "s_scheduledExit (LoadScheduledExitConfig x dx d) = default_schedule dx \<or>
    (\<exists>day h m md.
       cfg_GetBoolDefault x ''ScheduledExit.Enable'' False \<and>
       ParseScheduledExitUInt32 dx (cfg_GetStringDefault dx ''ScheduledExit.DayOfWeek'' ''3'') = Some day \<and>
       day \<le> 6 \<and>
       ParseScheduledExitTime dx (cfg_GetStringDefault dx ''ScheduledExit.Time'' ''05:00'') = Some (h, m) \<and>
       ParseScheduledExitMode dx (cfg_GetStringDefault dx ''ScheduledExit.Mode'' ''restart'') = Some md \<and>
       s_scheduledExit (LoadScheduledExitConfig x dx d) =
         \<lparr>enabled = True, dayOfWeek = day, hour = h, minute = m, sched_mode = md\<rparr>)"
  by (auto simp: LoadScheduledExitConfig_def Let_def split: option.splits)

lemma restart_scheduledD:
  assumes "Schedule_laws dx" and "startup_possible x dx w"
    and "restart_scheduled dx (rounds dx ticks n (snd (start_up x dx (mk_daemon dx w))))"
  shows "cfg_GetBoolDefault x ''ScheduledExit.Enable'' False \<and>
    ParseScheduledExitMode dx (cfg_GetStringDefault dx ''ScheduledExit.Mode'' ''restart'') =
      Some (SCHEDULED_EXIT_MODE_RESTART dx)"
  using assms(3) LoadScheduledExitConfig_cases [OF assms(1), of x "mk_daemon dx w"] assms(1)
  by (auto simp: restart_scheduled_def start_up_vars [OF assms(2)] Schedule_laws_def)

section \<open>The server under the loop\<close>

text \<open>
  What the other threads do between the loop's own actions are steps of the server, and
  they do not stop it: \<open>Stop\<close> is called after the loop.
\<close>

definition engine_runs :: "('bn, 'db) ext \<Rightarrow> (nat \<Rightarrow> ('bn, 'db) tick) \<Rightarrow> bool" where
  "engine_runs x ticks \<longleftrightarrow>
     (\<forall>k p. server_reachable x p (engine (ticks k) p) \<and> running (engine (ticks k) p) = running p)"

lemma rounds_running:
  "engine_runs x ticks \<Longrightarrow> running (d_system (rounds dx ticks n d)) = running (d_system d)"
  by (induction n) (simp_all add: engine_runs_def)

lemma rounds_reachable:
  assumes "engine_runs x ticks"
  shows "server_reachable x (d_system (rounds dx ticks n d)) (d_system (rounds dx ticks (n + k) d))"
proof (induction k)
  case 0
  show ?case by (simp add: server_reachable_def)
next
  case (Suc k)
  let ?p = "d_system (rounds dx ticks (n + k) d)"
  have "server_reachable x ?p (Update (sweep_time (ticks (n + k))) (engine (ticks (n + k)) ?p))"
    using assms server_reachable_trans [OF _ Update_reachable] unfolding engine_runs_def by blast
  with server_reachable_trans [OF Suc] show ?case by simp
qed

section \<open>Properties\<close>

text \<open>
  C24: the start-up succeeds exactly when it should.  \<open>main\<close> goes on to its loop if and only
  if the PID file (when configured) was created, the database is configured, reachable and
  of the right version, at least one realm was loaded, the patch configuration parses and
  the port can be bound; in every other case it returns 1, has not reported to listen and
  leaves no server running.
\<close>
theorem start_up_succeeds_iff:
  "let (r, d) = start_up x dx (mk_daemon dx w);
       possible =
        \<not> (cfg_GetStringDefault dx ''PidFile'' [] \<noteq> [] \<and> CreatePIDFile dx (cfg_GetStringDefault dx ''PidFile'' []) = 0) \<and>
        cfg_GetStringDefault dx ''LoginDatabaseInfo'' [] \<noteq> [] \<and>
        db_Initialize dx (c_string (cfg_GetStringDefault dx ''LoginDatabaseInfo'' [])) \<and>
        db_CheckDatabaseVersion dx \<and>
        realm_count (Initialize x (login_db w) (wall_time w)
          (word_of_int (cfg_GetIntDefault x ''RealmsStateUpdateDelay'' 20)) (realm_list w)) \<noteq> 0 \<and>
        Parse (cfg_GetBoolDefault x ''Patch.Enable'' True) (cfg_GetStringDefault dx ''Patch.ForceBuilds'' []) \<noteq> None \<and>
        server_start dx (word_of_int (cfg_GetIntDefault x ''RealmServerPort'' (DEFAULT_REALMSERVER_PORT dx)))
          (cfg_GetStringDefault dx ''BindIP'' ''0.0.0.0'')
   in r = (if possible then None else Some 1) \<and> running (d_system d) = possible \<and>
      possible = (\<exists>p a. EvListen p a \<in> set (events d))"
proof -
  have "startup_possible x dx w = (\<exists>p a. EvListen p a \<in> set (events (snd (start_up x dx (mk_daemon dx w)))))"
    using start_up_fails [of x dx w] start_up_events [of x dx w] by (cases "startup_possible x dx w") auto
  with start_up_outcome [of x dx w] show ?thesis
    by (simp add: split_beta Let_def startup_possible_def)
qed

text \<open>
  C27: what a successful start-up has done, in this order: the log, a pause if the version of
  the configuration file is too low, the PID file, the database, the removal of expired bans
  in one transaction, the listener on the configured port and address, the signal handlers,
  asynchronous database requests, detaching.  The server
  runs with the configured policy and the configured timeout, or 30 seconds when that is
  negative; no stop is requested and the exit code is 0.
\<close>
theorem start_up_sequence:
  assumes "start_up x dx (mk_daemon dx w) = (None, d)"
    and "c = cfg_GetIntDefault x ''AuthSessionTimeout'' 30" and "- (2 ^ 31) \<le> c" and "c < 2 ^ 31"
  shows "(\<exists>policy w'. d_system d = started (server_start dx)
            (word_of_int (cfg_GetIntDefault x ''RealmServerPort'' (DEFAULT_REALMSERVER_PORT dx)))
            (cfg_GetStringDefault dx ''BindIP'' ''0.0.0.0'') (if c < 0 then 30 else c) policy w' \<and>
          Some policy = Parse (cfg_GetBoolDefault x ''Patch.Enable'' True)
            (cfg_GetStringDefault dx ''Patch.ForceBuilds'' []) \<and>
          s_connections w' = s_connections w \<and> s_authed w' = s_authed w) \<and>
    events d = [EvLogInit] @
      (if (word_of_int (cfg_GetIntDefault x ''ConfVersion'' 0) :: uint32) < REALMD_CONFIG_VERSION dx then [EvWait] else []) @
      (let pidfile = cfg_GetStringDefault dx ''PidFile'' [] in if pidfile = [] then [] else [EvPidFile pidfile]) @
      [EvDbInit (cfg_GetStringDefault dx ''LoginDatabaseInfo'' []), EvBegin,
       EvExecute sql_expire_account_bans, EvExecute sql_expire_ip_bans, EvCommit,
       EvListen (word_of_int (cfg_GetIntDefault x ''RealmServerPort'' (DEFAULT_REALMSERVER_PORT dx)))
         (cfg_GetStringDefault dx ''BindIP'' ''0.0.0.0''),
       EvHookSignals, EvAllowAsync, EvDetach] \<and>
    \<not> stopEvent d \<and> exitCode d = 0"
proof -
  have ok: "startup_possible x dx w" using start_up_outcome [of x dx w] assms(1) by (simp split: if_splits)
  then obtain policy where p: "cfg_policy x dx = Some policy" by (auto simp: startup_possible_def)
  have d: "d = snd (start_up x dx (mk_daemon dx w))" using assms(1) by simp
  note st = start_up_state [OF ok p, folded d] and ev = start_up_events [OF ok, folded d]
  show ?thesis (is "?server \<and> ?events \<and> _")
  proof (intro conjI)
    show ?server using st p auth_timeout_value [OF assms(3,4)] unfolding assms(2) [symmetric]
      by (intro exI [of _ policy] exI [of _ "started_world x dx w"]) (simp add: started_world_def)
    show ?events unfolding ev by (simp add: log_events_def Let_def)
  qed (use start_up_vars(1,2) [OF ok] d in simp_all)
qed

text \<open>
  C23: a termination signal ends the loop, and never the process.  Once the start-up is done
  \<open>SIGINT\<close> and \<open>SIGTERM\<close> are caught in every round, also on a system that resets the handler
  at each delivery; and if one of them is delivered during round \<open>k\<close>, the loop returns after
  at most \<open>k + 1\<close> rounds, with \<open>stopEvent\<close> set.
\<close>
theorem signal_ends_loop:
  assumes "start_up x dx (mk_daemon dx w) = (None, d)"
    and "sig \<in> set (signals_early (ticks k) @ signals_late (ticks k))" and "sig = SIGINT \<or> sig = SIGTERM"
  shows "(\<forall>resets n. deliver resets sig (rounds dx ticks n d) = Some (OnSignal sig (rounds dx ticks n d))) \<and>
    (\<exists>n d'. n \<le> k + 1 \<and> main_loop dx ticks 0 d = Some d' \<and> d' = rounds dx ticks n d \<and> stopEvent d')"
proof -
  have "sig \<in> caught d" using start_up_caught [OF assms(1)] assms(3) by auto
  then have c: "\<forall>resets n. deliver resets sig (rounds dx ticks n d) = Some (OnSignal sig (rounds dx ticks n d))"
    by (simp add: deliver_caught rounds_caught)
  have "terminating (signals_early (ticks k) @ signals_late (ticks k))"
    using assms by (auto simp: terminating_def)
  then have stop: "stopEvent (rounds dx ticks (Suc k) d)" by (simp add: loop_body_signal)
  then obtain d' where "main_loop dx ticks 0 d = Some d'" using main_loop_returns_iff by blast
  then obtain n where n: "stopEvent d'" "d' = rounds dx ticks n d"
      "\<forall>m < n. \<not> stopEvent (rounds dx ticks m d)" "main_loop dx ticks 0 d = Some d'"
    unfolding main_loop_iff by blast
  with stop have "n \<le> Suc k" using not_less by blast
  with n c show ?thesis by auto
qed

text \<open>
  C32: nothing else ends it.  Without a scheduled exit the loop of a daemon that is not
  stopping returns if and only if some round delivers a termination signal; otherwise it
  runs for ever.
\<close>
theorem loop_returns_iff_signalled:
  assumes "\<not> stopEvent d" and "\<not> enabled (s_scheduledExit d)"
  shows "main_loop dx ticks 0 d \<noteq> None \<longleftrightarrow>
    (\<exists>k. SIGINT \<in> set (signals_early (ticks k) @ signals_late (ticks k)) \<or>
         SIGTERM \<in> set (signals_early (ticks k) @ signals_late (ticks k)))"
proof -
  have "main_loop dx ticks 0 d \<noteq> None \<longleftrightarrow> (\<exists>n. stopEvent (rounds dx ticks n d))"
    using main_loop_returns_iff by (metis not_None_eq)
  moreover have "\<not> stopEvent (rounds dx ticks n d)"
    if "\<And>k. \<not> terminating (signals_early (ticks k) @ signals_late (ticks k))" for n
    using that assms by (induction n) (simp_all add: loop_body_no_signal)
  moreover have "stopEvent (rounds dx ticks (Suc k) d)"
    if "terminating (signals_early (ticks k) @ signals_late (ticks k))" for k
    using that by (simp add: loop_body_signal)
  ultimately show ?thesis unfolding terminating_def by metis
qed

text \<open>
  C33: the housekeeping is periodic.  After \<open>n\<close> rounds from the start of the loop the log
  was flushed \<open>n div 10\<close> times and the database pinged once every \<open>numLoops\<close> rounds; a
  \<open>numLoops\<close> of 0 means once every \<open>2 ^ 32\<close> rounds, when the counter wraps around.
\<close>
theorem housekeeping_periodic:
  assumes "start_up x dx (mk_daemon dx w) = (None, d)"
  shows "count_list (events (rounds dx ticks n d)) EvFlush = n div 10 \<and>
    count_list (events (rounds dx ticks n d)) EvPing =
      n div (if num_loops x dx = 0 then 2 ^ 32 else unat (num_loops x dx))"
proof -
  have ok: "startup_possible x dx w" using start_up_outcome [of x dx w] assms by (simp split: if_splits)
  have d: "d = snd (start_up x dx (mk_daemon dx w))" using assms by simp
  from counts_ok_rounds [of d n dx ticks] start_up_vars [OF ok, folded d] start_up_events [OF ok, folded d]
  show ?thesis by (auto simp: counts_ok_def period_def Let_def log_events_def)
qed

text \<open>
  C25: the exit code and the end of the process.  Unless \<open>startDaemon\<close> or \<open>stopDaemon\<close>
  ended the process, \<open>main\<close> returns 0, 1 or 2; it returns 2 only when a scheduled exit is
  configured with the mode restart; and if it ever listened, it has stopped the server,
  halted the database thread, removed the signal handlers and flushed the log, in this
  order, before returning.
\<close>
theorem main_exit:
  assumes "Schedule_laws dx" and "startDaemon dx = None" and "stopDaemon dx = None"
    and "main_realmd x dx ticks args w = Some (c, evs)"
  shows "c \<in> {0, 1, 2} \<and>
    (c = 2 \<longrightarrow> cfg_GetBoolDefault x ''ScheduledExit.Enable'' False \<and>
       ParseScheduledExitMode dx (cfg_GetStringDefault dx ''ScheduledExit.Mode'' ''restart'') =
         Some (SCHEDULED_EXIT_MODE_RESTART dx)) \<and>
    ((\<exists>p a. EvListen p a \<in> set evs) \<longrightarrow>
       (\<exists>pre. evs = pre @ [EvStop, EvDbHalt, EvUnhookSignals, EvFlush, EvStop]))"
proof -
  let ?d = "snd (start_up x dx (mk_daemon dx w))"
  have mode: "daemon_mode dx m = None" for m by (simp add: daemon_mode_def assms(2,3))
  consider (cmd) "c = 0 \<or> c = 1" "set evs \<subseteq> {EvWait}"
    | (fail) "\<not> startup_possible x dx w" "c = 1" "evs = events ?d"
    | (loop) d' where "startup_possible x dx w" "main_loop dx ticks 0 ?d = Some d'"
        "c = int (unat (exitCode d'))" "evs = events (shutdown d')"
    using assms(4) parse_args_exit [of False args "REALMD_CONFIG_LOCATION dx" no_mode] start_up_outcome [of x dx w]
    by (auto simp: main_realmd_def mode split: cmdline.splits if_splits prod.splits option.splits)
  then show ?thesis
  proof cases
    case cmd
    then show ?thesis by auto
  next
    case fail
    with start_up_fails [OF fail(1)] show ?thesis by auto
  next
    case (loop d')
    then obtain n where n: "d' = rounds dx ticks n ?d" unfolding main_loop_iff by blast
    have "exit_ok dx d'" unfolding n
      by (rule exit_ok_rounds) (simp add: exit_ok_def start_up_vars [OF loop(1)])
    with restart_scheduledD [OF assms(1) loop(1), of ticks n] loop(3,4) n show ?thesis
      by (auto simp: exit_ok_def shutdown_def UnhookSignals_def destroy_AuthServer_def)
  qed
qed

text \<open>
  A scheduled exit is enabled exactly when it is switched on and all three of its
  settings are valid, and then with these settings; one invalid setting disables it.
\<close>
lemma scheduled_exit_enabled_iff:
  assumes "Schedule_laws dx"
  shows "let day = ParseScheduledExitUInt32 dx (cfg_GetStringDefault dx ''ScheduledExit.DayOfWeek'' ''3'');
             tim = ParseScheduledExitTime dx (cfg_GetStringDefault dx ''ScheduledExit.Time'' ''05:00'');
             md = ParseScheduledExitMode dx (cfg_GetStringDefault dx ''ScheduledExit.Mode'' ''restart'');
             sch = s_scheduledExit (LoadScheduledExitConfig x dx d)
         in (enabled sch \<longleftrightarrow> cfg_GetBoolDefault x ''ScheduledExit.Enable'' False \<and>
               (\<exists>n. day = Some n \<and> n \<le> 6) \<and> tim \<noteq> None \<and> md \<noteq> None) \<and>
            (enabled sch \<longrightarrow> day = Some (dayOfWeek sch) \<and> tim = Some (hour sch, minute sch) \<and>
               md = Some (sched_mode sch))"
  using assms by (auto simp: LoadScheduledExitConfig_def Schedule_laws_def Let_def split: option.splits)

text \<open>
  C13: the daemon keeps the promise of its session timeout.  With a positive
  \<open>AuthSessionTimeout\<close>, a session that is alive when round \<open>n\<close> of the main loop sweeps, at
  or after its deadline, is closed, authenticated or occupied with a patch in every later
  round in which it is still alive, whatever the network threads do in between.
\<close>
theorem daemon_settles_sessions:
  assumes "start_up x dx (mk_daemon dx w) = (None, d)" and "s_connections w = 0" and "s_authed w = 0"
    and "engine_runs x ticks"
    and "c = cfg_GetIntDefault x ''AuthSessionTimeout'' 30" and "0 < c" and "c < 2 ^ 31"
    and "live (engine (ticks n) (d_system (rounds dx ticks n d))) i \<noteq> None"
    and "n < m" and "live (d_system (rounds dx ticks m d)) i = Some ob"
    and "obj_created ob + c * ns_per_second \<le> sweep_time (ticks n)"
  shows "m_closed (obj_sock ob) \<or> status (obj_sock ob) = STATUS_AUTHED \<or>
    status (obj_sock ob) = STATUS_PATCH \<or> transfers (obj_sock ob) \<noteq> []"
proof -
  let ?p = "engine (ticks n) (d_system (rounds dx ticks n d))"
  have ok: "startup_possible x dx w" using start_up_outcome [of x dx w] assms(1) by (simp split: if_splits)
  then obtain policy where p: "cfg_policy x dx = Some policy" by (auto simp: startup_possible_def)
  have d: "d = snd (start_up x dx (mk_daemon dx w))" using assms(1) by simp
  note st = start_up_state [OF ok p, folded d assms(5)]
  have "server_reachable x (d_system d) (d_system (rounds dx ticks n d))"
    using rounds_reachable [OF assms(4), of dx 0 d n] by simp
  then have r: "server_reachable x (d_system d) ?p"
    using server_reachable_trans assms(4) unfolding engine_runs_def by blast
  have run: "running ?p"
    using assms(4) rounds_running [OF assms(4), of dx n d] start_up_outcome [of x dx w, folded d] ok
    by (simp add: engine_runs_def)
  obtain k where m: "m = Suc n + k" using assms(9) by (metis less_imp_Suc_add add_Suc)
  have q: "server_reachable x (Update (sweep_time (ticks n)) ?p) (d_system (rounds dx ticks m d))"
    using rounds_reachable [OF assms(4), of dx "Suc n" d k] by (simp add: m)
  have "int (unat (auth_timeout c)) = c" using auth_timeout_value [of c] assms(6,7) by simp
  with overdue_settled [OF r [unfolded st] _ _ run _ assms(8) q assms(10)] assms(2,3,6,11)
  show ?thesis by (simp add: started_world_def)
qed

section \<open>A concrete daemon\<close>

definition example_host :: "(unit, unit) host" where
  "example_host =
     \<lparr>REALMD_CONFIG_LOCATION = ''/etc/realmd.conf'', REALMD_CONFIG_NAME = ''realmd.conf'',
      REALMD_CONFIG_VERSION = 0, DEFAULT_REALMSERVER_PORT = 3724, MINUTE = 60, cfg_SetSource = (\<lambda>_. True),
      cfg_GetStringDefault = (\<lambda>k v. if k = ''LoginDatabaseInfo'' then ''login'' else v),
      startDaemon = None, stopDaemon = None, CreatePIDFile = (\<lambda>_. 1), db_Initialize = (\<lambda>_. True),
      db_CheckDatabaseVersion = True, db_Execute = (\<lambda>d _. d), server_start = (\<lambda>_ _. True),
      default_schedule = \<lparr>enabled = False, dayOfWeek = 0, hour = 0, minute = 0, sched_mode = 0\<rparr>,
      default_exit_state = (), ParseScheduledExitUInt32 = (\<lambda>_. Some 3),
      ParseScheduledExitTime = (\<lambda>_. Some (5, 0)), ParseScheduledExitMode = (\<lambda>_. Some 1),
      SCHEDULED_EXIT_MODE_RESTART = 1, MarkScheduledExitHandledIfMatching = (\<lambda>_ _ st. (False, st)),
      CheckAndMarkScheduledExit = (\<lambda>_ _ st. (False, st))\<rparr>"

definition realm_ext :: "(nat, unit) ext" where
  "realm_ext = example_ext id (\<lambda>_. None) [example_row 1 ''A'' ''5875'']"

text \<open>Every round a client connects, while the server runs; the third round brings \<open>SIGTERM\<close>.\<close>

definition example_tick :: "nat \<Rightarrow> (nat, unit) tick" where
  "example_tick k =
     \<lparr>engine = (\<lambda>p. if running p then accept realm_ext 100 ''10.0.0.1'' None p else p),
      sweep_time = 100 + 30 * ns_per_second, signals_early = (if k = 2 then [SIGTERM] else []),
      signals_late = []\<rparr>"

definition example_daemon :: "(nat, unit, unit) daemon" where
  "example_daemon = snd (start_up realm_ext example_host (mk_daemon example_host idle_world))"

lemma example_settings [simp]:
  "cfg_GetIntDefault realm_ext k n = n" "cfg_GetBoolDefault realm_ext k b = b"
  "cfg_GetStringDefault example_host k v = (if k = ''LoginDatabaseInfo'' then ''login'' else v)"
  "Schedule_laws example_host" "startDaemon example_host = None" "stopDaemon example_host = None"
  "cfg_SetSource example_host f" "server_start example_host prt addr" "db_Initialize example_host f"
  "db_CheckDatabaseVersion example_host"
  by (simp_all add: realm_ext_def example_ext_def example_host_def Schedule_laws_def)

lemma example_realms: "realm_count (Initialize realm_ext d now n rl) = 1"
proof -
  have q: "db_Query realm_ext () realmlist_query = [example_row 1 ''A'' ''5875'']"
    by (simp add: realm_ext_def example_ext_def)
  have "realms (BuildSnapshot realm_ext d) = [row_name (example_row 1 ''A'' ''5875'') \<mapsto>
      row_realm realm_ext (example_row 1 ''A'' ''5875'')]"
    using BuildSnapshot_rows [of "[example_row 1 ''A'' ''5875'']" realm_ext] by (simp add: BuildSnapshot_def q)
  then show ?thesis by (simp add: realm_count_def Initialize_def)
qed

lemma example_policy: "Parse b [] = Some (default_PatchPolicy\<lparr>m_enabled := b\<rparr>)"
  by (simp add: Parse_def)

lemma example_possible: "startup_possible realm_ext example_host idle_world"
  by (simp add: startup_possible_def example_realms example_policy)

lemma example_start_up:
  "start_up realm_ext example_host (mk_daemon example_host idle_world) = (None, example_daemon)"
  using start_up_outcome [of realm_ext example_host idle_world] example_possible
  by (cases "start_up realm_ext example_host (mk_daemon example_host idle_world)") (simp add: example_daemon_def)

lemma example_engine_runs: "engine_runs realm_ext example_tick"
proof -
  have "server_reachable realm_ext p (engine (example_tick k) p)" for k p
    using server_step.accept [of p realm_ext 100 "''10.0.0.1''" None]
    by (auto simp: example_tick_def server_reachable_def)
  moreover have "running (engine (example_tick k) p) = running p" for k p
    by (simp add: example_tick_def accept_eq split: prod.splits)
  ultimately show ?thesis by (simp add: engine_runs_def)
qed

lemma example_daemon_simps [simp]:
  "\<not> stopEvent example_daemon" "\<not> enabled (s_scheduledExit example_daemon)"
  "running (d_system example_daemon)" "next_object (d_system example_daemon) = 0"
  using start_up_vars [OF example_possible, folded example_daemon_def]
    start_up_outcome [of realm_ext example_host idle_world, folded example_daemon_def] example_possible
    start_up_state [OF example_possible, folded example_daemon_def]
  by (simp_all add: example_policy LoadScheduledExitConfig_def Let_def started_def Start_def mk_AuthServer_def)
    (simp add: example_host_def)

theorem start_up_sequence_witness:
  "(\<exists>policy w'. d_system example_daemon =
      started (server_start example_host) 3724 ''0.0.0.0'' 30 policy w') \<and> exitCode example_daemon = 0"
  using start_up_sequence [OF example_start_up refl]
  by (simp add: example_host_def) blast

theorem signal_ends_loop_witness:
  "deliver True SIGTERM (rounds example_host example_tick 2 example_daemon) =
     Some (OnSignal SIGTERM (rounds example_host example_tick 2 example_daemon)) \<and>
   (\<exists>n d'. n \<le> 3 \<and> main_loop example_host example_tick 0 example_daemon = Some d' \<and>
     d' = rounds example_host example_tick n example_daemon \<and> stopEvent d')"
  using signal_ends_loop [OF example_start_up, of SIGTERM example_tick 2]
  by (simp add: example_tick_def)

theorem loop_returns_iff_signalled_witness:
  "main_loop example_host (\<lambda>k. (example_tick k)\<lparr>signals_early := []\<rparr>) 0 example_daemon = None"
  using loop_returns_iff_signalled [of example_daemon example_host "\<lambda>k. (example_tick k)\<lparr>signals_early := []\<rparr>"]
  by (simp add: example_tick_def)

theorem housekeeping_periodic_witness:
  "count_list (events (rounds example_host example_tick 18000 example_daemon)) EvFlush = 1800 \<and>
   count_list (events (rounds example_host example_tick 18000 example_daemon)) EvPing = 1"
proof -
  have "num_loops realm_ext example_host = 18000" by (simp add: num_loops_def) (simp add: example_host_def)
  with housekeeping_periodic [OF example_start_up, of example_tick 18000] show ?thesis by simp
qed

theorem main_exit_witness:
  "\<exists>c evs. main_realmd realm_ext example_host example_tick [] idle_world = Some (c, evs) \<and> c \<in> {0, 1, 2} \<and> c \<noteq> 2"
proof -
  have "stopEvent (rounds example_host example_tick (Suc 2) example_daemon)"
    by (simp only: rounds.simps) (rule loop_body_signal, simp add: example_tick_def terminating_def)
  then obtain d' where "main_loop example_host example_tick 0 example_daemon = Some d'"
    using main_loop_returns_iff by blast
  then obtain c evs where r: "main_realmd realm_ext example_host example_tick [] idle_world = Some (c, evs)"
    by (auto simp: main_realmd_def select_config_def daemon_mode_def example_start_up)
  from main_exit [OF _ _ _ r] r show ?thesis by auto
qed

theorem daemon_settles_sessions_witness:
  "\<exists>ob. live (d_system (rounds example_host example_tick 1 example_daemon)) 0 = Some ob \<and>
     (m_closed (obj_sock ob) \<or> status (obj_sock ob) = STATUS_AUTHED \<or>
      status (obj_sock ob) = STATUS_PATCH \<or> transfers (obj_sock ob) \<noteq> [])"
proof -
  let ?p = "engine (example_tick 0) (d_system example_daemon)"
  obtain ob0 where ob0: "live ?p 0 = Some ob0" "obj_created ob0 = 100"
    using accept_object [of realm_ext 100 "''10.0.0.1''" None "d_system example_daemon"]
    by (auto simp: example_tick_def)
  have run: "running ?p" using example_engine_runs by (simp add: engine_runs_def)
  have "server_ok realm_ext 30 ?p"
  proof (rule server_ok_reachable)
    show "server_reachable realm_ext (d_system example_daemon) ?p"
      using example_engine_runs by (simp add: engine_runs_def)
    show "server_ok realm_ext 30 (d_system example_daemon)"
      using start_up_state [OF example_possible, folded example_daemon_def] auth_timeout_value [of 30]
        server_ok_Start [of "started_world realm_ext example_host idle_world" realm_ext 30]
      by (simp add: example_policy started_def started_world_def)
  qed
  from Update_object [OF this run ob0(1), of "100 + 30 * ns_per_second"] ob0(2) obtain ob
    where ob: "live (d_system (rounds example_host example_tick 1 example_daemon)) 0 = Some ob" "obj_created ob = 100"
    by (auto simp: example_tick_def)
  with daemon_settles_sessions [OF example_start_up _ _ example_engine_runs refl _ _ _ _ ob(1), of 0] ob0
  show ?thesis by (auto simp: example_tick_def)
qed

end
