(* ===== verification/WindowsBuild.thy ===== *)
theory WindowsBuild
  imports Daemon
begin

text \<open>
  The parts of \<open>src/Main.cpp\<close> that only the Windows build has: the service commands, the
  processor mask, the console title, and the service status at the end of a round of the
  main loop.  The calls of the system are external; what the code asks of them is a value.
\<close>

section \<open>Service commands\<close>

text \<open>
  The \<open>switch\<close> before the configuration is read: installing and uninstalling return 1 whether
  or not they succeed, \<open>WinServiceRun\<close> returns and the program goes on.
\<close>

datatype service_call = WinServiceInstall | WinServiceUninstall | WinServiceRun

definition service_command :: "char \<Rightarrow> service_call list \<times> int option" where
  "service_command m =
     (if m = CHR ''i'' then ([WinServiceInstall], Some 1)
      else if m = CHR ''u'' then ([WinServiceUninstall], Some 1)
      else if m = CHR ''r'' then ([WinServiceRun], None)
      else ([], None))"

section \<open>Processors and priority\<close>

datatype process_call = SetProcessAffinityMask uint64 | SetPriorityClassHigh

text \<open>
  \<open>UseProcessors\<close> is read as a \<open>uint32\<close> and the masks are \<open>ULONG_PTR\<close>; \<open>answer\<close> is the answer of
  \<open>GetProcessAffinityMask\<close>, \<open>None\<close> when it fails.
\<close>

definition use_processors :: "uint32 \<Rightarrow> uint64 option \<Rightarrow> process_call list" where
  "use_processors Aff answer =
     (if Aff > 0
      then (case answer of
              None \<Rightarrow> []
            | Some appAff \<Rightarrow>
                let curAff = ucast Aff AND appAff in
                if curAff = 0 then [] else [SetProcessAffinityMask curAff])
      else [])"

definition process_setup :: "('bn, 'db) ext \<Rightarrow> uint64 option \<Rightarrow> process_call list" where
  "process_setup x answer =
     use_processors (word_of_int (cfg_GetIntDefault x ''UseProcessors'' 0)) answer @
     (if cfg_GetBoolDefault x ''ProcessPriority'' False then [SetPriorityClassHigh] else [])"

text \<open>Only processors the process may use are asked for, and never none.\<close>

lemma use_processors_accessible:
  assumes "SetProcessAffinityMask m \<in> set (use_processors Aff answer)"
  shows "m \<noteq> 0 \<and> (\<exists>appAff. answer = Some appAff \<and> m AND appAff = m) \<and> m AND ucast Aff = m"
proof -
  from assms obtain appAff where an: "answer = Some appAff" and "Aff > 0"
    by (cases answer; cases "Aff > 0") (simp_all add: use_processors_def)
  define c where "c = (ucast Aff AND appAff :: uint64)"
  have "use_processors Aff answer = (if c = 0 then [] else [SetProcessAffinityMask c])"
    using an \<open>Aff > 0\<close> by (simp only: use_processors_def Let_def option.case if_True c_def)
  with assms have m: "m = c" "m \<noteq> 0" by (cases "c = 0"; simp)+
  have "m AND appAff = m" "m AND ucast Aff = m"
    unfolding m(1) c_def by (rule bit_word_eqI, auto simp: bit_and_iff)+
  with m(2) an show ?thesis by blast
qed

section \<open>The console title\<close>

record console =
  s_lastTitle :: string
  titleUpdateCounter :: uint32
  titles :: "string list"

definition mk_console :: console where
  "mk_console = \<lparr>s_lastTitle = [], titleUpdateCounter = 0, titles = []\<rparr>"

definition title_text :: "uint32 \<Rightarrow> uint32 \<Rightarrow> string" where
  "title_text authWaiting connections =
     ''MaNGOS Realm-Daemon ('' @ to_decimal (unat authWaiting) @ '' Auth/Waiting - '' @
     to_decimal (unat connections) @ '' Connections)''"

text \<open>\<open>snprintf\<close> into 128 characters; \<open>titles\<close> are the calls of \<open>SetConsoleTitleA\<close>.\<close>

definition UpdateConsoleTitle :: "uint32 \<Rightarrow> uint32 \<Rightarrow> console \<Rightarrow> console" where
  "UpdateConsoleTitle authWaiting connections t =
     (let newTitle = take 127 (title_text authWaiting connections) in
      if s_lastTitle t \<noteq> newTitle then t\<lparr>s_lastTitle := newTitle, titles := titles t @ [newTitle]\<rparr> else t)"

definition title_round :: "uint32 \<Rightarrow> uint32 \<Rightarrow> console \<Rightarrow> console" where
  "title_round authWaiting connections t =
     (let t = t\<lparr>titleUpdateCounter := titleUpdateCounter t + 1\<rparr> in
      if titleUpdateCounter t \<ge> 30
      then UpdateConsoleTitle authWaiting connections (t\<lparr>titleUpdateCounter := 0\<rparr>) else t)"

text \<open>The buffer is large enough for every pair of counters.\<close>

lemma title_fits: "take 127 (title_text a c) = title_text a c"
proof -
  have "length (to_decimal (unat v)) \<le> 10" for v :: uint32
    using length_to_decimal [of "unat v" 9] unsigned_less [of v, where 'a = nat] by simp
  from this [of a] this [of c] have "length (title_text a c) \<le> 127" by (simp add: title_text_def)
  then show ?thesis by simp
qed

text \<open>
  After an update the title shows the counters, the system is called only for a change, and
  two calls in a row never set the same title.
\<close>

definition console_ok :: "console \<Rightarrow> bool" where
  "console_ok t \<longleftrightarrow> distinct_adj (titles t) \<and> s_lastTitle t = (if titles t = [] then [] else last (titles t)) \<and>
     [] \<notin> set (titles t)"

lemma title_text_nonempty [simp]: "title_text a c \<noteq> []" "[] \<noteq> title_text a c"
  by (simp_all add: title_text_def)

lemma UpdateConsoleTitle_ok:
  assumes "console_ok t"
  shows "console_ok (UpdateConsoleTitle a c t) \<and> s_lastTitle (UpdateConsoleTitle a c t) = title_text a c \<and>
    last (titles (UpdateConsoleTitle a c t)) = title_text a c"
  using assms
  by (auto simp: UpdateConsoleTitle_def title_fits Let_def console_ok_def distinct_adj_append_iff split: if_splits)

lemma title_round_ok: "console_ok t \<Longrightarrow> console_ok (title_round a c t)"
  using UpdateConsoleTitle_ok [of "t\<lparr>titleUpdateCounter := 0\<rparr>" a c]
  by (simp add: title_round_def Let_def console_ok_def)

lemma titles_never_repeated: "console_ok (fold (\<lambda>(a, c). title_round a c) counts mk_console)"
proof -
  have "console_ok t \<Longrightarrow> console_ok (fold (\<lambda>(a, c). title_round a c) counts t)" for t
    by (induction counts arbitrary: t) (auto simp: title_round_ok)
  then show ?thesis by (simp add: console_ok_def mk_console_def)
qed

section \<open>The service status\<close>

text \<open>
  The end of a round: \<open>m_ServiceStatus\<close> is changed by the service control thread, so it is a
  sequence of values, one for each time it is read.  A paused service (2) waits; \<open>None\<close> when it
  is never resumed.
\<close>

partial_function (option) wait_paused :: "(nat \<Rightarrow> int) \<Rightarrow> nat \<Rightarrow> nat option" where
  "wait_paused m_ServiceStatus k =
     (if m_ServiceStatus k = 2 then wait_paused m_ServiceStatus (Suc k) else Some (Suc k))"

definition service_round ::
  "(nat \<Rightarrow> int) \<Rightarrow> nat \<Rightarrow> ('bn, 'db, 'st) daemon \<Rightarrow> (nat \<times> ('bn, 'db, 'st) daemon) option" where
  "service_round m_ServiceStatus k d =
     (let d = (if m_ServiceStatus k = 0 then d\<lparr>stopEvent := True\<rparr> else d)
      in map_option (\<lambda>k. (k, d)) (wait_paused m_ServiceStatus (Suc k)))"

lemma wait_paused_skip:
  "(\<And>i. i < n \<Longrightarrow> st (k + i) = 2) \<Longrightarrow> wait_paused st k = wait_paused st (k + n)"
proof (induction n)
  case (Suc n)
  then have "wait_paused st k = wait_paused st (k + n)" "st (k + n) = 2" by simp_all
  then show ?case by (simp add: wait_paused.simps [of st "k + n"])
qed simp

lemma wait_paused_resumes:
  assumes "st (k + n) \<noteq> 2" and "\<And>i. i < n \<Longrightarrow> st (k + i) = 2"
  shows "wait_paused st k = Some (Suc (k + n))"
  using wait_paused_skip [of n st k] assms wait_paused.simps [of st "k + n"] by simp

lemma wait_paused_SomeD: "wait_paused st k = Some j \<Longrightarrow> \<exists>n. j = Suc (k + n) \<and> st (k + n) \<noteq> 2"
proof (induction rule: wait_paused.raw_induct [rotated, consumes 1, case_names step])
  case (step wait st k j)
  show ?case
  proof (cases "st k = 2")
    case True
    with step(2) have "wait st (Suc k) = Some j" by simp
    from step(1) [OF this] obtain n where "j = Suc (Suc k + n)" "st (Suc k + n) \<noteq> 2" by blast
    then show ?thesis by (intro exI [of _ "Suc n"]) simp
  next
    case False
    with step(2) show ?thesis by (intro exI [of _ 0]) simp
  qed
qed

text \<open>
  A round of a service ends exactly when the service is not paused for ever, and a stopped
  service leaves the loop.
\<close>

lemma service_round_ends_iff:
  "service_round st k d \<noteq> None \<longleftrightarrow> (\<exists>n. st (Suc k + n) \<noteq> 2)"
proof
  assume "\<exists>n. st (Suc k + n) \<noteq> 2"
  then have "st (Suc k + (LEAST n. st (Suc k + n) \<noteq> 2)) \<noteq> 2" by (rule LeastI_ex)
  moreover have "st (Suc k + i) = 2" if "i < (LEAST n. st (Suc k + n) \<noteq> 2)" for i
    using not_less_Least [OF that] by blast
  ultimately have "wait_paused st (Suc k) \<noteq> None" using wait_paused_resumes by blast
  then show "service_round st k d \<noteq> None" by (simp add: service_round_def)
next
  assume "service_round st k d \<noteq> None"
  then show "\<exists>n. st (Suc k + n) \<noteq> 2"
    using wait_paused_SomeD [of st "Suc k"] by (auto simp: service_round_def Let_def)
qed

lemma stopped_service_leaves:
  "service_round st k d = Some (j, d') \<Longrightarrow> stopEvent d' = (st k = 0 \<or> stopEvent d) \<and> k < j"
  using wait_paused_SomeD [of st "Suc k" j] by (auto simp: service_round_def Let_def split: if_splits)

end
