(* ===== verification/ModuleTests.thy ===== *)
theory ModuleTests
  imports ProtocolGuard ClientLocale PatchPolicy PatchArtifact RealmList
begin

text \<open>
  The module tests of \<open>src/Tests\<close>, run on the model.  A test function is a truth value, the
  conjunction of its \<open>CHECK\<close>s, and each is proved to hold by evaluation, so that the
  definitions agree with the expectations the repository itself states.  The tests with
  threads are proved for every schedule, not for one run; the expected MD5 value is left
  out, since the digest function is a parameter.
\<close>

section \<open>AuthProtocolGuardTests.cpp\<close>

definition set_body_size :: "bytes \<Rightarrow> nat \<Rightarrow> bytes" where
  "set_body_size frame n = frame[2 := word_of_nat (n mod 256), 3 := word_of_nat (n div 256)]"

definition MakeChallenge :: "byte \<Rightarrow> uint16 \<Rightarrow> bytes \<Rightarrow> bytes" where
  "MakeChallenge command bld acc =
     (let bodySize = ChallengeAccountPrefixBodySize + length acc;
          frame = set_body_size ((replicate (AuthChallengeHeaderSize + bodySize) 0)[0 := command]) bodySize;
          frame = frame[11 := ucast (bld AND 0xFF), 12 := ucast (drop_bit 8 bld)];
          frame = frame[ChallengeAccountLengthOffset := word_of_nat (length acc)]
      in take ChallengeAccountDataOffset frame @ acc)"

definition TEST :: bytes where "TEST = [84, 69, 83, 84]"

abbreviation inspect :: "StreamState \<Rightarrow> bytes \<Rightarrow> FrameDecision" where
  "inspect st frame \<equiv> InspectFrame st (Some frame) (length frame)"

definition CheckChallengeSplits :: "byte \<Rightarrow> bool" where
  "CheckChallengeSplits command =
     (let frame = MakeChallenge command 5875 TEST;
          coalesced = frame @ [cmd_code CMD_AUTH_LOGON_PROOF]
      in list_all (\<lambda>split. fd_status (InspectFrame Challenge (Some frame) split) = Incomplete) [0..<length frame] \<and>
         inspect Challenge frame = CompleteFrame (length frame) \<and>
         fd_status (inspect Challenge coalesced) = Complete \<and>
         frameSize (inspect Challenge coalesced) = length frame)"

definition CheckFixedFrame :: "StreamState \<Rightarrow> byte \<Rightarrow> nat \<Rightarrow> bool" where
  "CheckFixedFrame st command required =
     (let frame = (replicate required 0)[0 := command]
      in list_all (\<lambda>split. fd_status (InspectFrame st (Some frame) split) = Incomplete) [0..<required] \<and>
         fd_status (inspect st frame) = Complete \<and> frameSize (inspect st frame) = required)"

definition CheckProofFrame :: "StreamState \<Rightarrow> byte \<Rightarrow> nat \<Rightarrow> nat \<Rightarrow> bool" where
  "CheckProofFrame st command required keyCountOffset =
     (CheckFixedFrame st command required \<and>
      InspectFrame st (Some ((replicate required 0)[0 := command, keyCountOffset := 1])) (keyCountOffset + 1) =
        RejectWith UnsupportedKeyProof)"

definition CheckChallengeFraming :: bool where
  "CheckChallengeFraming =
     (let frame = MakeChallenge (cmd_code CMD_AUTH_LOGON_CHALLENGE) 5875 TEST;
          accountLength = unat (frame ! ChallengeAccountLengthOffset);
          declaredLongBody = ChallengeAccountPrefixBodySize + accountLength + 1;
          longBody = set_body_size frame declaredLongBody;
          longBody = longBody @ replicate (AuthChallengeHeaderSize + declaredLongBody - length longBody) 0
      in CheckChallengeSplits (cmd_code CMD_AUTH_LOGON_CHALLENGE) \<and>
         CheckChallengeSplits (cmd_code CMD_AUTH_RECONNECT_CHALLENGE) \<and>
         list_all (\<lambda>body. inspect Challenge (set_body_size frame body) = RejectWith MalformedLength)
           [0..<AuthChallengeMinimumBodySize] \<and>
         inspect Challenge (set_body_size frame (ChallengeAccountPrefixBodySize + accountLength - 1)) =
           RejectWith MalformedLength \<and>
         inspect Challenge longBody = RejectWith MalformedLength \<and>
         fd_status (inspect Challenge (MakeChallenge (cmd_code CMD_AUTH_LOGON_CHALLENGE) 5875 [84, 69, 0, 83, 84])) =
           Reject)"

definition CheckFixedFraming :: bool where
  "CheckFixedFraming =
     (CheckProofFrame LogonProof (cmd_code CMD_AUTH_LOGON_PROOF) AuthLogonProofSize 73 \<and>
      CheckProofFrame ReconnectProof (cmd_code CMD_AUTH_RECONNECT_PROOF) AuthReconnectProofSize 57 \<and>
      CheckFixedFrame Authenticated (cmd_code CMD_REALM_LIST) AuthRealmListSize \<and>
      CheckFixedFrame Patch (cmd_code CMD_XFER_ACCEPT) AuthXferAcceptSize \<and>
      CheckFixedFrame Patch (cmd_code CMD_XFER_RESUME) AuthXferResumeSize \<and>
      CheckFixedFrame Patch (cmd_code CMD_XFER_CANCEL) AuthXferCancelSize)"

definition CheckRejectedCommands :: bool where
  "CheckRejectedCommands =
     (inspect Challenge [0xFF] = RejectWith UnknownCommand \<and>
      inspect Challenge [cmd_code CMD_REALM_LIST] = RejectWith UnauthorizedCommand)"

definition CheckPendingLimit :: bool where
  "CheckPendingLimit =
     (CanAppendPending 0 MaxPendingInput \<and> CanAppendPending MaxPendingInput 0 \<and>
      \<not> CanAppendPending MaxPendingInput 1 \<and> \<not> CanAppendPending 0xFFFFFFFFFFFFFFFF 1)"

definition CheckDeadline :: "int \<Rightarrow> bool" where
  "CheckDeadline start =
     (let deadline = mk_Deadline start 30; disabled = mk_Deadline start 0
      in active deadline \<and> \<not> expired deadline (start + 29 * ns_per_second) \<and>
         expired deadline (start + 30 * ns_per_second) \<and>
         \<not> active (deactivate deadline) \<and> \<not> expired (deactivate deadline) (start + 3600 * ns_per_second) \<and>
         \<not> active disabled \<and> \<not> expired disabled (start + 3600 * ns_per_second))"

definition CheckBuildIndependentFraming :: bool where
  "CheckBuildIndependentFraming =
     list_all (\<lambda>bld. let frame = MakeChallenge (cmd_code CMD_AUTH_LOGON_CHALLENGE) bld TEST
         in inspect Challenge frame = CompleteFrame (length frame))
       [5875, 6005, 6141, 8606, 12340, 15595, 18273, 18414, 21742, 26972, 35662, 40000]"

lemma challenge_framing_passes: CheckChallengeFraming by code_simp

lemma fixed_framing_passes: CheckFixedFraming by code_simp

lemma rejected_commands_passes: CheckRejectedCommands by code_simp

lemma pending_limit_passes: CheckPendingLimit
  by (simp add: CheckPendingLimit_def CanAppendPending_def MaxPendingInput_def)

lemma deadline_passes: "CheckDeadline start"
  by (simp add: CheckDeadline_def mk_Deadline_def active_def expired_def deactivate_def ns_per_second_def)

lemma build_independent_framing_passes: CheckBuildIndependentFraming by code_simp

section \<open>ClientBuildPolicyTests.cpp\<close>

text \<open>A row of the expected table: build, version, major, minor, bugfix, hotfix.\<close>

definition resolves :: "int \<times> RealmVersion \<times> int \<times> int \<times> int \<times> char \<Rightarrow> bool" where
  "resolves e =
     (case e of (b, v, ma, mi, bu, ho) \<Rightarrow>
        FindClientBuildPolicy (word_of_int b) = Some (policy_row b ma mi bu ho v) \<and>
        FindBuildInfo (word_of_int b) = Some (buildInfo (policy_row b ma mi bu ho v)))"

definition TestSupportedBuildsResolveExactly :: bool where
  "TestSupportedBuildsResolveExactly =
     list_all resolves
       [(5875, REALM_VERSION_VANILLA, 1, 12, 1, CHR '' ''), (6005, REALM_VERSION_VANILLA, 1, 12, 2, CHR '' ''),
        (6141, REALM_VERSION_VANILLA, 1, 12, 3, CHR '' ''), (8606, REALM_VERSION_TBC, 2, 4, 3, CHR '' ''),
        (12340, REALM_VERSION_WOTLK, 3, 3, 5, CHR ''a''), (15595, REALM_VERSION_CATA, 4, 3, 4, CHR '' ''),
        (18273, REALM_VERSION_MOP, 5, 4, 8, CHR '' ''), (18414, REALM_VERSION_MOP, 5, 4, 8, CHR '' ''),
        (21742, REALM_VERSION_WOD, 6, 2, 4, CHR '' ''), (26972, REALM_VERSION_LEGION, 7, 3, 5, CHR '' ''),
        (35662, REALM_VERSION_BFA, 8, 3, 7, CHR '' ''), (40000, REALM_VERSION_SHADOWLANDS, 9, 0, 0, CHR '' '')]"

definition TestUnknownBuildsAreRejected :: bool where
  "TestUnknownBuildsAreRejected =
     list_all (\<lambda>b. FindClientBuildPolicy (word_of_nat b) = None \<and> FindBuildInfo (word_of_nat b) = None)
       [0, 1, 39999, 40001, 65535]"

definition TestLockedAccountResultUsesRuntimeBuildFamily :: bool where
  "TestLockedAccountResultUsesRuntimeBuildFamily =
     (list_all (\<lambda>b. LockedAccountResultForBuild b = WOW_FAIL_DB_BUSY) [5875, 6005, 6141] \<and>
      list_all (\<lambda>b. LockedAccountResultForBuild b = WOW_FAIL_LOCKED_ENFORCED)
        [8606, 12340, 15595, 18273, 18414, 21742, 26972, 35662, 40000] \<and>
      list_all (\<lambda>b. LockedAccountResultForBuild b = WOW_FAIL_DB_BUSY) [0, 39999, 40001, 65535])"

lemmas build_lookup_defs = FindClientBuildPolicy_def FindBuildInfo_def LockedAccountResultForBuild_def
  SupportedClientBuilds_def policy_row_def

lemma supported_builds_passes: TestSupportedBuildsResolveExactly
  by (simp add: TestSupportedBuildsResolveExactly_def resolves_def build_lookup_defs)

lemma unknown_builds_passes: TestUnknownBuildsAreRejected
  by (simp add: TestUnknownBuildsAreRejected_def build_lookup_defs)

lemma locked_account_passes: TestLockedAccountResultUsesRuntimeBuildFamily
  by (simp add: TestLockedAccountResultUsesRuntimeBuildFamily_def build_lookup_defs)

section \<open>ClientLocaleTests.cpp\<close>

definition TestCanonicalClaimsArePreserved :: bool where
  "TestCanonicalClaimsArePreserved =
     list_all (\<lambda>(wire, expected). ParseClientLocaleClaim wire = Some expected)
       [(''SUne'', ''enUS''), (''BGne'', ''enGB''), (''NChz'', ''zhCN''), (''RBtp'', ''ptBR''), (''URur'', ''ruRU'')]"

definition TestMalformedClaimsAreRejected :: bool where
  "TestMalformedClaimsAreRejected =
     list_all (\<lambda>wire. ParseClientLocaleClaim wire = None)
       [[], ''SUn'', ''SUneX'', ''sune'', ''SU'' @ [CHR 0x27] @ ''X'', ''SU1e'', ''SU'' @ [CHR 0x00] @ ''e'']"

lemma canonical_claims_passes: TestCanonicalClaimsArePreserved by code_simp

lemma malformed_claims_passes: TestMalformedClaimsAreRejected by code_simp

section \<open>PatchSafetyTests.cpp\<close>

text \<open>\<open>policy_check en cs Q\<close>: the policy parses and \<open>Q\<close> holds of it.\<close>

definition policy_check :: "bool \<Rightarrow> string \<Rightarrow> (PatchPolicy \<Rightarrow> bool) \<Rightarrow> bool" where
  "policy_check en cs Q = (case Parse en cs of None \<Rightarrow> False | Some policy \<Rightarrow> Q policy)"

definition TestDefaultPolicyOnlyPatchesUnsupportedBuilds :: bool where
  "TestDefaultPolicyOnlyPatchesUnsupportedBuilds =
     policy_check True [] (\<lambda>policy. ShouldPatch policy 5000 False \<and> \<not> ShouldPatch policy 5875 True)"

definition TestForcedPolicyMatchesExactAcceptedBuilds :: bool where
  "TestForcedPolicyMatchesExactAcceptedBuilds =
     policy_check True ''5875 6005''
       (\<lambda>policy. ShouldPatch policy 5875 True \<and> ShouldPatch policy 6005 True \<and> \<not> ShouldPatch policy 6141 True)"

definition TestDisabledPolicyNeverPatches :: bool where
  "TestDisabledPolicyNeverPatches =
     policy_check False ''5875'' (\<lambda>policy. \<not> ShouldPatch policy 5000 False \<and> \<not> ShouldPatch policy 5875 True)"

definition TestInvalidBuildTokensAreRejected :: bool where
  "TestInvalidBuildTokensAreRejected =
     list_all (\<lambda>cs. Parse True cs = None) [''0'', ''65536'', ''5875x'']"

lemmas policy_test_defs = policy_check_def Parse_def parse_tokens_eq default_PatchPolicy_def ShouldPatch_def

lemma test_tokens:
  "tokens [] = []" "tokens ''5875 6005'' = [''5875'', ''6005'']" "tokens ''5875'' = [''5875'']"
  "tokens ''0'' = [''0'']" "tokens ''65536'' = [''65536'']" "tokens ''5875x'' = [''5875x'']"
  by (simp_all add: tokens.simps isspace_def Let_def)

lemma test_valid_tokens:
  "valid_build_token ''5875''" "valid_build_token ''6005''" "\<not> valid_build_token ''0''"
  "\<not> valid_build_token ''65536''" "\<not> valid_build_token ''5875x''"
  "token_build ''5875'' = 5875" "token_build ''6005'' = 6005"
  by (simp_all add: valid_build_token_def isdigit_def decimal_def digit_value_def token_build_def)

lemma default_policy_passes: TestDefaultPolicyOnlyPatchesUnsupportedBuilds
  by (simp add: TestDefaultPolicyOnlyPatchesUnsupportedBuilds_def policy_test_defs test_tokens)

lemma forced_policy_passes: TestForcedPolicyMatchesExactAcceptedBuilds
  by (simp add: TestForcedPolicyMatchesExactAcceptedBuilds_def policy_test_defs test_tokens test_valid_tokens)

lemma disabled_policy_passes: TestDisabledPolicyNeverPatches
  by (simp add: TestDisabledPolicyNeverPatches_def policy_test_defs test_tokens test_valid_tokens)

lemma invalid_tokens_passes: TestInvalidBuildTokensAreRejected
  by (simp add: TestInvalidBuildTokensAreRejected_def policy_test_defs test_tokens test_valid_tokens)

text \<open>
  \<open>ReadAll\<close> reads eight bytes at a time until nothing comes; two reads are enough for the
  six bytes of the test.
\<close>

fun ReadAll :: "nat \<Rightarrow> PatchArtifact \<Rightarrow> PatchArtifact \<times> bytes" where
  "ReadAll 0 a = (a, [])"
| "ReadAll (Suc n) a =
     (case Read a True 8 of (a, got) \<Rightarrow>
        if got = [] then (a, []) else case ReadAll n a of (a, got') \<Rightarrow> (a, got @ got'))"

definition abcdef :: bytes where "abcdef = [97, 98, 99, 100, 101, 102]"

text \<open>A plain file with the given content, and the artifact test on it.\<close>

definition plain_file :: "bytes \<Rightarrow> disk_file" where
  "plain_file c = \<lparr>f_regular = True, f_stat_error = False, f_openable = True, f_seekable = True,
     f_content = c, f_fault = None\<rparr>"

definition TestArtifactRetainsSizeDigestAndBytes :: "(bytes list \<Rightarrow> bytes) \<Rightarrow> bool" where
  "TestArtifactRetainsSizeDigestAndBytes h =
     (case Open h [''x.mpq'' \<mapsto> plain_file abcdef] ''x.mpq'' of
        None \<Rightarrow> False
      | Some artifact \<Rightarrow>
          let (ok0, a0) = Seek artifact 0; (a1, all) = ReadAll 2 a0;
              (ok3, a2) = Seek a1 3; (a3, tail) = ReadAll 2 a2;
              (ok6, a4) = Seek a3 (m_size a3); (a5, none) = ReadAll 2 a4
          in m_size artifact = 6 \<and> m_digest artifact = take 16 (h [abcdef]) \<and>
             ok0 \<and> all = abcdef \<and> ok3 \<and> tail = [100, 101, 102] \<and> ok6 \<and> none = [] \<and>
             \<not> fst (Seek a5 (m_size a5 + 1)))"

definition TestArtifactRejectsInvalidSources :: "(bytes list \<Rightarrow> bytes) \<Rightarrow> bool" where
  "TestArtifactRejectsInvalidSources h =
     (let fs = [''tmp'' \<mapsto> (plain_file [])\<lparr>f_regular := False\<rparr>, ''empty.mpq'' \<mapsto> plain_file []]
      in Open h fs ''missing.mpq'' = None \<and> Open h fs ''tmp'' = None \<and> Open h fs ''empty.mpq'' = None)"

lemma ReadAll_2:
  "ReadAll 2 a =
     (case stream_read (m_stream a) 8 of (s, got) \<Rightarrow>
        if got = [] then (a\<lparr>m_stream := s\<rparr>, [])
        else case stream_read s 8 of (s, got') \<Rightarrow> (a\<lparr>m_stream := s\<rparr>, got @ got'))"
proof -
  have "Read b True 8 = (case stream_read (m_stream b) 8 of (s, got) \<Rightarrow> (b\<lparr>m_stream := s\<rparr>, got))" for b
    by (simp add: Read_def Let_def)
  then show ?thesis by (simp add: numeral_2_eq_2 split: prod.splits)
qed

lemma artifact_passes: "TestArtifactRetainsSizeDigestAndBytes h"
proof -
  define st where "st = seekg 0 (open_ate (plain_file abcdef))"
  have st: "stream_ok st" "good st" "s_pos st = 0" "s_content st = abcdef" "s_fault st = None" "s_seekable st"
    by (simp_all add: st_def seekg_def open_ate_def plain_file_def stream_ok_def good_def)
  have loop: "digest_loop st [] = (st\<lparr>s_pos := 6, gcount := 6, eofbit := True, failbit := True\<rparr>, [abcdef])"
    using st by (subst digest_loop.simps, simp add: stream_read_def hits_fault_def DigestChunkSize_def abcdef_def)
      (subst digest_loop.simps, simp add: stream_ok_def)
  have pf: "f_regular (plain_file abcdef)" "\<not> f_stat_error (plain_file abcdef)" "f_openable (plain_file abcdef)"
      "s_pos (open_ate (plain_file abcdef)) = 6" "\<not> badbit st"
    using st(2) by (simp_all add: plain_file_def open_ate_def abcdef_def good_def)
  let ?a = "\<lparr>m_stream = st\<lparr>s_pos := 0, gcount := 6, eofbit := False, failbit := False, badbit := False\<rparr>,
      m_size = 6, m_digest = take 16 (h [abcdef])\<rparr>"
  have rw: "seekg 0 (clear_state (st\<lparr>s_pos := 6, gcount := 6, eofbit := True, failbit := True\<rparr>)) = m_stream ?a"
    "good (m_stream ?a)"
    using st by (simp_all add: seekg_def clear_state_def stream_ok_def good_def)
  have "Open h [''x.mpq'' \<mapsto> plain_file abcdef] ''x.mpq'' = Some ?a"
    using st(2) pf rw by (simp add: Open_def Let_def st_def [symmetric] loop)
  then show ?thesis
    using st by (simp add: TestArtifactRetainsSizeDigestAndBytes_def Let_def Seek_def ReadAll_2 seekg_def
        clear_state_def stream_ok_def good_def stream_read_def hits_fault_def abcdef_def)
qed

lemma invalid_sources_passes: "TestArtifactRejectsInvalidSources h"
  by (simp add: TestArtifactRejectsInvalidSources_def Open_def plain_file_def open_ate_def Let_def)

section \<open>RealmSnapshotTests.cpp\<close>

definition MakeSnapshot :: "string \<Rightarrow> uint32 \<Rightarrow> RealmSnapshot" where
  "MakeSnapshot nm n =
     (let realm = default_Realm\<lparr>realm_name := nm, m_ID := n\<rparr>
      in empty_snapshot\<lparr>realms := [nm \<mapsto> realm],
           realmsByVersion := (\<lambda>_. [])(REALM_VERSION_VANILLA := [nm])\<rparr>)"

definition TestViewRetainsPublishedGeneration :: bool where
  "TestViewRetainsPublishedGeneration =
     (let store = Publish (MakeSnapshot ''First'' 1) mk_RealmSnapshotStore;
          oldView = mk_RealmListView (Load store) REALM_VERSION_VANILLA;
          store = Publish (MakeSnapshot ''Second'' 2) store;
          newView = mk_RealmListView (Load store) REALM_VERSION_VANILLA
      in view_size oldView = 1 \<and> realm_name (view_list oldView ! 0) = ''First'' \<and>
         view_size newView = 1 \<and> realm_name (view_list newView ! 0) = ''Second'')"

lemma view_retains_passes: TestViewRetainsPublishedGeneration by code_simp

text \<open>
  \<open>TestConcurrentPublicationIsConsistent\<close>: one thread publishes the generations in order,
  others load at any moment.  What a reader finds is the snapshot of the last publication
  before its load, hence consistent, for every number of publications.
\<close>

definition generation :: "nat \<Rightarrow> RealmSnapshot" where
  "generation n = MakeSnapshot (''Realm-'' @ to_decimal n) (word_of_nat n)"

definition reader_finds_consistent :: "RealmSnapshotStore \<Rightarrow> bool" where
  "reader_finds_consistent store =
     (let view = mk_RealmListView (Load store) REALM_VERSION_VANILLA; realm = view_list view ! 0
      in view_size view = 1 \<and> realm_name realm = ''Realm-'' @ to_decimal (unat (m_ID realm)))"

lemma generation_consistent:
  assumes "n < 2 ^ 32" and "Load store = generation n"
  shows "reader_finds_consistent store"
  using assms
  by (simp add: reader_finds_consistent_def generation_def MakeSnapshot_def mk_RealmListView_def view_list_def
      view_size_def Let_def unat_of_nat)

lemma concurrent_publication_passes:
  assumes "n \<le> 2000"
  shows "reader_finds_consistent (fold (\<lambda>k. Publish (generation k)) [0..<Suc n] mk_RealmSnapshotStore)"
proof (rule generation_consistent [of n])
  show "n < 2 ^ 32" using assms by simp
  have "fold (\<lambda>k. Publish (generation k)) ks st = fold Publish (map generation ks) st" for ks st
    by (induction ks arbitrary: st) simp_all
  then show "Load (fold (\<lambda>k. Publish (generation k)) [0..<Suc n] mk_RealmSnapshotStore) = generation n"
    by (simp add: store.load_after_publishes del: upt_Suc) (simp add: upt_Suc)
qed

text \<open>
  \<open>TestRefreshGateAdmitsOneCaller\<close>: however eight calls at the due time and the return of
  the refresh are interleaved, one refresh runs.
\<close>

lemma refresh_gate_admits_one:
  assumes "es = Call 100 # es'" and "set es' \<subseteq> {Call 100, Return}"
  shows "refreshes RunIfDue hold_gate release_gate es (mk_RealmRefreshGate 20 100) = [100]"
proof -
  have "refreshes RunIfDue hold_gate release_gate es' g = []" if "m_nextUpdate g = 120" for g
    using assms(2) that
  proof (induction es' arbitrary: g)
    case (Cons e es)
    then show ?case by (cases e) (auto simp: RunIfDue_def release_gate_def)
  qed simp
  then show ?thesis
    by (simp add: assms(1) RunIfDue_def mk_RealmRefreshGate_def hold_gate_def)
qed

text \<open>
  \<open>TestRefreshGateDoesNotBlockOtherCallers\<close>: while the refresh of one caller runs, another
  call returns \<open>false\<close> and leaves the gate alone.
\<close>

definition TestRefreshGateDoesNotBlockOtherCallers :: bool where
  "TestRefreshGateDoesNotBlockOtherCallers =
     (case RunIfDue 100 (mk_RealmRefreshGate 20 100) of (due, g) \<Rightarrow>
        due \<and> RunIfDue 100 (hold_gate g) = (False, hold_gate g))"

lemma refresh_gate_does_not_block_passes: TestRefreshGateDoesNotBlockOtherCallers
  by (simp add: TestRefreshGateDoesNotBlockOtherCallers_def RunIfDue_def mk_RealmRefreshGate_def hold_gate_def)

end
