(* ===== verification/Spec2Isabelle.thy ===== *)
theory Spec2Isabelle
  imports ServerConversation FailedLogins Backpressure PatchProtocol RealmListPacket WireLayout DaemonBehaviour WindowsBuild ModuleTests
begin

text \<open>
  \<^bold>\<open>realmd: the MaNGOS login server.\<close>

  \<^bold>\<open>The program.\<close>  \<open>main\<close> (\<open>src/Main.cpp\<close>) reads the configuration, opens the login database,
  loads the realm table (\<open>src/Realm\<close>), starts the server (\<open>src/Auth/AuthServer.cpp\<close>) and then
  loops, sweeping overdue sessions, until a signal or a scheduled exit stops it.  The network
  engine, which is not part of the repository, accepts connections on its own threads, creates
  a session for each (\<open>src/Auth/AuthSocket.cpp\<close>) and calls it with input.  A session buffers the
  input, lets the protocol guard (\<open>src/Auth/AuthProtocolGuard.cpp\<close>) decide whether a frame is
  complete and allowed, and runs the handler of its command: logon by SRP6, reconnect with a
  kept session key, the realm list, or the transfer of a patch, whose policy, archive and
  streaming thread are \<open>PatchPolicy\<close>, \<open>PatchArtifact\<close> and \<open>PatchHandler\<close>.

  \<^bold>\<open>Theories and sources.\<close>
  \<^item> \<open>Prelude\<close>, \<open>Decimal_Text\<close>: word types, little-endian bytes, C strings, decimal text, and the
    list and word lemmas the others share.
  \<^item> \<open>AuthCodes\<close>: \<open>AuthCodes.h\<close>.  \<open>ClientBuild\<close>: \<open>ClientBuildPolicy\<close>, \<open>AuthResultPolicy\<close>.
    \<open>ClientLocale\<close>: \<open>ClientLocale.cpp\<close>.
  \<^item> \<open>ProtocolGuard\<close>: \<open>InspectFrame\<close>, \<open>CanAppendPending\<close>, \<open>Deadline\<close>.  The language of frames
    (\<open>ClientFrame\<close>, \<open>encode\<close>) is the reference the inspector is compared with.
  \<^item> \<open>PatchPolicy\<close>, \<open>PatchArtifact\<close>, \<open>PatchTransfer\<close>: the files of these names and
    \<open>PatchHandler.cpp\<close>, over a model of files and input streams with state bits and device faults.
    \<open>Backpressure\<close>: the steps of the streaming thread interleaved with those of the transport.
  \<^item> \<open>RealmSnapshot\<close>, \<open>RealmList\<close>: \<open>RealmSnapshot.h\<close>, \<open>RealmList.cpp\<close>; the gate also under
    arbitrary schedules of calling threads.
  \<^item> \<open>External\<close>, \<open>Example_Ext\<close>: what the sources call and do not contain, as the record \<open>ext\<close>
    of functions, with its documented laws, and an instance that satisfies them.
  \<^item> \<open>AuthSession\<close>: the state of \<open>AuthSocket\<close> as the records \<open>readbuf\<close> and \<open>sock\<close>, construction,
    sending, closing, expiry, counters, and the database calls.  The state that sessions share
    (database, realm list, files, clock, counters, number of random draws) is \<open>world\<close>.
    \<open>Srp\<close>: \<open>_SetVSFields\<close> and the arithmetic of the proofs.  \<open>LogonSession\<close>, \<open>ReconnectSession\<close>,
    \<open>PatchSession\<close>, \<open>RealmListSession\<close>: the handlers, each as the receiving of its frame from
    the buffer and a body on the received bytes.  \<open>OnData\<close>: the dispatch table and \<open>onData\<close>.
  \<^item> \<open>WireLayout\<close>: the packed structures, and the handlers on packets written by them.
  \<^item> \<open>SessionInvariant\<close>, \<open>SessionSteps\<close>: the invariant of a session and its reachable states.
  \<^item> \<open>SrpAgreement\<close>, \<open>LoginProtocol\<close>, \<open>ReconnectProtocol\<close>, \<open>PatchProtocol\<close>, \<open>RealmListPacket\<close>: each
    conversation with a client, the client written down on its own.  \<open>FailedLogins\<close>: what a wrong
    password leads to.
  \<^item> \<open>SessionProtocol\<close>: the protocol as an automaton (\<open>protocol\<close>, \<open>run_of\<close>) and the log of a session
    (\<open>logged\<close>: the runs of \<open>reachable\<close> with the frames that were handled, each with the session and
    the database it found); every log is a run of the automaton.  \<open>Authentication\<close>: what the log
    says of the status (\<open>justified\<close>), for all sessions of a run of the server (\<open>traced\<close>).
    \<open>ServerConversation\<close>: a client that knows only the bytes it receives, at a running server.
  \<^item> \<open>AuthServer\<close>: \<open>AuthServer.cpp\<close>: the record \<open>Impl\<close> with its weak pointers, live objects, and
    the steps of the engine, so that calls of sessions and the two halves of the sweep interleave.
  \<^item> \<open>CommandLine\<close>, \<open>Daemon\<close>, \<open>DaemonBehaviour\<close>, \<open>WindowsBuild\<close>: \<open>Main.cpp\<close>.
  \<^item> \<open>ModuleTests\<close>: the tests of \<open>src/Tests\<close>, evaluated on the model.

  \<^bold>\<open>How the code is represented.\<close>  Integers have the width of their C++ types and wrap around;
  sizes and positions within a buffer are natural numbers, for which the buffer limit of 65539
  bytes is proved; the steady clock counts in nanoseconds.  Errors are values: \<open>fault\<close> for an
  access out of bounds or a failed assertion, which is proved not to occur for any input (the
  reads whose extent depends on the input are checked; those at fixed places lie inside every
  packet that passes the length tests before them, and a row of a query has its columns);
  \<open>None\<close> and early returns as in the code; exit codes of \<open>main\<close>.  Statements to the database are
  pairs of a format and arguments, kept in a log, so that what is sent can be stated.  A session
  keeps what it sent, the calls of its closer and the transfers it started; what the thread of a
  transfer sends and whether it calls its copy of the closer is the result of \<open>run_job\<close>.

  \<^bold>\<open>Termination, and no fuel in the sessions.\<close>  The receive loop terminates because every handler
  consumes its frame; the digest loop and the tokenizer by the bytes that are left; the argument
  parser by the arguments.  The streaming thread and the main loop may run for ever in the code
  and are partial functions with result \<open>None\<close> for that: the former is proved to return for every
  archive and every flow control, the latter to return exactly when it is signalled, within the
  round of the signal.

  \<^bold>\<open>Interfaces.\<close>  \<open>frame_guard\<close> (what the receive loop needs of the inspector), \<open>chunk_reader\<close> and
  \<open>byte_source\<close> (what the thread needs of the archive), \<open>snapshot_store\<close> and \<open>rate_limiter\<close> (what
  the realm list needs), \<open>frame_property\<close> and \<open>frame_safety\<close> (from one frame to any input), and
  \<open>session_contract\<close> (what the server needs of its sessions) are locales, each interpreted on the
  definitions that model the code.

  \<^bold>\<open>What is shown.\<close>
  \<^item> Receiving: the inspector accepts exactly the encodings of well-formed frames that the state
    allows, its verdict is stable under more input, the handlers consume exactly the frame, how
    the network cuts the input does not matter, \<open>onData\<close> refines a loop over lists, pending input
    is bounded, no input leads to a fault.
  \<^item> Authentication: in every run of the server a session is authenticated only if its log is a
    challenge that the tables of the database granted and the matching proof (or a reconnect with
    the stored key), followed by requests for the realm list; conversely a running server logs in
    a client that computes its proof from the answer it got; every session runs through the
    protocol automaton, in whatever pieces and order its input arrives.
  \<^item> Sessions: the life of a session as a state machine, who is closed by the deadline, that every
    text from a client in a statement has been escaped, the layout of what is read and written.
  \<^item> Protocols: an honest client with the right password is authenticated and both sides have the
    same key; a proof authenticates if and only if it is the right one; the verdict on a challenge
    in every case; the answer to a wrong password, the count and the ban; the same for
    reconnecting; an outdated client receives the archive from the
    offset it asks for; a client decodes the realms the server meant from the list packet.
  \<^item> Transfers: the thread ends for every archive; together with the transport it never queues more
    than the ceiling and one packet, every run ends, and none is stuck before all is written.
  \<^item> Realms: the list shows the table as last read, at most one refresh at a time and per interval;
    the earliest version among a realm's builds decides to whom it is shown.
  \<^item> Server and daemon: the counters are the numbers of live and authenticated sessions, the sweep
    closes the overdue sessions and no others, the start-up succeeds exactly when it should and
    does its steps in order, the loop ends when signalled, overdue sessions are settled, the exit
    code and the order of the shutdown, the command line against a grammar.
  The agreement of client and server uses that the group is the one of the source and the laws of
  big numbers and digests; nothing is claimed about cryptographic strength.

  \<^bold>\<open>Laws of external code.\<close>  \<open>BigNumber_laws\<close> (arithmetic and conversions), \<open>Sha1_laws\<close> (length,
  chunking does not matter), \<open>ByteBuffer_laws\<close> (little-endian, terminated strings),
  \<open>Schedule_laws\<close> (a new schedule is disabled), \<open>engine_runs\<close> (the engine performs steps of the
  server between two rounds and does not stop it).  That \<open>awaitWritable\<close> returns true only while at
  most the given number of bytes is queued is the guard of the step \<open>admitted\<close> of \<open>xfer_step\<close>.  Each theorem that needs one names it, and a
  concrete instance satisfies it.

  \<^bold>\<open>Not modelled.\<close>  The texts of log messages and of \<open>usage\<close>; the internals of the network engine, the database and the configuration; \<open>sleep_for\<close>.  The scheduled
  exit's calendar is external code.  Memory orders of the atomics and data races within the engine
  are outside this style of model: calls on one session are atomic steps, calls on different
  sessions interleave.  The Windows parts of \<open>main\<close> are operations of their own
  (\<open>WindowsBuild\<close>); the program as a whole is that of a POSIX system.  Build files and the
  configuration template have no behaviour to model.
\<close>

section \<open>The daemon and its sessions\<close>

text \<open>
  After a successful start-up, in every round of the main loop, the server's state is that of
  a run in which the log of every live session justifies its status.
\<close>
lemma daemon_sessions_justified:
  assumes "start_up x dx (mk_daemon dx w) = (None, d)" and "engine_runs x ticks"
  shows "\<exists>H. traced x (d_system d) H (d_system (rounds dx ticks n d)) \<and>
    (\<forall>i ob. live (d_system (rounds dx ticks n d)) i = Some ob \<longrightarrow>
       justified x (H i) (obj_sock ob) (status (obj_sock ob)))"
proof -
  have ok: "startup_possible x dx w" using start_up_outcome [of x dx w] assms(1) by (simp split: if_splits)
  then obtain policy where p: "cfg_policy x dx = Some policy" by (auto simp: startup_possible_def)
  have d: "d = snd (start_up x dx (mk_daemon dx w))" using assms(1) by simp
  note st = start_up_state [OF ok p, folded d]
  have "server_reachable x (d_system d) (d_system (rounds dx ticks n d))"
    using rounds_reachable [OF assms(2), of dx 0 d n] by simp
  then obtain H where "traced x (d_system d) H (d_system (rounds dx ticks n d))"
    using server_reachable_traced by blast
  with server_session_justified [OF this [unfolded st]] show ?thesis by blast
qed

end
